(* ===== verification/Prelude.thy ===== *)
theory Prelude
  imports Main "HOL-Library.Word" "HOL-Library.List_Lexorder" "HOL-Library.Char_ord"
    "HOL-Library.Sublist"
begin

text \<open>
  Shared vocabulary of the development: the type of JavaScript strings (sequences of
  UTF-16 code units), the string and array operations of the language that the operator
  console under ui/src uses (trim, split, join, includes, filter and map by index), the
  nullish and truthiness operators, and the lemma collections that the component theories
  pass to the simplifier.
\<close>

named_theorems js_simps \<open>evaluation of string and array primitives\<close>
named_theorems page_simps \<open>one-step equations of page handlers and their records\<close>

section \<open>Strings\<close>

text \<open>A JavaScript string is a list of UTF-16 code units; its \<open><\<close> is the
  lexicographic order on code units, which is the list order of List-Lexorder.\<close>

type_synonym unit16 = "16 word"
type_synonym jsstring = "unit16 list"

definition js :: "string \<Rightarrow> jsstring" where
  "js s = map of_char s"

lemma of_char16: "(of_char c :: 16 word) = word_of_nat (of_char c)"
  by (simp add: of_char_def)

lemma of_char_less_256: "(of_char c :: nat) < 256"
  by (metis nat_of_char_less_256)

lemma of_char16_inject: "((of_char x :: 16 word) = of_char y) = (x = y)"
proof
  have unat_char: "unat (of_char c :: 16 word) = of_char c" for c
  proof -
    have "(of_char c :: nat) < 2 ^ 16"
      by (rule less_trans [OF of_char_less_256]) simp
    then show ?thesis
      unfolding of_char16 by (simp add: unat_of_nat take_bit_eq_mod)
  qed
  assume "(of_char x :: 16 word) = of_char y"
  then have "unat (of_char x :: 16 word) = unat (of_char y :: 16 word)" by simp
  then show "x = y" by (simp add: unat_char)
qed simp

lemma js_inject [simp]: "(js s = js t) = (s = t)"
  by (auto simp: js_def of_char16_inject inj_def intro: map_injective)

lemma js_Nil [simp]: "js [] = []"
  by (simp add: js_def)

lemma js_eq_Nil [simp]: "(js s = []) = (s = [])" "([] = js s) = (s = [])"
  by (auto simp: js_def)

lemma js_append: "js (s @ t) = js s @ js t"
  by (simp add: js_def)

lemma length_js [simp]: "length (js s) = length s"
  by (simp add: js_def)

subsection \<open>White space, trim\<close>

text \<open>The code units that ECMAScript's String.prototype.trim removes (WhiteSpace and
  LineTerminator).\<close>

definition ws_units :: "unit16 list" where
  "ws_units = [9, 10, 11, 12, 13, 32, 160, 0x1680, 0x2000, 0x2001, 0x2002, 0x2003, 0x2004,
     0x2005, 0x2006, 0x2007, 0x2008, 0x2009, 0x200A, 0x2028, 0x2029, 0x202F, 0x205F,
     0x3000, 0xFEFF]"

definition is_ws :: "unit16 \<Rightarrow> bool" where
  "is_ws c \<longleftrightarrow> c \<in> set ws_units"

definition trim :: "jsstring \<Rightarrow> jsstring" where
  "trim s = rev (dropWhile is_ws (rev (dropWhile is_ws s)))"

definition trimmed :: "jsstring \<Rightarrow> bool" where
  "trimmed s \<longleftrightarrow> s = [] \<or> (\<not> is_ws (hd s) \<and> \<not> is_ws (last s))"

lemma dropWhile_hd_id: "xs = [] \<or> \<not> P (hd xs) \<Longrightarrow> dropWhile P xs = xs"
  by (cases xs) auto

lemma trim_trimmed: "trimmed s \<Longrightarrow> trim s = s"
  by (cases "s = []") (auto simp: trim_def trimmed_def dropWhile_hd_id hd_rev)

lemma trimmed_trim: "trimmed (trim s)"
proof (cases "trim s = []")
  case True
  then show ?thesis by (simp add: trimmed_def)
next
  case False
  define u where "u = dropWhile is_ws s"
  have t: "trim s = rev (dropWhile is_ws (rev u))" by (simp add: trim_def u_def)
  with False have ne: "dropWhile is_ws (rev u) \<noteq> []" by simp
  from ne have lst: "\<not> is_ws (last (trim s))"
    unfolding t by (simp add: last_rev hd_dropWhile)
  have "suffix (dropWhile is_ws (rev u)) (rev u)" by (rule suffix_dropWhile)
  then have pre: "prefix (trim s) u" unfolding t by (simp add: suffix_to_prefix)
  then have "hd (trim s) = hd u" using False by (auto simp: prefix_def)
  moreover have "u \<noteq> []" using pre False by auto
  then have "\<not> is_ws (hd u)" unfolding u_def by (simp add: hd_dropWhile)
  ultimately show ?thesis using lst by (simp add: trimmed_def)
qed

lemma trim_idem [simp]: "trim (trim s) = trim s"
  by (simp add: trim_trimmed trimmed_trim)

lemma trim_Nil [simp]: "trim [] = []"
  by (simp add: trim_def)

lemma trim_space_Cons: "is_ws c \<Longrightarrow> trim (c # s) = trim s"
  by (simp add: trim_def)

lemma set_trim: "set (trim s) \<subseteq> set s"
  by (auto simp: trim_def dest!: set_dropWhileD)

subsection \<open>split, join, includes\<close>

text \<open>\<open>s.split(c)\<close> for a one-unit separator: the empty string splits into one empty part.\<close>

fun split_on :: "unit16 \<Rightarrow> jsstring \<Rightarrow> jsstring list" where
  "split_on c [] = [[]]"
| "split_on c (x # xs) =
     (if x = c then [] # split_on c xs
      else (case split_on c xs of [] \<Rightarrow> [[x]] | p # ps \<Rightarrow> (x # p) # ps))"

fun join_with :: "jsstring \<Rightarrow> jsstring list \<Rightarrow> jsstring" where
  "join_with sep [] = []"
| "join_with sep [p] = p"
| "join_with sep (p # q # ps) = p @ sep @ join_with sep (q # ps)"

fun str_includes :: "jsstring \<Rightarrow> jsstring \<Rightarrow> bool" where
  "str_includes [] n = (n = [])"
| "str_includes (c # cs) n = (take (length n) (c # cs) = n \<or> str_includes cs n)"

lemma split_on_ne [simp]: "split_on c s \<noteq> []"
  by (cases s) (auto split: list.splits)

lemma split_on_no_sep: "c \<notin> set s \<Longrightarrow> split_on c s = [s]"
  by (induction s) auto

lemma split_on_append_sep: "c \<notin> set p \<Longrightarrow> split_on c (p @ c # s) = p # split_on c s"
  by (induction p) auto

lemma concat_split_on: "concat (split_on c s) = filter (\<lambda>x. x \<noteq> c) s"
  by (induction s) (auto split: list.splits)

lemma split_on_parts: "p \<in> set (split_on c s) \<Longrightarrow> c \<notin> set p"
  by (induction s arbitrary: p) (auto split: if_splits list.splits)

lemma join_split_on: "join_with [c] (split_on c s) = s"
proof (induction s)
  case (Cons x xs)
  obtain p ps where sp: "split_on c xs = p # ps" by (cases "split_on c xs") auto
  show ?case using Cons sp by (cases ps) auto
qed simp

lemma includes_iff: "str_includes s n \<longleftrightarrow> (\<exists>a b. s = a @ n @ b)"
proof (induction s)
  case Nil
  then show ?case by auto
next
  case (Cons c cs)
  show ?case
  proof
    assume "str_includes (c # cs) n"
    then consider "take (length n) (c # cs) = n" | "str_includes cs n" by auto
    then show "\<exists>a b. c # cs = a @ n @ b"
    proof cases
      case 1
      then have "c # cs = [] @ n @ drop (length n) (c # cs)"
        by (metis append_Nil append_take_drop_id)
      then show ?thesis by blast
    next
      case 2
      then obtain a b where "cs = a @ n @ b" using Cons.IH by blast
      then have "c # cs = (c # a) @ n @ b" by simp
      then show ?thesis by blast
    qed
  next
    assume "\<exists>a b. c # cs = a @ n @ b"
    then obtain a b where ab: "c # cs = a @ n @ b" by blast
    show "str_includes (c # cs) n"
    proof (cases a)
      case Nil
      have "take (length n) (c # cs) = n" using ab Nil by (metis append_Nil append_eq_conv_conj)
      then show ?thesis by simp
    next
      case (Cons x xs)
      then have "cs = xs @ n @ b" using ab by simp
      then show ?thesis using Cons.IH by auto
    qed
  qed
qed

section \<open>Arrays\<close>

text \<open>\<open>xs.filter((_, i) => i !== k)\<close> and \<open>xs.map((x, i) => i === k ? f(x) : x)\<close>, the two
  index-wise updates the editors of the console use.\<close>

definition filter_index_not :: "nat \<Rightarrow> 'a list \<Rightarrow> 'a list" where
  "filter_index_not k xs = map snd (filter (\<lambda>(i, _). i \<noteq> k) (enumerate 0 xs))"

definition map_index :: "nat \<Rightarrow> ('a \<Rightarrow> 'a) \<Rightarrow> 'a list \<Rightarrow> 'a list" where
  "map_index k f xs = map (\<lambda>(i, x). if i = k then f x else x) (enumerate 0 xs)"

lemma length_map_index [simp]: "length (map_index k f xs) = length xs"
  by (simp add: map_index_def)

lemma nth_map_index: "i < length xs \<Longrightarrow> map_index k f xs ! i = (if i = k then f (xs ! i) else xs ! i)"
  by (simp add: map_index_def nth_enumerate_eq)

lemma map_index_list_update: "k < length xs \<Longrightarrow> map_index k f xs = xs[k := f (xs ! k)]"
  by (auto intro: nth_equalityI simp: nth_map_index nth_list_update)

lemma map_index_out: "length xs \<le> k \<Longrightarrow> map_index k f xs = xs"
  by (auto intro: nth_equalityI simp: nth_map_index)

lemma filter_enumerate_from:
  "map snd (filter (\<lambda>(i, _). i \<noteq> n + k) (enumerate n xs)) = take k xs @ drop (Suc k) xs"
proof (induction xs arbitrary: n k)
  case (Cons x xs)
  show ?case
  proof (cases k)
    case 0
    have "filter (\<lambda>(i, _). i \<noteq> n) (enumerate (Suc n) xs) = enumerate (Suc n) xs"
      by (rule filter_True) (auto simp: in_set_enumerate_eq)
    then show ?thesis using 0 by simp
  next
    case (Suc j)
    then show ?thesis using Cons.IH [of "Suc n" j] by simp
  qed
qed simp

lemma filter_index_not_eq: "filter_index_not k xs = take k xs @ drop (Suc k) xs"
  using filter_enumerate_from [of 0 k xs] by (simp add: filter_index_not_def)

lemma length_filter_index_not: "k < length xs \<Longrightarrow> length (filter_index_not k xs) = length xs - 1"
  by (simp add: filter_index_not_eq)

lemma filter_index_not_snoc [simp]: "filter_index_not (length xs) (xs @ [x]) = xs"
  by (simp add: filter_index_not_eq)

section \<open>Nullish and truthiness operators\<close>

text \<open>\<open>a ?? b\<close> on a possibly undefined value; \<open>s || b\<close> on a string; \<open>o.s || b\<close> on an
  optional string property.\<close>

definition nullish :: "'a option \<Rightarrow> 'a \<Rightarrow> 'a" where
  "nullish a b = (case a of None \<Rightarrow> b | Some x \<Rightarrow> x)"

definition str_or :: "jsstring \<Rightarrow> jsstring \<Rightarrow> jsstring" where
  "str_or s b = (if s = [] then b else s)"

definition truthy_str :: "jsstring option \<Rightarrow> bool" where
  "truthy_str s \<longleftrightarrow> s \<noteq> None \<and> s \<noteq> Some []"

definition or_undefined :: "jsstring \<Rightarrow> jsstring option" where
  "or_undefined s = (if s = [] then None else Some s)"

lemma nullish_simps [simp]: "nullish None b = b" "nullish (Some x) b = x"
  by (simp_all add: nullish_def)

lemma truthy_str_simps [simp]:
  "truthy_str None = False" "truthy_str (Some s) = (s \<noteq> [])"
  by (auto simp: truthy_str_def)

lemma nullish_or_undefined [simp]: "nullish (or_undefined s) [] = s"
  by (simp add: or_undefined_def)

lemmas js_prims = js_def str_or_def or_undefined_def
declare js_prims [js_simps]

end
