(* ===== verification/JsNumber.thy ===== *)
theory JsNumber
  imports Prelude "HOL-Library.Log_Nat" Complex_Main
begin

text \<open>
  JavaScript numbers. A Number is NaN, an infinity or a finite binary64 value; a finite value
  is its exact rational, and every arithmetic result is rounded to the nearest binary64 value,
  ties to even (\<open>fl64\<close>), so that the percentages, deltas and prices of the console are
  computed as the engine computes them. The sign of zero is not kept: no operation modelled
  here divides by a zero that the code has not excluded, and a zero prints as 0 either way.
\<close>

datatype jsnum = NaN | PInf | NInf | Fin rat

section \<open>Rounding to binary64\<close>

definition rnd_even :: "rat \<Rightarrow> int" where
  "rnd_even y = (let f = \<lfloor>y\<rfloor>; d = y - of_int f
     in if d < 1 / 2 then f else if 1 / 2 < d then f + 1 else if even f then f else f + 1)"

definition pow2 :: "int \<Rightarrow> rat" where
  "pow2 e = (if 0 \<le> e then 2 ^ nat e else 1 / 2 ^ nat (- e))"

definition ilog2 :: "rat \<Rightarrow> int" where
  "ilog2 x = (let (p, q) = quotient_of x; e = bitlen p - bitlen q
     in if pow2 e \<le> x then e else e - 1)"

definition ulp_exp :: "rat \<Rightarrow> int" where
  "ulp_exp x = max (ilog2 \<bar>x\<bar>) (- 1022)"

definition fl_raw :: "rat \<Rightarrow> rat" where
  "fl_raw x = (if x = 0 then 0
     else let u = pow2 (ulp_exp x - 52) in of_int (rnd_even (x / u)) * u)"

definition fl64 :: "rat \<Rightarrow> jsnum" where
  "fl64 x = (let r = fl_raw x in
     if pow2 1024 \<le> r then PInf else if r \<le> - pow2 1024 then NInf else Fin r)"

definition is_double :: "rat \<Rightarrow> bool" where
  "is_double x \<longleftrightarrow> fl_raw x = x \<and> \<bar>x\<bar> < pow2 1024"

subsection \<open>Powers of two and the binary logarithm\<close>

lemma pow2_powi: "pow2 e = 2 powi e"
  by (simp add: pow2_def power_int_def inverse_eq_divide power_one_over)

lemma pow2_pos [simp]: "0 < pow2 e"
  by (simp add: pow2_def)

lemma pow2_nonneg [simp]: "0 \<le> pow2 e"
  by (rule less_imp_le) simp

lemma pow2_neq0 [simp]: "pow2 e \<noteq> 0"
  by (metis pow2_pos less_irrefl)

lemma pow2_add: "pow2 (a + b) = pow2 a * pow2 b"
  by (simp add: pow2_powi power_int_add)

lemma pow2_diff: "pow2 (a - b) = pow2 a / pow2 b"
  by (simp add: pow2_powi power_int_diff)

lemma pow2_mono: "a \<le> b \<Longrightarrow> pow2 a \<le> pow2 b"
  by (simp add: pow2_powi power_int_increasing)

lemma pow2_strict_mono: "a < b \<Longrightarrow> pow2 a < pow2 b"
  by (simp add: pow2_powi power_int_strict_increasing)

lemma pow2_less_iff: "pow2 a < pow2 b \<longleftrightarrow> a < b"
  by (meson linorder_not_less pow2_mono pow2_strict_mono)

lemma pow2_le_iff: "pow2 a \<le> pow2 b \<longleftrightarrow> a \<le> b"
  by (meson linorder_not_less pow2_mono pow2_strict_mono)

lemma pow2_of_nat: "pow2 (int n) = of_int (2 ^ n)"
  by (simp add: pow2_def)

lemma pow2_0 [simp]: "pow2 0 = 1"
  by (simp add: pow2_def)

lemma pow2_1 [simp]: "pow2 1 = 2"
  by (simp add: pow2_def)

lemma bitlen_pow2_bounds:
  assumes "0 < p"
  shows "pow2 (bitlen p - 1) \<le> of_int p" and "of_int p < pow2 (bitlen p)"
proof -
  have b: "2 ^ nat (bitlen p - 1) \<le> p \<and> p < 2 ^ nat (bitlen p)"
    using bitlen_bounds [OF assms] .
  have ge: "1 \<le> bitlen p" using assms by (simp add: bitlen_ge_iff_power)
  have "pow2 (bitlen p - 1) = of_int (2 ^ nat (bitlen p - 1))" using ge by (simp add: pow2_def)
  also have "\<dots> \<le> of_int p" using b by (simp only: of_int_le_iff)
  finally show "pow2 (bitlen p - 1) \<le> of_int p" .
  have "(of_int p :: rat) < of_int (2 ^ nat (bitlen p))" using b by (simp only: of_int_less_iff)
  also have "\<dots> = pow2 (bitlen p)" using ge by (simp add: pow2_def)
  finally show "of_int p < pow2 (bitlen p)" .
qed

lemma ilog2_bounds:
  assumes "0 < x"
  shows "pow2 (ilog2 x) \<le> x" and "x < pow2 (ilog2 x + 1)"
proof -
  obtain p q where pq: "quotient_of x = (p, q)" by (cases "quotient_of x")
  have q0: "0 < q" using quotient_of_denom_pos [OF pq] .
  have x: "x = of_int p / of_int q" using quotient_of_div [OF pq] .
  have p0: "0 < p" using assms q0 unfolding x by (simp add: zero_less_divide_iff)
  let ?e = "bitlen p - bitlen q"
  have up: "x < pow2 (?e + 1)"
  proof -
    have "of_int p < pow2 (bitlen p)" by (rule bitlen_pow2_bounds(2) [OF p0])
    moreover have "pow2 (bitlen q - 1) \<le> of_int q" by (rule bitlen_pow2_bounds(1) [OF q0])
    ultimately have "x < pow2 (bitlen p) / pow2 (bitlen q - 1)"
      unfolding x using p0 q0 by (intro frac_less) simp_all
    then show ?thesis by (simp add: pow2_diff [symmetric] algebra_simps)
  qed
  have lo: "pow2 (?e - 1) \<le> x"
  proof -
    have "pow2 (bitlen p - 1) / pow2 (bitlen q) \<le> x"
      unfolding x using bitlen_pow2_bounds [OF p0] bitlen_pow2_bounds [OF q0] q0 p0
      by (intro frac_le) simp_all
    then show ?thesis by (simp add: pow2_diff [symmetric] algebra_simps)
  qed
  have "pow2 (ilog2 x) \<le> x \<and> x < pow2 (ilog2 x + 1)"
    using up lo by (auto simp: ilog2_def pq not_le Let_def)
  then show "pow2 (ilog2 x) \<le> x" and "x < pow2 (ilog2 x + 1)" by simp_all
qed

lemma ilog2_unique: "pow2 e \<le> x \<Longrightarrow> x < pow2 (e + 1) \<Longrightarrow> ilog2 x = e"
proof -
  assume a: "pow2 e \<le> x" "x < pow2 (e + 1)"
  then have "0 < x" using pow2_pos [of e] by linarith
  note b = ilog2_bounds [OF this]
  from a(1) b(2) have "pow2 e < pow2 (ilog2 x + 1)" by (rule le_less_trans)
  moreover from b(1) a(2) have "pow2 (ilog2 x) < pow2 (e + 1)" by (rule le_less_trans)
  ultimately show ?thesis by (simp add: pow2_less_iff)
qed

lemma ilog2_mono: "0 < x \<Longrightarrow> x \<le> y \<Longrightarrow> ilog2 x \<le> ilog2 y"
proof -
  assume a: "0 < x" "x \<le> y"
  have "pow2 (ilog2 x) \<le> y" using ilog2_bounds(1) [OF a(1)] a(2) by (rule order_trans)
  also have "y < pow2 (ilog2 y + 1)" using a by (intro ilog2_bounds(2)) simp
  finally show ?thesis by (simp add: pow2_less_iff)
qed

subsection \<open>Rounding is exact on integers, monotone and odd\<close>

lemma rnd_even_of_int [simp]: "rnd_even (of_int n) = n"
  by (simp add: rnd_even_def)

lemma rnd_even_bounds: "\<lfloor>y\<rfloor> \<le> rnd_even y" "rnd_even y \<le> \<lfloor>y\<rfloor> + 1"
  by (auto simp: rnd_even_def Let_def)

lemma rnd_even_mono: "y \<le> z \<Longrightarrow> rnd_even y \<le> rnd_even z"
proof (cases "\<lfloor>y\<rfloor> = \<lfloor>z\<rfloor>")
  case True
  assume "y \<le> z"
  with True show ?thesis by (auto simp: rnd_even_def Let_def)
next
  case False
  assume "y \<le> z"
  then have "\<lfloor>y\<rfloor> \<le> \<lfloor>z\<rfloor>" by (rule floor_mono)
  with False have "\<lfloor>y\<rfloor> + 1 \<le> \<lfloor>z\<rfloor>" by simp
  then show ?thesis using rnd_even_bounds(2) [of y] rnd_even_bounds(1) [of z] by linarith
qed

lemma rnd_even_le_int: "y \<le> of_int n \<Longrightarrow> rnd_even y \<le> n"
  using rnd_even_mono [of y "of_int n"] by simp

lemma rnd_even_ge_int: "of_int n \<le> y \<Longrightarrow> n \<le> rnd_even y"
  using rnd_even_mono [of "of_int n" y] by simp

lemma rnd_even_minus: "rnd_even (- y) = - rnd_even y"
proof (cases "y = of_int \<lfloor>y\<rfloor>")
  case True
  then obtain n where "y = of_int n" by blast
  then show ?thesis by (metis of_int_minus rnd_even_of_int)
next
  case False
  define f where "f = \<lfloor>y\<rfloor>"
  have f: "of_int f < y" "y < of_int f + 1"
    using False floor_correct [of y] unfolding f_def by linarith+
  have m: "\<lfloor>- y\<rfloor> = - f - 1" by (rule floor_unique) (use f in simp_all)
  show ?thesis unfolding rnd_even_def m Let_def
    using f by (auto simp: f_def [symmetric])
qed

lemma ulp_exp_minus [simp]: "ulp_exp (- x) = ulp_exp x"
  by (simp add: ulp_exp_def)

lemma fl_raw_0 [simp]: "fl_raw 0 = 0"
  by (simp add: fl_raw_def)

lemma fl_raw_minus: "fl_raw (- x) = - fl_raw x"
  by (simp add: fl_raw_def Let_def rnd_even_minus)

lemma fl_raw_nonneg: "0 \<le> x \<Longrightarrow> 0 \<le> fl_raw x"
proof -
  assume "0 \<le> x"
  then have "0 \<le> x / pow2 (ulp_exp x - 52)" by simp
  then have "0 \<le> rnd_even (x / pow2 (ulp_exp x - 52))"
    using rnd_even_ge_int [of 0] by simp
  then show ?thesis by (simp add: fl_raw_def Let_def)
qed

lemma fl_raw_le_pow2:
  assumes "0 < x" and "x \<le> pow2 k" and "ulp_exp x - 52 \<le> k"
  shows "fl_raw x \<le> pow2 k"
proof -
  let ?e = "ulp_exp x - 52"
  have k: "pow2 k = of_int (2 ^ nat (k - ?e)) * pow2 ?e"
    using assms(3) pow2_add [of "k - ?e" ?e] by (simp add: pow2_def [of "k - ?e"])
  have "x / pow2 ?e \<le> of_int (2 ^ nat (k - ?e))"
    using assms(2) unfolding k by (simp add: divide_le_eq)
  then have "rnd_even (x / pow2 ?e) \<le> 2 ^ nat (k - ?e)" by (rule rnd_even_le_int)
  then have "of_int (rnd_even (x / pow2 ?e)) * pow2 ?e \<le> of_int (2 ^ nat (k - ?e)) * pow2 ?e"
    by (intro mult_right_mono) (simp_all only: of_int_le_iff pow2_nonneg)
  then show ?thesis using assms(1) unfolding k by (simp add: fl_raw_def Let_def)
qed

lemma fl_raw_ge_pow2:
  assumes "0 < x" and "pow2 k \<le> x" and "ulp_exp x - 52 \<le> k"
  shows "pow2 k \<le> fl_raw x"
proof -
  let ?e = "ulp_exp x - 52"
  have k: "pow2 k = of_int (2 ^ nat (k - ?e)) * pow2 ?e"
    using assms(3) pow2_add [of "k - ?e" ?e] by (simp add: pow2_def [of "k - ?e"])
  have "of_int (2 ^ nat (k - ?e)) \<le> x / pow2 ?e"
    using assms(2) unfolding k by (simp add: le_divide_eq)
  then have "2 ^ nat (k - ?e) \<le> rnd_even (x / pow2 ?e)" by (rule rnd_even_ge_int)
  then have "of_int (2 ^ nat (k - ?e)) * pow2 ?e \<le> of_int (rnd_even (x / pow2 ?e)) * pow2 ?e"
    by (intro mult_right_mono) (simp_all only: of_int_le_iff pow2_nonneg)
  then show ?thesis using assms(1) unfolding k by (simp add: fl_raw_def Let_def)
qed

lemma fl_raw_mono_pos:
  assumes "0 < x" and "x \<le> y"
  shows "fl_raw x \<le> fl_raw y"
proof -
  have y0: "0 < y" using assms by simp
  have le: "ulp_exp x \<le> ulp_exp y"
    using ilog2_mono [OF assms] assms by (auto simp: ulp_exp_def)
  show ?thesis
  proof (cases "ulp_exp x = ulp_exp y")
    case True
    have "x / pow2 (ulp_exp y - 52) \<le> y / pow2 (ulp_exp y - 52)"
      using assms by (simp add: divide_right_mono)
    then have "rnd_even (x / pow2 (ulp_exp y - 52)) \<le> rnd_even (y / pow2 (ulp_exp y - 52))"
      by (rule rnd_even_mono)
    then show ?thesis using True assms y0
      by (simp add: fl_raw_def Let_def mult_right_mono)
  next
    case False
    with le have lt: "ulp_exp x + 1 \<le> ulp_exp y" by simp
    then have ey: "ulp_exp y = ilog2 y" using y0 by (auto simp: ulp_exp_def)
    have "x < pow2 (ilog2 x + 1)" using ilog2_bounds(2) assms(1) .
    also have "\<dots> \<le> pow2 (ulp_exp x + 1)" using assms(1) by (intro pow2_mono) (simp add: ulp_exp_def)
    finally have "fl_raw x \<le> pow2 (ulp_exp x + 1)"
      using assms(1) by (intro fl_raw_le_pow2) simp_all
    also have "\<dots> \<le> pow2 (ulp_exp y)" using lt by (rule pow2_mono)
    also have "\<dots> \<le> fl_raw y"
      using y0 ilog2_bounds(1) [OF y0] ey by (intro fl_raw_ge_pow2) simp_all
    finally show ?thesis .
  qed
qed

lemma fl_raw_mono: "x \<le> y \<Longrightarrow> fl_raw x \<le> fl_raw y"
proof -
  assume le: "x \<le> y"
  consider "0 < x" | "x \<le> 0" "0 \<le> y" | "y < 0" by linarith
  then show ?thesis
  proof cases
    case 1
    then show ?thesis using le by (rule fl_raw_mono_pos)
  next
    case 2
    then have "0 \<le> fl_raw y" and "0 \<le> fl_raw (- x)" by (simp_all add: fl_raw_nonneg)
    then show ?thesis by (simp add: fl_raw_minus)
  next
    case 3
    then have "fl_raw (- y) \<le> fl_raw (- x)" using le by (intro fl_raw_mono_pos) simp_all
    then show ?thesis by (simp add: fl_raw_minus)
  qed
qed

lemma fl_raw_mult_ulp:
  assumes "0 < x" and "x = of_int n * pow2 (ulp_exp x - 52)"
  shows "fl_raw x = x"
proof -
  let ?u = "pow2 (ulp_exp x - 52)"
  have "x / ?u = of_int n" using assms(2) by (metis nonzero_mult_div_cancel_right pow2_neq0)
  then have "fl_raw x = of_int n * ?u" using assms(1) by (simp add: fl_raw_def Let_def)
  then show ?thesis using assms(2) by simp
qed

lemma fl_raw_pos_int:
  assumes "0 < n" and "n \<le> 2 ^ 53"
  shows "fl_raw (of_int n) = of_int n"
proof -
  let ?x = "of_int n :: rat" and ?e = "ilog2 (of_int n)"
  have x0: "0 < ?x" using assms by simp
  note b = ilog2_bounds [OF x0]
  have "pow2 0 \<le> ?x" using assms by simp
  then have e0: "0 \<le> ?e" using b(2) by (metis le_less_trans pow2_less_iff zle_add1_eq_le add.commute)
  have "?x \<le> of_int (2 ^ 53)" using assms(2) by (simp only: of_int_le_iff)
  then have xle: "?x \<le> pow2 53" by (simp add: pow2_def)
  then have e53: "?e \<le> 53" using b(1) by (metis order_trans pow2_le_iff)
  have ue: "ulp_exp ?x = ?e" using e0 x0 by (simp add: ulp_exp_def)
  show ?thesis
  proof (cases "?e \<le> 52")
    case True
    have "?x = of_int (n * 2 ^ nat (52 - ?e)) * pow2 (?e - 52)"
      using True pow2_add [of "52 - ?e" "?e - 52"] by (simp add: pow2_def [of "52 - ?e"])
    then show ?thesis
      using fl_raw_mult_ulp [OF x0, of "n * 2 ^ nat (52 - ?e)"] unfolding ue by blast
  next
    case False
    then have "?e = 53" using e53 by simp
    then have "?x = pow2 53" using b(1) xle by simp
    then have "?x = of_int (2 ^ 52) * pow2 (?e - 52)" using \<open>?e = 53\<close> by (simp add: pow2_def)
    then show ?thesis using fl_raw_mult_ulp [OF x0, of "2 ^ 52"] unfolding ue by blast
  qed
qed

lemma fl_raw_int: "\<bar>n\<bar> \<le> 2 ^ 53 \<Longrightarrow> fl_raw (of_int n) = of_int n"
  using fl_raw_pos_int [of n] fl_raw_pos_int [of "- n"] fl_raw_minus [of "of_int n"]
  by (cases "n = 0"; cases "0 < n") auto

lemma fl_raw_of_nat: "n \<le> 2 ^ 53 \<Longrightarrow> fl_raw (of_nat n) = of_nat n"
  using fl_raw_int [of "int n"] by simp

lemma fl_raw_two53 [simp]: "fl_raw 9007199254740992 = 9007199254740992"
  using fl_raw_int [of 9007199254740992] by simp

lemma fl_raw_lt_overflow: "\<bar>x\<bar> \<le> 9007199254740992 \<Longrightarrow> \<bar>fl_raw x\<bar> < pow2 1024"
proof -
  assume "\<bar>x\<bar> \<le> 9007199254740992"
  then have "x \<le> 9007199254740992" and "- 9007199254740992 \<le> x" by (simp_all add: abs_le_iff)
  from this [THEN fl_raw_mono] have "fl_raw x \<le> 9007199254740992 \<and> - 9007199254740992 \<le> fl_raw x"
    unfolding fl_raw_minus by simp
  then have "\<bar>fl_raw x\<bar> \<le> 9007199254740992" by linarith
  also have "(9007199254740992 :: rat) < pow2 1024"
    using pow2_strict_mono [of 53 1024] pow2_of_nat [of 53] by simp
  finally show ?thesis .
qed

lemma fl64_small: "\<bar>x\<bar> \<le> 9007199254740992 \<Longrightarrow> fl64 x = Fin (fl_raw x)"
  using fl_raw_lt_overflow [of x] by (simp add: fl64_def Let_def abs_less_iff)

lemma fl64_int: "\<bar>n\<bar> \<le> 2 ^ 53 \<Longrightarrow> fl64 (of_int n) = Fin (of_int n)"
proof -
  assume n: "\<bar>n\<bar> \<le> 2 ^ 53"
  then have "(of_int \<bar>n\<bar> :: rat) \<le> of_int 9007199254740992" by (simp only: of_int_le_iff) simp
  then have "\<bar>of_int n :: rat\<bar> \<le> 9007199254740992" by simp
  then show ?thesis by (simp only: fl64_small fl_raw_int [OF n])
qed

lemma fl64_double: "is_double x \<Longrightarrow> fl64 x = Fin x"
  by (simp add: is_double_def fl64_def Let_def abs_less_iff)

subsection \<open>Neighbouring doubles\<close>

text \<open>A double below a positive double is smaller by a factor of at least 1 - 2^-53; the
  quotient of the two therefore rounds below 1.\<close>

lemma double_grid:
  assumes "fl_raw x = x" and "x \<noteq> 0"
  shows "\<exists>n. x = of_int n * pow2 (ulp_exp x - 52)"
  using assms by (metis fl_raw_def)

lemma double_pred:
  assumes s: "fl_raw s = s" and h: "fl_raw h = h" and h0: "0 < h" and lt: "s < h"
  shows "s \<le> h * (1 - pow2 (- 53))"
proof (cases "0 < s")
  case False
  have "pow2 (- 53) \<le> pow2 0" by (rule pow2_mono) simp
  then have "0 \<le> h * (1 - pow2 (- 53))" using h0 by simp
  then show ?thesis using False by linarith
next
  case True
  obtain S where S: "s = of_int S * pow2 (ulp_exp s - 52)" using double_grid [OF s] True by auto
  obtain H where H: "h = of_int H * pow2 (ulp_exp h - 52)" using double_grid [OF h] h0 by auto
  have le: "ulp_exp s \<le> ulp_exp h" using ilog2_mono [OF True, of h] lt True h0
    by (auto simp: ulp_exp_def)
  have p53: "pow2 (k + 1) * pow2 (- 53) = pow2 (k - 52)" for k
    by (simp add: pow2_add [symmetric])
  show ?thesis
  proof (cases "ulp_exp s = ulp_exp h")
    case True
    let ?u = "pow2 (ulp_exp h - 52)"
    have S': "s = of_int S * ?u" using S True by metis
    have "of_int S * ?u < of_int H * ?u" using lt S' H by metis
    then have "S < H" by (simp add: mult_less_cancel_right)
    then have "(of_int S :: rat) \<le> of_int H - 1" by linarith
    then have "s \<le> (of_int H - 1) * ?u" unfolding S' by (intro mult_right_mono) simp_all
    also have "\<dots> = of_int H * ?u - ?u" by (simp add: algebra_simps)
    also have "\<dots> = h - ?u" using H by metis
    finally have a: "s \<le> h - ?u" .
    have "h < pow2 (ilog2 h + 1)" using ilog2_bounds(2) h0 .
    also have "\<dots> \<le> pow2 (ulp_exp h + 1)" using h0 by (intro pow2_mono) (simp add: ulp_exp_def)
    finally have "h * pow2 (- 53) \<le> pow2 (ulp_exp h + 1) * pow2 (- 53)"
      by (intro mult_right_mono) simp_all
    then have "h * pow2 (- 53) \<le> ?u" by (simp only: p53)
    then show ?thesis using a by (simp add: algebra_simps)
  next
    case False
    with le have lt': "ulp_exp s + 1 \<le> ulp_exp h" by simp
    let ?us = "pow2 (ulp_exp s - 52)"
    have "s < pow2 (ilog2 s + 1)" using ilog2_bounds(2) \<open>0 < s\<close> .
    also have "\<dots> \<le> pow2 (ulp_exp s + 1)" using \<open>0 < s\<close> by (intro pow2_mono) (simp add: ulp_exp_def)
    also have "\<dots> = of_int (2 ^ 53) * ?us" using pow2_add [of 53 "ulp_exp s - 52"] pow2_of_nat [of 53]
      by (simp add: algebra_simps)
    finally have "of_int S * ?us < of_int (2 ^ 53) * ?us" using S by simp
    then have "S < 2 ^ 53" by (simp only: mult_less_cancel_right of_int_less_iff) simp
    then have "(of_int S :: rat) \<le> of_int (2 ^ 53) - 1" by linarith
    then have "s \<le> (of_int (2 ^ 53) - 1) * ?us" using S by (metis mult_right_mono pow2_nonneg)
    also have "\<dots> = pow2 (ulp_exp s + 1) * (1 - pow2 (- 53))"
      using pow2_add [of 53 "ulp_exp s - 52"] pow2_of_nat [of 53] p53 [of "ulp_exp s"]
      by (simp add: algebra_simps)
    also have "\<dots> \<le> h * (1 - pow2 (- 53))"
    proof (rule mult_right_mono)
      have "ulp_exp h = ilog2 h" using lt' h0 by (auto simp: ulp_exp_def)
      then have "pow2 (ulp_exp h) \<le> h" using ilog2_bounds(1) [OF h0] by simp
      then show "pow2 (ulp_exp s + 1) \<le> h" using pow2_mono [OF lt'] by linarith
      show "0 \<le> 1 - pow2 (- 53)" using pow2_mono [of "- 53" 0] by simp
    qed
    finally show ?thesis .
  qed
qed

text \<open>Rounding a rounded value changes nothing: every finite result is a double. The difference of
  two different doubles does not round to zero.\<close>

lemma fl_raw_idem_pos:
  assumes x: "0 < x"
  shows "fl_raw (fl_raw x) = fl_raw x"
proof -
  define e where "e = ulp_exp x"
  define n where "n = rnd_even (x / pow2 (e - 52))"
  have r: "fl_raw x = of_int n * pow2 (e - 52)" using x by (simp add: fl_raw_def Let_def e_def n_def)
  have "ilog2 x \<le> e" using x by (simp add: e_def ulp_exp_def)
  then have "x < pow2 (e + 1)" using ilog2_bounds(2) [OF x] pow2_mono [of "ilog2 x + 1" "e + 1"] by linarith
  also have p53: "pow2 (e + 1) = of_int (2 ^ 53) * pow2 (e - 52)"
    using pow2_add [of 53 "e - 52"] pow2_of_nat [of 53] by (simp add: algebra_simps)
  finally have "x / pow2 (e - 52) \<le> of_int (2 ^ 53)" by (simp add: divide_le_eq)
  then have n53: "n \<le> 2 ^ 53" unfolding n_def by (rule rnd_even_le_int)
  consider "fl_raw x = 0" | "0 < fl_raw x" "n = 2 ^ 53" | "0 < fl_raw x" "n < 2 ^ 53"
    using fl_raw_nonneg [of x] x n53 by linarith
  then show ?thesis
  proof cases
    case 1
    then show ?thesis by simp
  next
    case 2
    have e1: "- 1022 \<le> e" by (simp add: e_def ulp_exp_def)
    have p: "fl_raw x = pow2 (e + 1)" using 2(2) r p53 by simp
    have "ilog2 (pow2 (e + 1)) = e + 1" by (rule ilog2_unique) (simp_all add: pow2_strict_mono)
    then have u: "ulp_exp (fl_raw x) = e + 1" using e1 by (simp add: p ulp_exp_def)
    have "fl_raw x = of_int (2 ^ 52) * pow2 (e + 1 - 52)"
      using pow2_add [of 52 "e + 1 - 52"] pow2_of_nat [of 52] p by (simp add: add.commute [of e])
    then show ?thesis using fl_raw_mult_ulp [OF 2(1), of "2 ^ 52"] u by metis
  next
    case 3
    have "(of_int n :: rat) < of_int (2 ^ 53)" using 3(2) by (simp only: of_int_less_iff)
    then have "fl_raw x < pow2 (e + 1)" unfolding r p53 by simp
    then have le: "ilog2 (fl_raw x) \<le> e"
      using ilog2_bounds(1) [OF 3(1)] pow2_less_iff [of "ilog2 (fl_raw x)" "e + 1"] by linarith
    have "ulp_exp (fl_raw x) = e"
    proof (cases "e = - 1022")
      case True
      then show ?thesis using le 3(1) by (simp add: ulp_exp_def)
    next
      case False
      then have "e = ilog2 x" "- 1022 \<le> e" using x by (auto simp: e_def ulp_exp_def max_def)
      then have "pow2 e \<le> fl_raw x" using fl_raw_ge_pow2 [OF x, of e] ilog2_bounds(1) [OF x] by (simp add: e_def [symmetric])
      then have "ilog2 (fl_raw x) = e" using \<open>fl_raw x < pow2 (e + 1)\<close> by (rule ilog2_unique)
      then show ?thesis using \<open>- 1022 \<le> e\<close> 3(1) by (simp add: ulp_exp_def)
    qed
    then show ?thesis using fl_raw_mult_ulp [OF 3(1), of n] r by simp
  qed
qed

lemma fl_raw_idem [simp]: "fl_raw (fl_raw x) = fl_raw x"
  using fl_raw_idem_pos [of x] fl_raw_idem_pos [of "- x"] fl_raw_minus [of x] fl_raw_minus [of "fl_raw x"]
  by (cases "0 < x"; cases "x = 0") auto

lemma fl64_is_double: "fl64 x = Fin r \<Longrightarrow> is_double r"
  by (auto simp: fl64_def Let_def is_double_def split: if_splits)

lemma double_multiple:
  assumes "fl_raw x = x"
  shows "\<exists>k. x = of_int k * pow2 (- 1074)"
proof (cases "x = 0")
  case False
  obtain n where n: "x = of_int n * pow2 (ulp_exp x - 52)" using double_grid [OF assms False] by blast
  define j where "j = nat (ulp_exp x + 1022)"
  have "- 1022 \<le> ulp_exp x" by (simp add: ulp_exp_def)
  then have "pow2 (ulp_exp x - 52) = of_int (2 ^ j) * pow2 (- 1074)"
    using pow2_add [of "int j" "- 1074"] pow2_of_nat [of j] by (simp add: j_def)
  then have "x = of_int (n * 2 ^ j) * pow2 (- 1074)" using n by (metis mult.assoc of_int_mult)
  then show ?thesis by blast
qed (auto intro: exI [of _ 0])

lemma fl_raw_diff_pos:
  assumes "fl_raw x = x" "fl_raw y = y" "y < x"
  shows "0 < fl_raw (x - y)"
proof -
  obtain k l where k: "x = of_int k * pow2 (- 1074)" and l: "y = of_int l * pow2 (- 1074)"
    using double_multiple [OF assms(1)] double_multiple [OF assms(2)] by blast
  have "of_int l * pow2 (- 1074) < of_int k * pow2 (- 1074)" using assms(3) k l by simp
  then have "l < k" by (simp add: mult_less_cancel_right)
  then have "(1 :: rat) \<le> of_int (k - l)" by simp
  then have "1 * pow2 (- 1074) \<le> of_int (k - l) * pow2 (- 1074)" by (intro mult_right_mono) simp_all
  also have "\<dots> = x - y" by (simp add: k l algebra_simps)
  finally have le: "pow2 (- 1074) \<le> x - y" by simp
  have "ilog2 (pow2 (- 1074)) = - 1074" by (rule ilog2_unique) (simp_all add: pow2_strict_mono)
  then have "ulp_exp (pow2 (- 1074)) = - 1022" by (simp add: ulp_exp_def)
  then have "fl_raw (pow2 (- 1074)) = pow2 (- 1074)" using fl_raw_mult_ulp [of "pow2 (- 1074)" 1] by simp
  then show ?thesis using fl_raw_mono [OF le] pow2_pos [of "- 1074"] by linarith
qed

section \<open>Arithmetic, comparison, Math\<close>

fun is_finite :: "jsnum \<Rightarrow> bool" where
  "is_finite (Fin _) = True"
| "is_finite _ = False"

fun jneg :: "jsnum \<Rightarrow> jsnum" where
  "jneg NaN = NaN" | "jneg PInf = NInf" | "jneg NInf = PInf" | "jneg (Fin x) = Fin (- x)"

fun jadd :: "jsnum \<Rightarrow> jsnum \<Rightarrow> jsnum" where
  "jadd (Fin x) (Fin y) = fl64 (x + y)"
| "jadd NaN _ = NaN"
| "jadd _ NaN = NaN"
| "jadd PInf NInf = NaN"
| "jadd NInf PInf = NaN"
| "jadd PInf _ = PInf"
| "jadd _ PInf = PInf"
| "jadd NInf _ = NInf"
| "jadd _ NInf = NInf"

definition jsub :: "jsnum \<Rightarrow> jsnum \<Rightarrow> jsnum" where
  "jsub x y = jadd x (jneg y)"

definition inf_of_sign :: "bool \<Rightarrow> jsnum" where
  "inf_of_sign neg = (if neg then NInf else PInf)"

fun jneg_sign :: "jsnum \<Rightarrow> bool" where
  "jneg_sign (Fin x) = (x < 0)"
| "jneg_sign NInf = True"
| "jneg_sign _ = False"

fun jmul :: "jsnum \<Rightarrow> jsnum \<Rightarrow> jsnum" where
  "jmul (Fin x) (Fin y) = fl64 (x * y)"
| "jmul NaN _ = NaN"
| "jmul _ NaN = NaN"
| "jmul x y = (if x = Fin 0 \<or> y = Fin 0 then NaN else inf_of_sign (jneg_sign x \<noteq> jneg_sign y))"

fun jdiv :: "jsnum \<Rightarrow> jsnum \<Rightarrow> jsnum" where
  "jdiv (Fin x) (Fin y) =
     (if y = 0 then (if x = 0 then NaN else inf_of_sign (x < 0)) else fl64 (x / y))"
| "jdiv NaN _ = NaN"
| "jdiv _ NaN = NaN"
| "jdiv (Fin _) _ = Fin 0"
| "jdiv x (Fin y) = inf_of_sign (jneg_sign x \<noteq> (y < 0))"
| "jdiv _ _ = NaN"

fun jlt :: "jsnum \<Rightarrow> jsnum \<Rightarrow> bool" where
  "jlt (Fin x) (Fin y) = (x < y)"
| "jlt NaN _ = False"
| "jlt _ NaN = False"
| "jlt NInf y = (y \<noteq> NInf)"
| "jlt x PInf = (x \<noteq> PInf)"
| "jlt _ _ = False"

fun jle :: "jsnum \<Rightarrow> jsnum \<Rightarrow> bool" where
  "jle NaN _ = False"
| "jle _ NaN = False"
| "jle x y = (\<not> jlt y x)"

definition jmin :: "jsnum \<Rightarrow> jsnum \<Rightarrow> jsnum" where
  "jmin x y = (if x = NaN \<or> y = NaN then NaN else if jlt y x then y else x)"

definition jmax :: "jsnum \<Rightarrow> jsnum \<Rightarrow> jsnum" where
  "jmax x y = (if x = NaN \<or> y = NaN then NaN else if jlt x y then y else x)"

definition jlift :: "(rat \<Rightarrow> rat) \<Rightarrow> jsnum \<Rightarrow> jsnum" where
  "jlift f x = (case x of Fin r \<Rightarrow> Fin (f r) | _ \<Rightarrow> x)"

definition jround :: "jsnum \<Rightarrow> jsnum" where
  "jround = jlift (\<lambda>r. of_int \<lfloor>r + 1 / 2\<rfloor>)"

definition jfloor :: "jsnum \<Rightarrow> jsnum" where
  "jfloor = jlift (\<lambda>r. of_int \<lfloor>r\<rfloor>)"

definition jceil :: "jsnum \<Rightarrow> jsnum" where
  "jceil = jlift (\<lambda>r. of_int \<lceil>r\<rceil>)"

definition jtrunc :: "jsnum \<Rightarrow> jsnum" where
  "jtrunc = jlift (\<lambda>r. of_int (if r < 0 then \<lceil>r\<rceil> else \<lfloor>r\<rfloor>))"

fun jabs :: "jsnum \<Rightarrow> jsnum" where
  "jabs NaN = NaN" | "jabs (Fin x) = Fin \<bar>x\<bar>" | "jabs _ = PInf"

text \<open>Truthiness of a Number: NaN and 0 are falsy.\<close>

definition truthy_num :: "jsnum \<Rightarrow> bool" where
  "truthy_num x \<longleftrightarrow> x \<noteq> NaN \<and> x \<noteq> Fin 0"

lemma jle_Fin [simp]: "jle (Fin x) (Fin y) = (x \<le> y)"
  by (simp add: not_less)

lemma jle_fl64_mono: "x \<le> y \<Longrightarrow> jle (fl64 x) (fl64 y)"
  using fl_raw_mono [of x y] pow2_pos [of 1024] by (auto simp: fl64_def Let_def)

lemma jmin_le_left: "a \<noteq> NaN \<Longrightarrow> b \<noteq> NaN \<Longrightarrow> jle (jmin a b) a"
  by (cases a; cases b) (auto simp: jmin_def)

end
