(* ===== verification/NumText.thy ===== *)
theory NumText
  imports JsNumber
begin

text \<open>
  Numbers as text: Number-to-String conversion (the shortest decimal that reads back),
  toFixed, and the readers Number(s), parseFloat(s) and parseInt(s, 10), over UTF-16 strings.
  The integer cases carry the round-trip lemmas the formatting component uses.
\<close>

section \<open>Decimal digits\<close>

definition digit :: "int \<Rightarrow> unit16" where
  "digit d = word_of_int (48 + d)"

definition is_digit :: "unit16 \<Rightarrow> bool" where
  "is_digit c \<longleftrightarrow> 48 \<le> c \<and> c \<le> 57"

definition digit_val :: "unit16 \<Rightarrow> int" where
  "digit_val c = uint c - 48"

function digits :: "int \<Rightarrow> jsstring" where
  "digits n = (if n < 10 then [digit n] else digits (n div 10) @ [digit (n mod 10)])"
  by pat_completeness auto
termination by (relation "measure nat") auto

declare digits.simps [simp del]

definition num_of_digits :: "jsstring \<Rightarrow> int" where
  "num_of_digits s = foldl (\<lambda>a c. 10 * a + digit_val c) 0 s"

definition int_str :: "int \<Rightarrow> jsstring" where
  "int_str i = (if i < 0 then js ''-'' @ digits (- i) else digits i)"

lemma uint_digit: "0 \<le> d \<Longrightarrow> d < 10 \<Longrightarrow> uint (digit d) = 48 + d"
  unfolding digit_def uint_word_of_int by simp

lemma is_digit_uint: "is_digit c \<longleftrightarrow> 48 \<le> uint c \<and> uint c \<le> 57"
  by (simp add: is_digit_def word_le_def)

lemma is_digit_digit [simp]: "0 \<le> d \<Longrightarrow> d < 10 \<Longrightarrow> is_digit (digit d)"
  by (simp add: is_digit_uint uint_digit)

lemma digit_val_digit [simp]: "0 \<le> d \<Longrightarrow> d < 10 \<Longrightarrow> digit_val (digit d) = d"
  by (simp add: digit_val_def uint_digit)

lemma digit_val_bounds: "is_digit c \<Longrightarrow> 0 \<le> digit_val c \<and> digit_val c < 10"
  by (auto simp: is_digit_uint digit_val_def)

lemma digits_ne [simp]: "digits n \<noteq> []"
  by (subst digits.simps) simp

lemma digits_all: "0 \<le> n \<Longrightarrow> \<forall>c \<in> set (digits n). is_digit c"
proof (induction n rule: digits.induct)
  case (1 n)
  then show ?case by (subst digits.simps) (auto simp: pos_imp_zdiv_nonneg_iff)
qed

lemma digits_is_digit: "0 \<le> n \<Longrightarrow> c \<in> set (digits n) \<Longrightarrow> is_digit c"
  using digits_all by blast

lemma num_of_digits_Nil [simp]: "num_of_digits [] = 0"
  by (simp add: num_of_digits_def)

lemma num_of_digits_snoc [simp]: "num_of_digits (s @ [c]) = 10 * num_of_digits s + digit_val c"
  by (simp add: num_of_digits_def)

lemma num_of_digits_single [simp]: "num_of_digits [c] = digit_val c"
  using num_of_digits_snoc [of "[]" c] by simp

lemma num_of_digits_digits [simp]: "0 \<le> n \<Longrightarrow> num_of_digits (digits n) = n"
proof (induction n rule: digits.induct)
  case (1 n)
  then show ?case by (subst digits.simps) (auto simp: pos_imp_zdiv_nonneg_iff)
qed

lemma digits_inject: "0 \<le> m \<Longrightarrow> 0 \<le> n \<Longrightarrow> digits m = digits n \<longleftrightarrow> m = n"
  by (metis num_of_digits_digits)

lemma takeWhile_digits [simp]: "0 \<le> n \<Longrightarrow> takeWhile is_digit (digits n) = digits n"
  by (simp add: takeWhile_eq_all_conv digits_all)

lemma dropWhile_digits [simp]: "0 \<le> n \<Longrightarrow> dropWhile is_digit (digits n) = []"
  by (simp add: dropWhile_eq_Nil_conv digits_all)

section \<open>Reading numbers\<close>

definition pow10 :: "int \<Rightarrow> rat" where
  "pow10 e = (if 0 \<le> e then 10 ^ nat e else 1 / 10 ^ nat (- e))"

definition drop_sign :: "jsstring \<Rightarrow> bool \<times> jsstring" where
  "drop_sign s = (case s of [] \<Rightarrow> (False, [])
     | c # cs \<Rightarrow> if c = 45 then (True, cs) else if c = 43 then (False, cs) else (False, s))"

text \<open>The optional exponent part: without digits after the marker nothing is consumed.\<close>

definition scan_exp :: "jsstring \<Rightarrow> int \<times> jsstring" where
  "scan_exp s = (case s of [] \<Rightarrow> (0, [])
     | c # cs \<Rightarrow>
        if c = 101 \<or> c = 69 then
          (let (neg, r) = drop_sign cs; ds = takeWhile is_digit r in
           if ds = [] then (0, s)
           else ((if neg then - num_of_digits ds else num_of_digits ds),
                 dropWhile is_digit r))
        else (0, s))"

text \<open>An unsigned decimal literal at the front of a string, with what follows it.\<close>

definition scan_dec :: "jsstring \<Rightarrow> (rat \<times> jsstring) option" where
  "scan_dec s =
    (let ip = takeWhile is_digit s; r = dropWhile is_digit s;
         (fp, r') = (case r of c # cs \<Rightarrow> if c = 46 then (takeWhile is_digit cs, dropWhile is_digit cs)
                                        else ([], r) | [] \<Rightarrow> ([], []));
         m = of_int (num_of_digits (ip @ fp)) / 10 ^ length fp;
         (e, r'') = scan_exp r'
     in if ip = [] \<and> fp = [] then None else Some (m * pow10 e, r''))"

definition signed :: "bool \<Rightarrow> jsnum \<Rightarrow> jsnum" where
  "signed neg x = (if neg then jneg x else x)"

definition radix_val :: "int \<Rightarrow> unit16 \<Rightarrow> int option" where
  "radix_val r c =
    (let n = uint c;
         v = (if 48 \<le> n \<and> n \<le> 57 then n - 48 else if 97 \<le> n \<and> n \<le> 102 then n - 87
              else if 65 \<le> n \<and> n \<le> 70 then n - 55 else r)
     in if v < r then Some v else None)"

fun radix_num :: "int \<Rightarrow> int \<Rightarrow> jsstring \<Rightarrow> int option" where
  "radix_num r acc [] = Some acc"
| "radix_num r acc (c # cs) =
     (case radix_val r c of None \<Rightarrow> None | Some v \<Rightarrow> radix_num r (r * acc + v) cs)"

definition radix_literal :: "jsstring \<Rightarrow> jsnum option" where
  "radix_literal s = (case s of
      z # x # c # cs \<Rightarrow>
        if z = 48 \<and> (x = 120 \<or> x = 88 \<or> x = 111 \<or> x = 79 \<or> x = 98 \<or> x = 66)
        then Some (case radix_num (if x = 120 \<or> x = 88 then 16 else if x = 111 \<or> x = 79 then 8 else 2)
                          0 (c # cs) of None \<Rightarrow> NaN | Some n \<Rightarrow> fl64 (of_int n))
        else None
    | _ \<Rightarrow> None)"

text \<open>\<open>Number(s)\<close>\<close>

definition js_number :: "jsstring \<Rightarrow> jsnum" where
  "js_number s = (let t = trim s in
     if t = [] then Fin 0
     else case radix_literal t of Some v \<Rightarrow> v
     | None \<Rightarrow> (let (neg, u) = drop_sign t in
         if u = js ''Infinity'' then signed neg PInf
         else case scan_dec u of Some (v, []) \<Rightarrow> signed neg (fl64 v) | _ \<Rightarrow> NaN))"

text \<open>\<open>parseFloat(s)\<close> and \<open>parseInt(s, 10)\<close> read the longest prefix.\<close>

definition parse_float :: "jsstring \<Rightarrow> jsnum" where
  "parse_float s = (let (neg, u) = drop_sign (trim s) in
     if take 8 u = js ''Infinity'' then signed neg PInf
     else case scan_dec u of Some (v, _) \<Rightarrow> signed neg (fl64 v) | None \<Rightarrow> NaN)"

definition parse_int10 :: "jsstring \<Rightarrow> jsnum" where
  "parse_int10 s = (let (neg, u) = drop_sign (trim s); ds = takeWhile is_digit u in
     if ds = [] then NaN else signed neg (fl64 (of_int (num_of_digits ds))))"

section \<open>Number to string\<close>

definition two53 :: rat where "two53 = 9007199254740992"

text \<open>The least n with x < 10^n, for x > 0.\<close>

definition dec_exp :: "rat \<Rightarrow> int" where
  "dec_exp x = (let (p, q) = quotient_of x;
       e = int (length (digits p)) - int (length (digits q))
     in if x < pow10 e then e else e + 1)"

text \<open>A k-digit significand for x: of the two neighbours of \<open>x / 10^(n-k)\<close> that read back as x,
  the one closer to x.\<close>

definition short_cand :: "rat \<Rightarrow> int \<Rightarrow> nat \<Rightarrow> (int \<times> int) option" where
  "short_cand x n k =
    (let u = pow10 (n - int k); lo = \<lfloor>x / u\<rfloor>; hi = lo + 1;
         ok = (\<lambda>s. 10 ^ (k - 1) \<le> s \<and> fl64 (of_int s * u) = Fin x);
         near_lo = (x / u - of_int lo \<le> 1 / 2)
     in if ok lo \<and> (near_lo \<or> \<not> ok hi) then Some (lo, n)
        else if ok hi then (if hi = 10 ^ k then Some (10 ^ (k - 1), n + 1) else Some (hi, n))
        else None)"

fun shortest :: "rat \<Rightarrow> int \<Rightarrow> nat list \<Rightarrow> (int \<times> int) option" where
  "shortest x n [] = None"
| "shortest x n (k # ks) = (case short_cand x n k of
      Some c \<Rightarrow> Some c | None \<Rightarrow> shortest x n ks)"

definition layout :: "jsstring \<Rightarrow> int \<Rightarrow> jsstring" where
  "layout ds n =
    (let k = int (length ds); zs = (\<lambda>m. replicate (nat m) (48::unit16)) in
     if k \<le> n \<and> n \<le> 21 then ds @ zs (n - k)
     else if 0 < n \<and> n \<le> 21 then take (nat n) ds @ js ''.'' @ drop (nat n) ds
     else if - 6 < n \<and> n \<le> 0 then js ''0.'' @ zs (- n) @ ds
     else (let e = n - 1;
               ex = js ''e'' @ (if e < 0 then js ''-'' else js ''+'') @ digits \<bar>e\<bar>
           in if k = 1 then ds @ ex else take 1 ds @ js ''.'' @ drop 1 ds @ ex))"

definition pos_str :: "rat \<Rightarrow> jsstring" where
  "pos_str x =
    (if x \<le> two53 \<and> x = of_int \<lfloor>x\<rfloor> then digits \<lfloor>x\<rfloor>
     else case shortest x (dec_exp x) [1..<18] of
        Some (s, n) \<Rightarrow> layout (digits s) n
      | None \<Rightarrow> [])"

fun num_str :: "jsnum \<Rightarrow> jsstring" where
  "num_str NaN = js ''NaN''"
| "num_str PInf = js ''Infinity''"
| "num_str NInf = js ''-Infinity''"
| "num_str (Fin x) = (if x < 0 then js ''-'' @ pos_str (- x) else pos_str x)"

text \<open>\<open>x.toFixed(d)\<close>: the integer n for which n / 10^d is closest to x, the larger on a tie.\<close>

definition fixed_digits :: "nat \<Rightarrow> int \<Rightarrow> jsstring" where
  "fixed_digits d n =
    (let m = digits n; p = replicate (d + 1 - length m) 48 @ m; k = length p - d
     in if d = 0 then m else take k p @ js ''.'' @ drop k p)"

fun to_fixed :: "nat \<Rightarrow> jsnum \<Rightarrow> jsstring" where
  "to_fixed d (Fin x) =
     (if 10 ^ 21 \<le> \<bar>x\<bar> then num_str (Fin x)
      else (if x < 0 then js ''-'' else []) @ fixed_digits d \<lfloor>\<bar>x\<bar> * 10 ^ d + 1 / 2\<rfloor>)"
| "to_fixed d x = num_str x"

subsection \<open>Integers print as their digits and read back\<close>

lemma num_str_int: "0 \<le> n \<Longrightarrow> n \<le> 2 ^ 53 \<Longrightarrow> num_str (Fin (of_int n)) = digits n"
proof -
  assume "0 \<le> n" "n \<le> 2 ^ 53"
  then have "(of_int n :: rat) \<le> of_int 9007199254740992" by (simp only: of_int_le_iff) simp
  then show ?thesis using \<open>0 \<le> n\<close> by (simp add: pos_str_def two53_def)
qed

lemma is_digit_not_ws: "is_digit c \<Longrightarrow> \<not> is_ws c"
  by (auto simp: is_digit_uint is_ws_def ws_units_def)

lemma trim_digits [simp]: "0 \<le> n \<Longrightarrow> trim (digits n) = digits n"
  by (rule trim_trimmed) (simp add: trimmed_def is_digit_not_ws digits_is_digit [of n])

lemma scan_dec_digits: "0 \<le> n \<Longrightarrow> scan_dec (digits n) = Some (of_int n, [])"
  by (simp add: scan_dec_def scan_exp_def pow10_def Let_def)

lemma drop_sign_digits: "0 \<le> n \<Longrightarrow> drop_sign (digits n) = (False, digits n)"
proof -
  assume n: "0 \<le> n"
  obtain c cs where d: "digits n = c # cs" by (cases "digits n") auto
  then have "is_digit c" using digits_is_digit [OF n, of c] by simp
  then show ?thesis unfolding d by (auto simp: drop_sign_def is_digit_uint)
qed

lemma radix_literal_digits: "0 \<le> n \<Longrightarrow> radix_literal (digits n) = None"
proof -
  assume n: "0 \<le> n"
  have d: "48 \<le> uint x \<and> uint x \<le> 57" if "x \<in> set (digits n)" for x
    using digits_is_digit [OF n that] by (simp add: is_digit_uint)
  show ?thesis
  proof (cases "\<exists>a b r. digits n = a # b # r")
    case True
    then obtain a b r where r: "digits n = a # b # r" by blast
    then have "uint b \<le> 57" using d [of b] by simp
    then have "b \<noteq> 120" "b \<noteq> 88" "b \<noteq> 111" "b \<noteq> 79" "b \<noteq> 98" "b \<noteq> 66" by auto
    then show ?thesis unfolding r by (simp add: radix_literal_def split: list.split)
  next
    case False
    then show ?thesis by (auto simp: radix_literal_def split: list.split)
  qed
qed

lemma js_number_digits: "0 \<le> n \<Longrightarrow> n \<le> 2 ^ 53 \<Longrightarrow> js_number (digits n) = Fin (of_int n)"
proof -
  assume n: "0 \<le> n" "n \<le> 2 ^ 53"
  have ne: "digits n \<noteq> js ''Infinity''"
    using digits_is_digit [OF n(1), of 73] by (auto simp: js_def is_digit_def)
  have "fl64 (of_int n) = Fin (of_int n)" using fl64_int [of n] n by simp
  then show ?thesis using n
    by (simp add: js_number_def radix_literal_digits drop_sign_digits ne scan_dec_digits signed_def)
qed

end
