(* ===== verification/Client.thy ===== *)
theory Client
  imports NumText
begin

text \<open>
  ui/src/api/client.ts and the token module of ui/src/api/admin.ts: JSON values, HTTP requests
  and outcomes of fetch, the error classes, apiFetch (request construction, classification of
  the response, unwrapping of the data envelope), and the admin token with its copy in
  localStorage. The network is the argument of the decoding functions: an outcome is either a
  failure of fetch or a response with a status and a body that may not be JSON.
\<close>

section \<open>JSON values\<close>

datatype json =
    JNull
  | JBool bool
  | JNum jsnum
  | JStr jsstring
  | JArr "json list"
  | JObj "(jsstring \<times> json) list"

text \<open>Errors a promise of the API layer rejects with; \<open>GenErr\<close> is \<open>new Error(msg)\<close>.\<close>

datatype js_error =
    UnauthorizedError
  | NotFoundError jsstring
  | ApiError int json
  | TypeErr jsstring
  | SyntaxErr jsstring
  | RangeErr jsstring
  | UriErr
  | GenErr jsstring

definition error_name :: "js_error \<Rightarrow> jsstring" where
  "error_name e = (case e of
      UnauthorizedError \<Rightarrow> js ''UnauthorizedError''
    | NotFoundError _ \<Rightarrow> js ''NotFoundError''
    | ApiError _ _ \<Rightarrow> js ''ApiError''
    | TypeErr _ \<Rightarrow> js ''TypeError''
    | SyntaxErr _ \<Rightarrow> js ''SyntaxError''
    | RangeErr _ \<Rightarrow> js ''RangeError''
    | UriErr \<Rightarrow> js ''URIError''
    | GenErr _ \<Rightarrow> js ''Error'')"

definition error_message :: "js_error \<Rightarrow> jsstring" where
  "error_message e = (case e of
      UnauthorizedError \<Rightarrow> js ''Unauthorized''
    | NotFoundError r \<Rightarrow> js ''Not found: '' @ r
    | ApiError status _ \<Rightarrow> js ''API error '' @ int_str status
    | TypeErr m \<Rightarrow> m
    | SyntaxErr m \<Rightarrow> m
    | RangeErr m \<Rightarrow> m
    | UriErr \<Rightarrow> js ''URI malformed''
    | GenErr m \<Rightarrow> m)"

fun truthy_json :: "json \<Rightarrow> bool" where
  "truthy_json JNull = False"
| "truthy_json (JBool b) = b"
| "truthy_json (JNum n) = truthy_num n"
| "truthy_json (JStr s) = (s \<noteq> [])"
| "truthy_json _ = True"

text \<open>Property access: null throws, an object reads its last binding of the key, any other value
  has none of the properties the console reads (None is undefined).\<close>

fun get_prop :: "jsstring \<Rightarrow> json \<Rightarrow> js_error + json option" where
  "get_prop k JNull = Inl (TypeErr (js ''Cannot read properties of null''))"
| "get_prop k (JObj kvs) = Inr (map_of (rev kvs) k)"
| "get_prop k _ = Inr None"

definition nullish_json :: "json option \<Rightarrow> json \<Rightarrow> json" where
  "nullish_json v d = (case v of None \<Rightarrow> d | Some JNull \<Rightarrow> d | Some x \<Rightarrow> x)"

text \<open>\<open>body.data ?? body\<close>\<close>

definition unwrap_data :: "json \<Rightarrow> js_error + json" where
  "unwrap_data body = (case get_prop (js ''data'') body of
      Inl e \<Rightarrow> Inl e | Inr v \<Rightarrow> Inr (nullish_json v body))"

text \<open>The object literal of a request body: properties that are undefined are not sent.\<close>

definition json_obj :: "(jsstring \<times> json option) list \<Rightarrow> json" where
  "json_obj kvs = JObj (List.map_filter (\<lambda>(k, v). map_option (\<lambda>x. (k, x)) v) kvs)"

definition jstrs :: "jsstring list \<Rightarrow> json" where
  "jstrs xs = JArr (map JStr xs)"

section \<open>HTTP\<close>

record http_request =
  verb :: jsstring
  url :: jsstring
  headers :: "(jsstring \<times> jsstring) list"
  body :: "json option"
  credentials :: bool

record http_response =
  status :: int
  payload :: "json option"   \<comment> \<open>None: the body is not JSON (an empty one included)\<close>

datatype outcome = NetFail | Resp http_response

definition resp_ok :: "http_response \<Rightarrow> bool" where
  "resp_ok r \<longleftrightarrow> 200 \<le> status r \<and> status r \<le> 299"

definition fetch_failed :: js_error where
  "fetch_failed = TypeErr (js ''Failed to fetch'')"

definition bad_json :: js_error where
  "bad_json = SyntaxErr (js ''Unexpected end of JSON input'')"

definition read_json :: "http_response \<Rightarrow> js_error + json" where
  "read_json r = (case payload r of None \<Rightarrow> Inl bad_json | Some b \<Rightarrow> Inr b)"

section \<open>The admin token\<close>

text \<open>The module variable \<open>_token\<close> and the browser's localStorage; \<open>ls_ok\<close> is false when
  localStorage throws.\<close>

record browser =
  ls :: "jsstring \<Rightarrow> jsstring option"
  ls_ok :: bool
  tok :: "jsstring option"

definition token_key :: jsstring where
  "token_key = js ''admin_token''"

definition load_token :: "browser \<Rightarrow> jsstring option" where
  "load_token b = (if ls_ok b then ls b token_key else None)"

definition get_admin_token :: "browser \<Rightarrow> jsstring option" where
  "get_admin_token b = tok b"

definition set_admin_token :: "jsstring option \<Rightarrow> browser \<Rightarrow> browser" where
  "set_admin_token t b =
    (let b' = b\<lparr>tok := t\<rparr> in
     if ls_ok b then b'\<lparr>ls := (ls b)(token_key := (if truthy_str t then t else None))\<rparr> else b')"

lemma get_set_admin_token [simp]: "get_admin_token (set_admin_token t b) = t"
  by (simp add: get_admin_token_def set_admin_token_def Let_def)

lemma ls_ok_set_admin_token [simp]: "ls_ok (set_admin_token t b) = ls_ok b"
  by (simp add: set_admin_token_def Let_def)

lemma load_set_admin_token:
  "ls_ok b \<Longrightarrow> load_token (set_admin_token t b) = (if truthy_str t then t else None)"
  by (simp add: load_token_def set_admin_token_def Let_def)

section \<open>apiFetch\<close>

record request_options =
  opt_method :: "jsstring option"
  opt_body :: "json option"
  opt_headers :: "(jsstring \<times> jsstring) list"

definition set_header :: "jsstring \<Rightarrow> jsstring \<Rightarrow> (jsstring \<times> jsstring) list \<Rightarrow> (jsstring \<times> jsstring) list" where
  "set_header k v hs = filter (\<lambda>(k', _). k' \<noteq> k) hs @ [(k, v)]"

definition with_bearer :: "jsstring option \<Rightarrow> (jsstring \<times> jsstring) list \<Rightarrow> (jsstring \<times> jsstring) list" where
  "with_bearer t hs = (case t of None \<Rightarrow> hs
     | Some s \<Rightarrow> if s = [] then hs else set_header (js ''Authorization'') (js ''Bearer '' @ s) hs)"

definition api_request :: "browser \<Rightarrow> jsstring \<Rightarrow> request_options \<Rightarrow> http_request" where
  "api_request b u opts =
    \<lparr>verb = nullish (opt_method opts) (js ''GET''), url = u,
     headers = with_bearer (get_admin_token b) (opt_headers opts),
     body = (case opt_body opts of None \<Rightarrow> None | Some j \<Rightarrow> if truthy_json j then Some j else None),
     credentials = True\<rparr>"

definition api_result :: "jsstring \<Rightarrow> outcome \<Rightarrow> js_error + json" where
  "api_result u out = (case out of
      NetFail \<Rightarrow> Inl fetch_failed
    | Resp r \<Rightarrow>
        if status r = 401 then Inl UnauthorizedError
        else if \<not> resp_ok r then
          (let b = (case read_json r of Inl _ \<Rightarrow> JObj [] | Inr b \<Rightarrow> b) in
           if status r = 404 then Inl (NotFoundError u) else Inl (ApiError (status r) b))
        else (case read_json r of Inl e \<Rightarrow> Inl e | Inr b \<Rightarrow> unwrap_data b))"

lemma unwrap_data_simps [simp]:
  "unwrap_data JNull = Inl (TypeErr (js ''Cannot read properties of null''))"
  "unwrap_data (JObj kvs) = Inr (nullish_json (map_of (rev kvs) (js ''data'')) (JObj kvs))"
  "unwrap_data (JArr xs) = Inr (JArr xs)"
  by (simp_all add: unwrap_data_def nullish_json_def)

lemma unwrap_data_enveloped:
  "v \<noteq> JNull \<Longrightarrow> unwrap_data (JObj [(js ''data'', v), (js ''error'', JNull)]) = Inr v"
  by (cases v) (auto simp: nullish_json_def)

text \<open>C2. apiFetch resolves exactly when the network answered with a 2xx status whose body is
  JSON other than null, and then with the unwrapped data; a 401 always rejects with
  UnauthorizedError, a 404 with NotFoundError for the URL, any other non-2xx status with
  ApiError carrying that status, whatever the body.\<close>

theorem api_result_classified:
  "((\<exists>v. api_result u out = Inr v) \<longleftrightarrow>
     (\<exists>r b. out = Resp r \<and> 200 \<le> status r \<and> status r \<le> 299 \<and> payload r = Some b \<and> b \<noteq> JNull)) \<and>
   (api_result u (Resp r) = Inl UnauthorizedError \<longleftrightarrow> status r = 401) \<and>
   (status r \<noteq> 401 \<and> \<not> resp_ok r \<longrightarrow> api_result u (Resp r) =
     (if status r = 404 then Inl (NotFoundError u)
      else Inl (ApiError (status r) (case payload r of None \<Rightarrow> JObj [] | Some b \<Rightarrow> b)))) \<and>
   (resp_ok r \<and> payload r = Some b \<longrightarrow> api_result u (Resp r) = unwrap_data b)"
proof (intro conjI)
  have u: "(\<exists>v. unwrap_data b = Inr v) \<longleftrightarrow> b \<noteq> JNull" for b
    by (cases b) (auto simp: unwrap_data_def)
  show "(\<exists>v. api_result u out = Inr v) \<longleftrightarrow>
     (\<exists>r b. out = Resp r \<and> 200 \<le> status r \<and> status r \<le> 299 \<and> payload r = Some b \<and> b \<noteq> JNull)"
    using u by (auto simp: api_result_def resp_ok_def read_json_def Let_def
        split: outcome.split option.split)
  have "unwrap_data b \<noteq> Inl UnauthorizedError" for b by (cases b) (auto simp: unwrap_data_def)
  then show "api_result u (Resp r) = Inl UnauthorizedError \<longleftrightarrow> status r = 401"
    by (auto simp: api_result_def read_json_def bad_json_def Let_def split: option.split)
qed (auto simp: api_result_def read_json_def resp_ok_def Let_def split: option.split)

theorem api_result_classified_witness:
  "api_result (js ''/x'') (Resp \<lparr>status = 404, payload = None\<rparr>) = Inl (NotFoundError (js ''/x'')) \<and>
   api_result (js ''/x'') (Resp \<lparr>status = 200, payload = Some (JObj [(js ''data'', JBool True)])\<rparr>) =
     Inr (JBool True)"
  using api_result_classified [of "js ''/x''" NetFail "\<lparr>status = 404, payload = None\<rparr>"]
    api_result_classified [of "js ''/x''" NetFail
      "\<lparr>status = 200, payload = Some (JObj [(js ''data'', JBool True)])\<rparr>" "JObj [(js ''data'', JBool True)]"]
  by (simp add: resp_ok_def nullish_json_def)

end
