(* ===== verification/Unicode.thy ===== *)
theory Unicode
  imports Prelude
begin

text \<open>
  Text encodings the console relies on: UTF-16 strings as code points, UTF-8 encoding and the
  decoder of TextDecoder('utf-8') (malformed input becomes U+FFFD), percent-encoding by
  encodeURIComponent, and standard base64 as atob reads it. The round trips proved here are
  used by the URL builders of api/*.ts and by utils/base64.ts.
\<close>

section \<open>UTF-16 and UTF-8\<close>

definition is_high :: "unit16 \<Rightarrow> bool" where
  "is_high u \<longleftrightarrow> 0xD800 \<le> uint u \<and> uint u \<le> 0xDBFF"

definition is_low :: "unit16 \<Rightarrow> bool" where
  "is_low u \<longleftrightarrow> 0xDC00 \<le> uint u \<and> uint u \<le> 0xDFFF"

definition scalar :: "int \<Rightarrow> bool" where
  "scalar c \<longleftrightarrow> 0 \<le> c \<and> c < 0xD800 \<or> 0xE000 \<le> c \<and> c \<le> 0x10FFFF"

text \<open>The code points of a string; None when it holds an unpaired surrogate.\<close>

fun cps_of :: "jsstring \<Rightarrow> int list option" where
  "cps_of [] = Some []"
| "cps_of (u # us) =
    (if is_low u then None
     else if is_high u then
       (case us of [] \<Rightarrow> None
        | v # vs \<Rightarrow> if is_low v
            then map_option ((#) (0x10000 + (uint u - 0xD800) * 1024 + (uint v - 0xDC00))) (cps_of vs)
            else None)
     else map_option ((#) (uint u)) (cps_of us))"

definition units_of_cp :: "int \<Rightarrow> jsstring" where
  "units_of_cp c = (if c < 0x10000 then [word_of_int c]
     else [word_of_int (0xD800 + (c - 0x10000) div 1024), word_of_int (0xDC00 + (c - 0x10000) mod 1024)])"

definition utf8_cp :: "int \<Rightarrow> int list" where
  "utf8_cp c =
    (if c < 0x80 then [c]
     else if c < 0x800 then [0xC0 + c div 64, 0x80 + c mod 64]
     else if c < 0x10000 then [0xE0 + c div 4096, 0x80 + (c div 64) mod 64, 0x80 + c mod 64]
     else [0xF0 + c div 262144, 0x80 + (c div 4096) mod 64, 0x80 + (c div 64) mod 64, 0x80 + c mod 64])"

definition utf8_encode :: "jsstring \<Rightarrow> int list option" where
  "utf8_encode s = map_option (\<lambda>cs. concat (map utf8_cp cs)) (cps_of s)"

text \<open>The WHATWG UTF-8 decoder: \<open>cont n cp lo hi\<close> waits for n continuation bytes, the next of
  them between lo and hi; a byte out of range is put back after the replacement character.\<close>

function (sequential) dec :: "int list \<Rightarrow> int list"
  and cont :: "nat \<Rightarrow> int \<Rightarrow> int \<Rightarrow> int \<Rightarrow> int list \<Rightarrow> int list" where
  "dec [] = []"
| "dec (b # bs) =
    (if b \<le> 0x7F then b # dec bs
     else if 0xC2 \<le> b \<and> b \<le> 0xDF then cont 1 (b - 0xC0) 0x80 0xBF bs
     else if 0xE0 \<le> b \<and> b \<le> 0xEF then
       cont 2 (b - 0xE0) (if b = 0xE0 then 0xA0 else 0x80) (if b = 0xED then 0x9F else 0xBF) bs
     else if 0xF0 \<le> b \<and> b \<le> 0xF4 then
       cont 3 (b - 0xF0) (if b = 0xF0 then 0x90 else 0x80) (if b = 0xF4 then 0x8F else 0xBF) bs
     else 0xFFFD # dec bs)"
| "cont n cp lo hi [] = [0xFFFD]"
| "cont n cp lo hi (b # bs) =
    (if lo \<le> b \<and> b \<le> hi then
       (if n = 1 then (cp * 64 + (b - 0x80)) # dec bs
        else cont (n - 1) (cp * 64 + (b - 0x80)) 0x80 0xBF bs)
     else 0xFFFD # dec (b # bs))"
  by pat_completeness auto
termination
  by (relation "measure (\<lambda>x. case x of Inl bs \<Rightarrow> 2 * length bs
        | Inr (n, cp, lo, hi, bs) \<Rightarrow> 2 * length bs + 1)") auto

definition drop_bom :: "int list \<Rightarrow> int list" where
  "drop_bom bs = (if take 3 bs = [0xEF, 0xBB, 0xBF] then drop 3 bs else bs)"

definition text_decode :: "int list \<Rightarrow> jsstring" where
  "text_decode bs = concat (map units_of_cp (dec (drop_bom bs)))"

lemma units_of_cp_bmp: "\<not> is_low u \<Longrightarrow> units_of_cp (uint u) = [u]"
proof -
  have "uint u < 65536" using uint_bounded [of u] by simp
  then show ?thesis by (simp add: units_of_cp_def)
qed

lemma units_of_cp_pair:
  assumes "is_high u" "is_low v"
  shows "units_of_cp (0x10000 + (uint u - 0xD800) * 1024 + (uint v - 0xDC00)) = [u, v]"
proof -
  define h where "h = uint u - 0xD800"
  define l where "l = uint v - 0xDC00"
  have b: "0 \<le> h" "0 \<le> l" "l < 1024"
    using assms by (simp_all add: is_high_def is_low_def h_def l_def)
  have dm: "(h * 1024 + l) div 1024 = h" "(h * 1024 + l) mod 1024 = l" using b by simp_all
  have "units_of_cp (0x10000 + h * 1024 + l) =
      [word_of_int (0xD800 + h), word_of_int (0xDC00 + l)]"
    using b dm by (simp add: units_of_cp_def del: of_int_add)
  also have "\<dots> = [u, v]" unfolding h_def l_def by (simp del: of_int_add)
  finally show ?thesis by (simp only: h_def l_def)
qed

lemma cps_of_units: "cps_of s = Some cs \<Longrightarrow> concat (map units_of_cp cs) = s \<and> (\<forall>c \<in> set cs. scalar c)"
proof (induction s arbitrary: cs rule: cps_of.induct)
  case (2 u us)
  show ?case
  proof (cases "is_high u")
    case True
    then obtain v vs where us: "us = v # vs" "is_low v"
      using "2.prems" by (auto split: list.splits if_splits)
    let ?c = "0x10000 + (uint u - 0xD800) * 1024 + (uint v - 0xDC00)"
    obtain cs' where cs': "cps_of vs = Some cs'" "cs = ?c # cs'"
      using "2.prems" True us by (auto split: if_splits)
    have "scalar ?c" using True us(2) by (auto simp: scalar_def is_high_def is_low_def)
    then show ?thesis using "2.IH"(1) [of v vs cs'] "2.prems" True us cs' units_of_cp_pair [OF True us(2)]
      by (auto split: if_splits)
  next
    case False
    have lo: "\<not> is_low u" using "2.prems" by (auto split: if_splits)
    obtain cs' where cs': "cps_of us = Some cs'" "cs = uint u # cs'"
      using "2.prems" False lo by auto
    have "uint u < 65536" using uint_bounded [of u] by simp
    then have "scalar (uint u)" using False lo by (auto simp: scalar_def is_high_def is_low_def)
    then show ?thesis using "2.IH"(2) [of cs'] False lo cs' units_of_cp_bmp [OF lo] by auto
  qed
qed simp

lemma dec_two: "2 \<le> x \<Longrightarrow> x \<le> 31 \<Longrightarrow> 0 \<le> y \<Longrightarrow> y < 64 \<Longrightarrow>
  dec ((0xC0 + x) # (0x80 + y) # bs) = (x * 64 + y) # dec bs"
  by simp

lemma cont_step: "lo \<le> b \<Longrightarrow> b \<le> hi \<Longrightarrow>
  cont (Suc (Suc n)) cp lo hi (b # bs) = cont (Suc n) (cp * 64 + (b - 0x80)) 0x80 0xBF bs"
  by simp

lemma cont_last: "lo \<le> b \<Longrightarrow> b \<le> hi \<Longrightarrow>
  cont (Suc 0) cp lo hi (b # bs) = (cp * 64 + (b - 0x80)) # dec bs"
  by simp

lemma dec_three:
  assumes "0 \<le> x" "x \<le> 15" "0 \<le> y" "y < 64" "0 \<le> z" "z < 64"
    "x = 0 \<Longrightarrow> 32 \<le> y" "x = 13 \<Longrightarrow> y \<le> 31"
  shows "dec ((0xE0 + x) # (0x80 + y) # (0x80 + z) # bs) = ((x * 64 + y) * 64 + z) # dec bs"
proof -
  have "dec ((0xE0 + x) # (0x80 + y) # (0x80 + z) # bs) =
      cont 2 x (if x = 0 then 0xA0 else 0x80) (if x = 13 then 0x9F else 0xBF) ((0x80 + y) # (0x80 + z) # bs)"
    using assms by (subst dec.simps) simp
  also have "\<dots> = cont (Suc 0) (x * 64 + y) 0x80 0xBF ((0x80 + z) # bs)"
    unfolding numeral_2_eq_2 by (subst cont_step) (use assms in auto)
  also have "\<dots> = ((x * 64 + y) * 64 + z) # dec bs"
    by (subst cont_last) (use assms in auto)
  finally show ?thesis .
qed

lemma dec_four:
  assumes "0 \<le> x" "x \<le> 4" "0 \<le> y" "y < 64" "0 \<le> z" "z < 64" "0 \<le> w" "w < 64"
    "x = 0 \<Longrightarrow> 16 \<le> y" "x = 4 \<Longrightarrow> y \<le> 15"
  shows "dec ((0xF0 + x) # (0x80 + y) # (0x80 + z) # (0x80 + w) # bs) =
     (((x * 64 + y) * 64 + z) * 64 + w) # dec bs"
proof -
  have "dec ((0xF0 + x) # (0x80 + y) # (0x80 + z) # (0x80 + w) # bs) =
      cont 3 x (if x = 0 then 0x90 else 0x80) (if x = 4 then 0x8F else 0xBF)
        ((0x80 + y) # (0x80 + z) # (0x80 + w) # bs)"
    using assms by (subst dec.simps) simp
  also have "\<dots> = cont (Suc (Suc 0)) (x * 64 + y) 0x80 0xBF ((0x80 + z) # (0x80 + w) # bs)"
    unfolding numeral_3_eq_3 by (subst cont_step) (use assms in auto)
  also have "\<dots> = cont (Suc 0) ((x * 64 + y) * 64 + z) 0x80 0xBF ((0x80 + w) # bs)"
    by (subst cont_step) (use assms in auto)
  also have "\<dots> = (((x * 64 + y) * 64 + z) * 64 + w) # dec bs"
    by (subst cont_last) (use assms in auto)
  finally show ?thesis .
qed

lemma div_div_64: "(c :: int) div 64 div 64 = c div 4096" "c div 64 div 4096 = c div 262144"
    "c div 4096 div 64 = c div 262144"
  by (simp_all flip: zdiv_zmult2_eq)

lemma dec_utf8_cp: "scalar c \<Longrightarrow> dec (utf8_cp c @ bs) = c # dec bs"
proof -
  assume sc: "scalar c"
  consider "c < 0x80" | "0x80 \<le> c" "c < 0x800" | "0x800 \<le> c" "c < 0x10000" | "0x10000 \<le> c"
    by linarith
  then show ?thesis
  proof cases
    case 1
    then show ?thesis using sc by (simp add: utf8_cp_def)
  next
    case 2
    have "dec ((0xC0 + c div 64) # (0x80 + c mod 64) # bs) = (c div 64 * 64 + c mod 64) # dec bs"
      by (rule dec_two) (use 2 in presburger)+
    then show ?thesis using 2 by (simp add: utf8_cp_def del: dec.simps)
  next
    case 3
    have d: "c div 4096 = c div 64 div 64" by (simp add: div_div_64)
    have x: "c div 64 = 64 * (c div 64 div 64) + (c div 64) mod 64" by simp
    have e: "(c div 4096 * 64 + (c div 64) mod 64) * 64 + c mod 64 = c" unfolding d by simp
    have hi: "c div 4096 = 13 \<Longrightarrow> (c div 64) mod 64 \<le> 31"
    proof -
      assume "c div 4096 = 13"
      then have t: "c div 64 div 64 = 13" by (simp add: d)
      then have "c div 64 < 896" using x pos_mod_bound [of 64 "c div 64"] by linarith
      then have "c < 0xD800" using sc unfolding scalar_def by linarith
      then have "c div 64 < 864" by linarith
      then show ?thesis using x t by linarith
    qed
    have lo: "c div 4096 = 0 \<Longrightarrow> 32 \<le> (c div 64) mod 64"
    proof -
      assume "c div 4096 = 0"
      then have "c div 64 div 64 = 0" by (simp add: d)
      moreover have "32 \<le> c div 64" using 3 by linarith
      ultimately show ?thesis using x by linarith
    qed
    have b: "0 \<le> c div 4096" "c div 4096 \<le> 15" using 3 by linarith+
    have "dec ((0xE0 + c div 4096) # (0x80 + (c div 64) mod 64) # (0x80 + c mod 64) # bs) =
        ((c div 4096 * 64 + (c div 64) mod 64) * 64 + c mod 64) # dec bs"
      by (rule dec_three) (use b lo hi in simp_all)
    then show ?thesis using 3 unfolding e by (simp add: utf8_cp_def del: dec.simps)
  next
    case 4
    then have top: "c \<le> 0x10FFFF" using sc by (auto simp: scalar_def)
    have d: "c div 4096 = c div 64 div 64" "c div 262144 = c div 64 div 64 div 64"
      by (simp_all add: div_div_64)
    have x: "c div 64 div 64 = 64 * (c div 64 div 64 div 64) + (c div 64 div 64) mod 64" by simp
    have y: "16 \<le> c div 64 div 64" "c div 64 div 64 \<le> 271" using 4 top by linarith+
    have e: "((c div 262144 * 64 + (c div 4096) mod 64) * 64 + (c div 64) mod 64) * 64 + c mod 64 = c"
      unfolding d by simp
    have lo: "c div 262144 = 0 \<Longrightarrow> 16 \<le> (c div 4096) mod 64" unfolding d using x y by linarith
    have hi: "c div 262144 = 4 \<Longrightarrow> (c div 4096) mod 64 \<le> 15" unfolding d using x y by linarith
    have b: "0 \<le> c div 262144" "c div 262144 \<le> 4" using 4 top by linarith+
    have "dec ((0xF0 + c div 262144) # (0x80 + (c div 4096) mod 64) # (0x80 + (c div 64) mod 64)
          # (0x80 + c mod 64) # bs) =
        (((c div 262144 * 64 + (c div 4096) mod 64) * 64 + (c div 64) mod 64) * 64 + c mod 64) # dec bs"
      by (rule dec_four) (use b lo hi in simp_all)
    then show ?thesis using 4 unfolding e by (simp add: utf8_cp_def del: dec.simps)
  qed
qed

lemma dec_utf8_cps: "\<forall>c \<in> set cs. scalar c \<Longrightarrow> dec (concat (map utf8_cp cs)) = cs"
  by (induction cs) (auto simp: dec_utf8_cp)

lemma utf8_cp_bytes:
  assumes "scalar c" and "b \<in> set (utf8_cp c)"
  shows "0 \<le> b \<and> b \<le> 255"
proof -
  have c: "0 \<le> c" "c \<le> 0x10FFFF" using assms(1) by (auto simp: scalar_def)
  have m: "0 \<le> x mod 64" "x mod 64 < 64" for x :: int by simp_all
  have d: "c < 0x800 \<Longrightarrow> c div 64 \<le> 31" "c < 0x10000 \<Longrightarrow> c div 4096 \<le> 15" "c div 262144 \<le> 4"
    "0 \<le> c div 64" "0 \<le> c div 4096" "0 \<le> c div 262144" using c by linarith+
  show ?thesis using assms(2) c d m [of c] m [of "c div 64"] m [of "c div 4096"]
    unfolding utf8_cp_def by (auto split: if_splits)
qed

lemma utf8_encode_inject:
  "utf8_encode s = Some bs \<Longrightarrow> utf8_encode t = Some bs \<Longrightarrow> s = t"
  using cps_of_units dec_utf8_cps by (auto simp: utf8_encode_def) metis

text \<open>A decoded text is the encoded one, when that does not begin with a byte order mark.\<close>

lemma text_decode_encode:
  "utf8_encode s = Some bs \<Longrightarrow> take 3 bs \<noteq> [0xEF, 0xBB, 0xBF] \<Longrightarrow> text_decode bs = s"
  using cps_of_units [of s] dec_utf8_cps by (auto simp: utf8_encode_def text_decode_def drop_bom_def)

lemma utf8_encode_bytes: "utf8_encode s = Some bs \<Longrightarrow> b \<in> set bs \<Longrightarrow> 0 \<le> b \<and> b \<le> 255"
  using cps_of_units [of s] utf8_cp_bytes by (fastforce simp: utf8_encode_def)

section \<open>encodeURIComponent\<close>

definition uri_unreserved :: jsstring where
  "uri_unreserved =
     js ''ABCDEFGHIJKLMNOPQRSTUVWXYZabcdefghijklmnopqrstuvwxyz0123456789-_.!~*()'' @ [39]"

definition hex_digit :: "int \<Rightarrow> unit16" where
  "hex_digit d = (if d < 10 then word_of_int (48 + d) else word_of_int (55 + d))"

definition pct :: "int \<Rightarrow> jsstring" where
  "pct b = [37, hex_digit (b div 16), hex_digit (b mod 16)]"

definition encode_cp :: "int \<Rightarrow> jsstring" where
  "encode_cp c = (if c < 0x80 \<and> word_of_int c \<in> set uri_unreserved then [word_of_int c]
     else concat (map pct (utf8_cp c)))"

text \<open>None stands for the URIError thrown on an unpaired surrogate.\<close>

definition encode_uri_component :: "jsstring \<Rightarrow> jsstring option" where
  "encode_uri_component s = map_option (\<lambda>cs. concat (map encode_cp cs)) (cps_of s)"

text \<open>Reading the escapes back, as a server does with a path segment.\<close>

definition hex_val :: "unit16 \<Rightarrow> int" where
  "hex_val u = (if uint u < 58 then uint u - 48 else uint u - 55)"

fun pct_bytes :: "jsstring \<Rightarrow> int list" where
  "pct_bytes [] = []"
| "pct_bytes (u # us) =
    (if u = 37 then (case us of a # b # r \<Rightarrow> (16 * hex_val a + hex_val b) # pct_bytes r | _ \<Rightarrow> [])
     else uint u # pct_bytes us)"

lemma unreserved_units: "u \<in> set uri_unreserved \<Longrightarrow> u \<noteq> 37 \<and> uint u < 0x80"
  by (auto simp: uri_unreserved_def js_def)

lemma hex_digit_val: "0 \<le> d \<Longrightarrow> d < 16 \<Longrightarrow> hex_val (hex_digit d) = d"
proof -
  assume d: "0 \<le> d" "d < 16"
  have "uint (word_of_int (48 + d) :: unit16) = 48 + d" "uint (word_of_int (55 + d) :: unit16) = 55 + d"
    using d unfolding uint_word_of_int by simp_all
  then show ?thesis using d unfolding hex_val_def hex_digit_def by (auto simp del: of_int_add)
qed

lemma pct_bytes_pct: "0 \<le> b \<Longrightarrow> b \<le> 255 \<Longrightarrow> pct_bytes (pct b @ s) = b # pct_bytes s"
proof -
  assume b: "0 \<le> b" "b \<le> 255"
  have "hex_val (hex_digit (b div 16)) = b div 16" "hex_val (hex_digit (b mod 16)) = b mod 16"
    using b by (intro hex_digit_val; simp; fail)+
  then show ?thesis by (simp add: pct_def)
qed

lemma pct_bytes_pcts: "\<forall>b \<in> set bs. 0 \<le> b \<and> b \<le> 255 \<Longrightarrow>
  pct_bytes (concat (map pct bs) @ s) = bs @ pct_bytes s"
  by (induction bs) (auto simp: pct_bytes_pct)

lemma pct_bytes_encode_cp: "scalar c \<Longrightarrow> pct_bytes (encode_cp c @ s) = utf8_cp c @ pct_bytes s"
proof (cases "c < 0x80 \<and> word_of_int c \<in> set uri_unreserved")
  case True
  assume sc: "scalar c"
  then have "uint (word_of_int c :: unit16) = c" using True unfolding uint_word_of_int scalar_def by simp
  moreover have "(word_of_int c :: unit16) \<noteq> 37"
    using unreserved_units [OF conjunct2 [OF True]] by (rule conjunct1)
  ultimately show ?thesis using True by (simp add: encode_cp_def utf8_cp_def)
next
  case False
  assume sc: "scalar c"
  then have "\<forall>b \<in> set (utf8_cp c). 0 \<le> b \<and> b \<le> 255" using utf8_cp_bytes by blast
  then show ?thesis unfolding encode_cp_def using False by (simp only: if_False pct_bytes_pcts)
qed

lemma pct_bytes_encode:
  "encode_uri_component s = Some t \<Longrightarrow> utf8_encode s = Some (pct_bytes t)"
proof -
  assume e: "encode_uri_component s = Some t"
  then obtain cs where cs: "cps_of s = Some cs" "t = concat (map encode_cp cs)"
    by (auto simp: encode_uri_component_def)
  have "\<forall>c \<in> set cs. scalar c" using cps_of_units [OF cs(1)] by simp
  then have "pct_bytes (concat (map encode_cp cs)) = concat (map utf8_cp cs)"
    by (induction cs) (auto simp: pct_bytes_encode_cp)
  then show ?thesis using cs by (simp add: utf8_encode_def)
qed

lemma encode_uri_inject:
  "encode_uri_component s = Some u \<Longrightarrow> encode_uri_component t = Some u \<Longrightarrow> s = t"
  using pct_bytes_encode utf8_encode_inject by blast

text \<open>The output alphabet: unreserved characters, the percent sign and hexadecimal digits, none
  of which separates path segments or query parameters.\<close>

lemma hex_digit_unreserved: "0 \<le> d \<Longrightarrow> d < 16 \<Longrightarrow> hex_digit d \<in> set uri_unreserved"
proof -
  assume "0 \<le> d" "d < 16"
  then have "d \<in> {0, 1, 2, 3, 4, 5, 6, 7, 8, 9, 10, 11, 12, 13, 14, 15}"
    unfolding insert_iff empty_iff by presburger
  then show ?thesis by (auto simp: hex_digit_def uri_unreserved_def js_def)
qed

lemma pct_alphabet: "0 \<le> b \<Longrightarrow> b \<le> 255 \<Longrightarrow> set (pct b) \<subseteq> insert 37 (set uri_unreserved)"
  using hex_digit_unreserved [of "b div 16"] hex_digit_unreserved [of "b mod 16"]
  by (auto simp: pct_def)

lemma encode_alphabet:
  assumes "encode_uri_component s = Some t"
  shows "set t \<subseteq> insert 37 (set uri_unreserved)"
proof -
  obtain cs where cs: "cps_of s = Some cs" "t = concat (map encode_cp cs)"
    using assms by (auto simp: encode_uri_component_def)
  have "set (encode_cp c) \<subseteq> insert 37 (set uri_unreserved)" if "c \<in> set cs" for c
  proof -
    have sc: "scalar c" using that cps_of_units [OF cs(1)] by simp
    show ?thesis
    proof (cases "c < 0x80 \<and> word_of_int c \<in> set uri_unreserved")
      case True
      then show ?thesis by (simp add: encode_cp_def)
    next
      case False
      have "set (pct b) \<subseteq> insert 37 (set uri_unreserved)" if "b \<in> set (utf8_cp c)" for b
        using utf8_cp_bytes [OF sc that] by (intro pct_alphabet) simp_all
      then show ?thesis using False unfolding encode_cp_def by (auto simp del: insert_iff)
    qed
  qed
  then show ?thesis unfolding cs(2) by auto
qed

lemma encode_uri_total: "(\<exists>t. encode_uri_component s = Some t) \<longleftrightarrow> cps_of s \<noteq> None"
  by (auto simp: encode_uri_component_def)

end
