(* ===== verification/Urls.thy ===== *)
theory Urls
  imports Unicode
begin

text \<open>
  Building request URLs. Next to encodeURIComponent the console serialises list parameters
  with URLSearchParams (application/x-www-form-urlencoded), which never throws: an unpaired
  surrogate becomes U+FFFD. Both encoders meet one contract, the locale \<open>segment_codec\<close>: they
  are injective and their output has none of the characters that separate the parts of a URL.
  The lemmas on paths and query strings are proved once from that contract.
\<close>

section \<open>Form encoding\<close>

fun cps_usv :: "jsstring \<Rightarrow> int list" where
  "cps_usv [] = []"
| "cps_usv (u # us) =
    (if is_low u then 0xFFFD # cps_usv us
     else if is_high u then
       (case us of [] \<Rightarrow> [0xFFFD]
        | v # vs \<Rightarrow> if is_low v
            then (0x10000 + (uint u - 0xD800) * 1024 + (uint v - 0xDC00)) # cps_usv vs
            else 0xFFFD # cps_usv us)
     else uint u # cps_usv us)"

definition form_unreserved :: jsstring where
  "form_unreserved = js ''ABCDEFGHIJKLMNOPQRSTUVWXYZabcdefghijklmnopqrstuvwxyz0123456789*-._''"

definition form_cp :: "int \<Rightarrow> jsstring" where
  "form_cp c = (if c = 32 then [43]
     else if c < 0x80 \<and> word_of_int c \<in> set form_unreserved then [word_of_int c]
     else concat (map pct (utf8_cp c)))"

definition form_encode :: "jsstring \<Rightarrow> jsstring" where
  "form_encode s = concat (map form_cp (cps_usv s))"

text \<open>\<open>params.toString()\<close>\<close>

definition form_string :: "(jsstring \<times> jsstring) list \<Rightarrow> jsstring" where
  "form_string kvs = join_with [38] (map (\<lambda>(k, v). form_encode k @ 61 # form_encode v) kvs)"

text \<open>\<open>params.set(k, v)\<close> on a list without duplicate names.\<close>

fun param_set :: "jsstring \<Rightarrow> jsstring \<Rightarrow> (jsstring \<times> jsstring) list \<Rightarrow> (jsstring \<times> jsstring) list" where
  "param_set k v [] = [(k, v)]"
| "param_set k v ((k', v') # kvs) = (if k' = k then (k, v) # kvs else (k', v') # param_set k v kvs)"

definition form_codec :: "jsstring \<Rightarrow> jsstring option" where
  "form_codec s = (if cps_of s = None then None else Some (form_encode s))"

lemma cps_usv_eq: "cps_of s = Some cs \<Longrightarrow> cps_usv s = cs"
proof (induction s arbitrary: cs rule: cps_of.induct)
  case (2 u us)
  have nl: "\<not> is_low u" using "2.prems" by auto
  show ?case
  proof (cases "is_high u")
    case True
    then obtain v vs where us: "us = v # vs" "is_low v" using "2.prems" nl
      by (cases us) (auto split: if_splits)
    then show ?thesis using "2.prems" "2.IH"(1) [OF nl True us] nl True by auto
  next
    case False
    then show ?thesis using "2.prems" "2.IH"(2) [OF nl False] nl by auto
  qed
qed simp

lemma form_unreserved_uri: "set form_unreserved \<subseteq> set uri_unreserved"
proof -
  have "list_all (\<lambda>u. u \<in> set uri_unreserved) form_unreserved" by code_simp
  then show ?thesis by (auto simp: list_all_iff)
qed

lemma plus_not_unreserved: "(43 :: unit16) \<notin> set uri_unreserved" "(43 :: unit16) \<notin> set form_unreserved"
  by code_simp+

definition unplus :: "unit16 \<Rightarrow> unit16" where
  "unplus u = (if u = 43 then 32 else u)"

lemma map_unplus_pct: "0 \<le> b \<Longrightarrow> b \<le> 255 \<Longrightarrow> map unplus (pct b) = pct b"
proof -
  assume b: "0 \<le> b" "b \<le> 255"
  then have d: "0 \<le> b div 16" "b div 16 < 16" "0 \<le> b mod 16" "b mod 16 < 16"
    by presburger+
  have "hex_digit (b div 16) \<noteq> 43" "hex_digit (b mod 16) \<noteq> 43"
    using hex_digit_unreserved [OF d(1,2)] hex_digit_unreserved [OF d(3,4)] plus_not_unreserved
    by metis+
  then show ?thesis by (simp add: pct_def unplus_def)
qed

lemma map_unplus_pcts: "\<forall>b \<in> set bs. 0 \<le> b \<and> b \<le> 255 \<Longrightarrow>
  map unplus (concat (map pct bs)) = concat (map pct bs)"
  by (induction bs) (auto simp: map_unplus_pct)

lemma pct_bytes_form_cp:
  assumes sc: "scalar c"
  shows "pct_bytes (map unplus (form_cp c) @ s) = utf8_cp c @ pct_bytes s"
proof -
  consider "c = 32" | "c \<noteq> 32" "c < 0x80 \<and> word_of_int c \<in> set form_unreserved"
    | "c \<noteq> 32" "\<not> (c < 0x80 \<and> word_of_int c \<in> set form_unreserved)" by blast
  then show ?thesis
  proof cases
    case 1
    then have "form_cp c = [43]" by (simp add: form_cp_def)
    then show ?thesis using 1 by (simp add: unplus_def utf8_cp_def)
  next
    case 2
    then have w: "(word_of_int c :: unit16) \<in> set form_unreserved" by blast
    have "(word_of_int c :: unit16) \<noteq> 37"
      using unreserved_units [OF subsetD [OF form_unreserved_uri w]] by (rule conjunct1)
    moreover have "(word_of_int c :: unit16) \<noteq> 43"
      using plus_not_unreserved(2) w by (simp only: not_def) metis
    moreover have "uint (word_of_int c :: unit16) = c"
      using sc 2 unfolding uint_word_of_int scalar_def by simp
    moreover have "form_cp c = [word_of_int c]" using 2 unfolding form_cp_def by (simp only: if_False if_True simp_thms)
    moreover have "utf8_cp c = [c]" using 2 by (simp add: utf8_cp_def)
    ultimately show ?thesis by (simp add: unplus_def)
  next
    case 3
    then have f: "form_cp c = concat (map pct (utf8_cp c))" unfolding form_cp_def by (simp only: if_False)
    have "\<forall>b \<in> set (utf8_cp c). 0 \<le> b \<and> b \<le> 255" using sc utf8_cp_bytes by blast
    then show ?thesis unfolding f by (simp only: map_unplus_pcts pct_bytes_pcts)
  qed
qed

lemma pct_bytes_form: "cps_of s = Some cs \<Longrightarrow> utf8_encode s = Some (pct_bytes (map unplus (form_encode s)))"
proof -
  assume cs: "cps_of s = Some cs"
  have "\<forall>c \<in> set cs. scalar c" using cps_of_units [OF cs] by simp
  then have "pct_bytes (map unplus (concat (map form_cp cs))) = concat (map utf8_cp cs)"
    by (induction cs) (simp_all add: pct_bytes_form_cp)
  then show ?thesis using cs by (simp add: utf8_encode_def form_encode_def cps_usv_eq)
qed

lemma form_codec_inject: "form_codec s = Some t \<Longrightarrow> form_codec s' = Some t \<Longrightarrow> s = s'"
  using pct_bytes_form utf8_encode_inject
  by (metis form_codec_def not_Some_eq option.inject option.distinct(1))

lemma form_cp_alphabet: "scalar c \<Longrightarrow> set (form_cp c) \<subseteq> insert 43 (insert 37 (set uri_unreserved))"
proof -
  assume sc: "scalar c"
  have "set (pct b) \<subseteq> insert 37 (set uri_unreserved)" if "b \<in> set (utf8_cp c)" for b
    using utf8_cp_bytes [OF sc that] by (intro pct_alphabet) simp_all
  then show ?thesis using form_unreserved_uri unfolding form_cp_def by (auto simp del: insert_iff)
qed

lemma scalar_cps_usv: "c \<in> set (cps_usv s) \<Longrightarrow> scalar c"
proof (induction s arbitrary: c rule: cps_usv.induct)
  case (2 u us)
  have r: "0 \<le> uint x" "uint x < 65536" for x :: unit16 using uint_bounded [of x] by simp_all
  have fffd: "scalar 0xFFFD" by (simp add: scalar_def)
  consider "is_low u" | "\<not> is_low u" "is_high u" "us = []"
    | v vs where "\<not> is_low u" "is_high u" "us = v # vs" "is_low v"
    | v vs where "\<not> is_low u" "is_high u" "us = v # vs" "\<not> is_low v"
    | "\<not> is_low u" "\<not> is_high u" by (cases us) auto
  then show ?case
  proof cases
    case 1
    then show ?thesis using 2(1) 2(5) fffd by auto
  next
    case 2
    then show ?thesis using "2.prems" fffd by auto
  next
    case (3 v vs)
    have "scalar (0x10000 + (uint u - 0xD800) * 1024 + (uint v - 0xDC00))"
      using 3(2,4) by (simp add: scalar_def is_low_def is_high_def)
    then show ?thesis using "2.prems" "2.IH"(2) [of v vs] 3 by auto
  next
    case (4 v vs)
    then show ?thesis using "2.prems" "2.IH"(3) [of v vs] fffd by auto
  next
    case 5
    then have "scalar (uint u)" using r [of u] by (auto simp: scalar_def is_low_def is_high_def)
    then show ?thesis using "2.prems" "2.IH"(4) 5 by auto
  qed
qed simp

lemma form_encode_alphabet: "set (form_encode s) \<subseteq> insert 43 (insert 37 (set uri_unreserved))"
  using form_cp_alphabet scalar_cps_usv by (fastforce simp: form_encode_def)

section \<open>The contract of an encoder\<close>

definition separators :: jsstring where
  "separators = js ''/?&=#''"

lemma separators_simp: "set separators = {47, 63, 38, 61, 35}"
  by (auto simp: separators_def js_def)

lemma unreserved_no_separator:
  "set separators \<inter> insert 43 (insert 37 (set uri_unreserved)) = {}"
  by (auto simp: separators_def uri_unreserved_def js_def)

locale segment_codec =
  fixes enc :: "jsstring \<Rightarrow> jsstring option"
  assumes enc_inject: "enc s = Some t \<Longrightarrow> enc s' = Some t \<Longrightarrow> s = s'"
    and enc_clean: "enc s = Some t \<Longrightarrow> set t \<inter> set separators = {}"
begin

lemma enc_no_sep: "enc s = Some t \<Longrightarrow> c \<in> set separators \<Longrightarrow> c \<notin> set t"
  using enc_clean by blast

text \<open>A path with an encoded segment determines the segment and what follows it.\<close>

lemma path_inject:
  assumes "enc s = Some t" "enc s' = Some t'" and eq: "base @ t @ rest = base @ t' @ rest'"
    and r: "rest = [] \<or> hd rest \<in> set separators" "rest' = [] \<or> hd rest' \<in> set separators"
  shows "s = s' \<and> rest = rest'"
proof -
  let ?P = "\<lambda>c. c \<notin> set separators"
  have tw: "takeWhile ?P (u @ v) = u" if "set u \<inter> set separators = {}" "v = [] \<or> hd v \<in> set separators"
    for u v
    using that by (cases v) (auto simp: takeWhile_append)
  have e: "t @ rest = t' @ rest'" using eq by simp
  have "t = t'" using tw [OF enc_clean [OF assms(1)] r(1)] tw [OF enc_clean [OF assms(2)] r(2)] e by simp
  then show ?thesis using e assms(1,2) enc_inject by simp
qed

text \<open>The server's split of the path at slashes finds the segment unchanged.\<close>

lemma path_segments:
  assumes "enc s = Some t" "(47 :: unit16) \<notin> set a"
  shows "split_on 47 (a @ 47 # t) = [a, t]"
proof -
  have "(47 :: unit16) \<notin> set t" using enc_no_sep [OF assms(1)] by (simp add: separators_simp)
  then show ?thesis using assms(2) by (simp add: split_on_append_sep split_on_no_sep)
qed

text \<open>Splitting the query at \<open>&\<close> and each part at \<open>=\<close> recovers names and encoded values.\<close>

lemma query_parts:
  assumes "\<forall>(k, v) \<in> set kvs. enc k \<noteq> None \<and> enc v \<noteq> None" "kvs \<noteq> []"
  shows "map (split_on 61) (split_on 38
      (join_with [38] (map (\<lambda>(k, v). the (enc k) @ 61 # the (enc v)) kvs))) =
    map (\<lambda>(k, v). [the (enc k), the (enc v)]) kvs"
  using assms
proof (induction kvs)
  case Nil
  then show ?case by simp
next
  case (Cons kv kvs)
  obtain k v where kv: "kv = (k, v)" by (cases kv)
  obtain k' v' where e: "enc k = Some k'" "enc v = Some v'" using Cons.prems kv by auto
  have c: "61 \<notin> set k'" "61 \<notin> set v'" "38 \<notin> set k'" "38 \<notin> set v'"
    using enc_no_sep [OF e(1)] enc_no_sep [OF e(2)] by (simp_all add: separators_simp)
  then have p: "split_on 61 (k' @ 61 # v') = [k', v']" "38 \<notin> set (k' @ 61 # v')"
    by (simp_all add: split_on_append_sep split_on_no_sep)
  show ?case
  proof (cases kvs)
    case Nil
    then show ?thesis using kv e p by (simp add: split_on_no_sep)
  next
    case (Cons kv2 kvs2)
    let ?f = "\<lambda>(k, v). the (enc k) @ 61 # the (enc v)"
    have "join_with [38] (map ?f (kv # kvs)) = (k' @ 61 # v') @ 38 # join_with [38] (map ?f kvs)"
      using Cons kv e by simp
    then show ?thesis using p Cons.IH Cons.prems kv e Cons
      by (simp add: split_on_append_sep del: append_assoc)
  qed
qed

end

interpretation uri: segment_codec encode_uri_component
proof unfold_locales
  show "encode_uri_component s = Some t \<Longrightarrow> encode_uri_component s' = Some t \<Longrightarrow> s = s'" for s s' t
    by (rule encode_uri_inject)
  show "encode_uri_component s = Some t \<Longrightarrow> set t \<inter> set separators = {}" for s t
    using encode_alphabet [of s t] unreserved_no_separator by blast
qed

interpretation form: segment_codec form_codec
proof unfold_locales
  show "form_codec s = Some t \<Longrightarrow> form_codec s' = Some t \<Longrightarrow> s = s'" for s s' t
    by (rule form_codec_inject)
  show "form_codec s = Some t \<Longrightarrow> set t \<inter> set separators = {}" for s t
    using form_encode_alphabet [of s] unreserved_no_separator
    by (auto simp: form_codec_def split: if_splits)
qed

lemma encode_js_plain:
  "list_all (\<lambda>u. u \<in> set uri_unreserved) s \<Longrightarrow> encode_uri_component s = Some s"
proof (induction s)
  case Nil
  then show ?case by (simp add: encode_uri_component_def)
next
  case (Cons u s)
  then have u: "u \<in> set uri_unreserved" "uint u < 0x80" using unreserved_units by auto
  then have "\<not> is_low u" "\<not> is_high u" by (auto simp: is_low_def is_high_def)
  moreover obtain cs where "cps_of s = Some cs" "concat (map encode_cp cs) = s"
    using Cons by (auto simp: encode_uri_component_def)
  ultimately show ?case using u by (simp add: encode_uri_component_def encode_cp_def)
qed

end
