(* ===== verification/Api.thy ===== *)
theory Api
  imports Client Urls
begin

text \<open>
  The typed endpoints of ui/src/api: tenants.ts, keys.ts, budgets.ts, routing.ts, analytics.ts,
  profiles.ts and conversations.ts. The interfaces are records (an optional property is an
  option); a request body is the JSON that JSON.stringify sends for the record, without the
  undefined properties. Each endpoint is the request it makes: a method, a URL and a body, or
  the URIError of encodeURIComponent.
\<close>

section \<open>Bodies and calls\<close>

text \<open>JSON.stringify writes a number that is not finite as null.\<close>

definition jnum :: "jsnum \<Rightarrow> json" where
  "jnum n = (if is_finite n then JNum n else JNull)"

definition jint :: "int \<Rightarrow> json" where
  "jint n = JNum (Fin (of_int n))"

definition opt_str :: "jsstring option \<Rightarrow> json option" where
  "opt_str v = map_option JStr v"

definition opt_strs :: "jsstring list option \<Rightarrow> json option" where
  "opt_strs v = map_option jstrs v"

definition opt_num :: "jsnum option \<Rightarrow> json option" where
  "opt_num v = map_option jnum v"

definition jdict :: "(jsstring \<times> jsstring) list \<Rightarrow> json" where
  "jdict kvs = JObj (map (\<lambda>(k, v). (k, JStr v)) kvs)"

type_synonym request = "js_error + http_request"

definition api_get :: "browser \<Rightarrow> jsstring \<Rightarrow> http_request" where
  "api_get b u = api_request b u \<lparr>opt_method = None, opt_body = None, opt_headers = []\<rparr>"

definition api_send :: "browser \<Rightarrow> jsstring \<Rightarrow> jsstring \<Rightarrow> json option \<Rightarrow> http_request" where
  "api_send b m u j = api_request b u \<lparr>opt_method = Some m, opt_body = j, opt_headers = []\<rparr>"

text \<open>A template literal with one encoded segment.\<close>

definition with_segment :: "jsstring \<Rightarrow> (jsstring \<Rightarrow> 'a) \<Rightarrow> js_error + 'a" where
  "with_segment s k = (case encode_uri_component s of None \<Rightarrow> Inl UriErr | Some t \<Rightarrow> Inr (k t))"

lemma api_get_simps [simp]:
  "verb (api_get b u) = js ''GET''" "url (api_get b u) = u" "body (api_get b u) = None"
  by (simp_all add: api_get_def api_request_def)

lemma api_send_simps [simp]: "verb (api_send b m u j) = m" "url (api_send b m u j) = u"
  by (simp_all add: api_send_def api_request_def)

lemma body_api_send [simp]:
  "body (api_send b m u (Some (JObj kvs))) = Some (JObj kvs)" "body (api_send b m u None) = None"
  by (simp_all add: api_send_def api_request_def)

section \<open>Tenants (tenants.ts)\<close>

definition tenants_base :: jsstring where
  "tenants_base = js ''/api/v1/tenants''"

record pii_rule =
  rule_label :: jsstring
  rule_type :: jsstring
  rule_pattern :: jsstring
  rule_action :: jsstring

record pii_config =
  pii_enabled :: bool
  pii_default_action :: jsstring
  pii_rules :: "pii_rule list"

record dictionary_item =
  dict_name :: jsstring
  dict_entries :: "json list"
  dict_match_mode :: jsstring

datatype retention_mode = RetFull | RetMeta | RetNone

record tenant_list_item =
  tl_slug :: jsstring
  tl_name :: jsstring
  tl_auth_header :: jsstring
  tl_pii_config :: "pii_config option"
  tl_retention_mode :: "retention_mode option"
  tl_created_at :: jsstring
  tl_updated_at :: jsstring

record tenant_response =
  tr_slug :: jsstring
  tr_name :: jsstring
  tr_auth_header :: jsstring
  tr_dictionaries :: "dictionary_item list option"
  tr_pii_config :: "pii_config option"
  tr_retention_mode :: "retention_mode option"
  tr_created_at :: jsstring
  tr_updated_at :: jsstring

record create_tenant_request =
  ct_slug :: jsstring
  ct_name :: jsstring
  ct_auth_header :: "jsstring option"
  ct_dictionaries :: "dictionary_item list option"
  ct_pii_config :: "pii_config option"
  ct_retention_mode :: "retention_mode option"

record update_tenant_request =
  ut_name :: jsstring
  ut_auth_header :: "jsstring option"
  ut_dictionaries :: "dictionary_item list option"
  ut_pii_config :: "pii_config option"
  ut_retention_mode :: "retention_mode option"

record compliance_rule =
  cr_detector_type :: jsstring
  cr_reaction :: jsstring
  cr_masking :: bool

record compliance_apply_result =
  ca_pack_key :: jsstring
  ca_rules :: "compliance_rule list"

datatype report_status = RepActive | RepDeviated | RepMissing

record compliance_report_rule =
  rr_detector_type :: jsstring
  rr_expected_reaction :: jsstring
  rr_actual_reaction :: "jsstring option"
  rr_masking :: bool
  rr_status :: report_status

record compliance_report =
  rep_pack_key :: jsstring
  rep_rules :: "compliance_report_rule list"

definition compliance_packs :: "jsstring list" where
  "compliance_packs = [js ''HIPAA'', js ''PCI DSS'', js ''GDPR'', js ''Legal'']"

definition retention_str :: "retention_mode \<Rightarrow> jsstring" where
  "retention_str m = (case m of RetFull \<Rightarrow> js ''full'' | RetMeta \<Rightarrow> js ''meta'' | RetNone \<Rightarrow> js ''none'')"

definition json_pii_rule :: "pii_rule \<Rightarrow> json" where
  "json_pii_rule r = JObj [(js ''label'', JStr (rule_label r)), (js ''type'', JStr (rule_type r)),
     (js ''pattern'', JStr (rule_pattern r)), (js ''action'', JStr (rule_action r))]"

definition json_pii_config :: "pii_config \<Rightarrow> json" where
  "json_pii_config c = JObj [(js ''enabled'', JBool (pii_enabled c)),
     (js ''default_action'', JStr (pii_default_action c)),
     (js ''rules'', JArr (map json_pii_rule (pii_rules c)))]"

definition json_dictionary :: "dictionary_item \<Rightarrow> json" where
  "json_dictionary d = JObj [(js ''name'', JStr (dict_name d)),
     (js ''entries'', JArr (dict_entries d)), (js ''match_mode'', JStr (dict_match_mode d))]"

definition json_create_tenant :: "create_tenant_request \<Rightarrow> json" where
  "json_create_tenant q = json_obj
    [(js ''slug'', Some (JStr (ct_slug q))), (js ''name'', Some (JStr (ct_name q))),
     (js ''auth_header'', opt_str (ct_auth_header q)),
     (js ''dictionaries'', map_option (\<lambda>ds. JArr (map json_dictionary ds)) (ct_dictionaries q)),
     (js ''pii_config'', map_option json_pii_config (ct_pii_config q)),
     (js ''retention_mode'', map_option (\<lambda>m. JStr (retention_str m)) (ct_retention_mode q))]"

definition json_update_tenant :: "update_tenant_request \<Rightarrow> json" where
  "json_update_tenant q = json_obj
    [(js ''name'', Some (JStr (ut_name q))), (js ''auth_header'', opt_str (ut_auth_header q)),
     (js ''dictionaries'', map_option (\<lambda>ds. JArr (map json_dictionary ds)) (ut_dictionaries q)),
     (js ''pii_config'', map_option json_pii_config (ut_pii_config q)),
     (js ''retention_mode'', map_option (\<lambda>m. JStr (retention_str m)) (ut_retention_mode q))]"

definition list_tenants :: "browser \<Rightarrow> http_request" where
  "list_tenants b = api_get b tenants_base"

definition get_tenant :: "browser \<Rightarrow> jsstring \<Rightarrow> request" where
  "get_tenant b slug = with_segment slug (\<lambda>t. api_get b (tenants_base @ js ''/'' @ t))"

definition create_tenant :: "browser \<Rightarrow> create_tenant_request \<Rightarrow> http_request" where
  "create_tenant b q = api_send b (js ''POST'') tenants_base (Some (json_create_tenant q))"

definition update_tenant :: "browser \<Rightarrow> jsstring \<Rightarrow> update_tenant_request \<Rightarrow> request" where
  "update_tenant b slug q = with_segment slug (\<lambda>t.
     api_send b (js ''PUT'') (tenants_base @ js ''/'' @ t) (Some (json_update_tenant q)))"

definition delete_tenant :: "browser \<Rightarrow> jsstring \<Rightarrow> request" where
  "delete_tenant b slug = with_segment slug (\<lambda>t.
     api_send b (js ''DELETE'') (tenants_base @ js ''/'' @ t) None)"

definition update_dictionaries :: "browser \<Rightarrow> jsstring \<Rightarrow> dictionary_item list \<Rightarrow> request" where
  "update_dictionaries b slug ds = with_segment slug (\<lambda>t.
     api_send b (js ''PUT'') (tenants_base @ js ''/'' @ t @ js ''/dictionaries'')
       (Some (JObj [(js ''dictionaries'', JArr (map json_dictionary ds))])))"

definition apply_compliance_pack :: "browser \<Rightarrow> jsstring \<Rightarrow> jsstring \<Rightarrow> request" where
  "apply_compliance_pack b slug pack = with_segment slug (\<lambda>t.
     api_send b (js ''POST'') (tenants_base @ js ''/'' @ t @ js ''/compliance/apply'')
       (Some (JObj [(js ''pack_key'', JStr pack)])))"

definition get_compliance_report :: "browser \<Rightarrow> jsstring \<Rightarrow> jsstring \<Rightarrow> request" where
  "get_compliance_report b slug pack =
    (case encode_uri_component slug of None \<Rightarrow> Inl UriErr
     | Some t \<Rightarrow> with_segment pack (\<lambda>p.
         api_get b (tenants_base @ js ''/'' @ t @ js ''/compliance/report?pack='' @ p)))"

section \<open>Virtual keys (keys.ts)\<close>

definition keys_base :: jsstring where
  "keys_base = js ''/api/v1/keys''"

record virtual_key =
  vk_id :: jsstring
  vk_tenant_id :: jsstring
  vk_label :: jsstring
  vk_allowed_models :: "jsstring list"
  vk_blocked_models :: "jsstring list"
  vk_budget_cap :: "jsnum option"
  vk_spent :: jsnum
  vk_expires_at :: "jsstring option"
  vk_metadata :: "(jsstring \<times> jsstring) list option"
  vk_enabled :: bool
  vk_created_at :: jsstring
  vk_updated_at :: jsstring

record create_key_request =
  ck_tenant_id :: jsstring
  ck_label :: "jsstring option"
  ck_allowed_models :: "jsstring list option"
  ck_blocked_models :: "jsstring list option"
  ck_budget_cap :: "jsnum option"
  ck_expires_at :: "jsstring option"
  ck_metadata :: "(jsstring \<times> jsstring) list option"

record update_key_request =
  uk_label :: "jsstring option"
  uk_allowed_models :: "jsstring list option"
  uk_blocked_models :: "jsstring list option"
  uk_budget_cap :: "jsnum option"
  uk_expires_at :: "jsstring option"
  uk_enabled :: "bool option"
  uk_metadata :: "(jsstring \<times> jsstring) list option"

record create_key_response = virtual_key +
  ckr_key :: jsstring

definition json_create_key :: "create_key_request \<Rightarrow> json" where
  "json_create_key q = json_obj
    [(js ''tenant_id'', Some (JStr (ck_tenant_id q))), (js ''label'', opt_str (ck_label q)),
     (js ''allowed_models'', opt_strs (ck_allowed_models q)),
     (js ''blocked_models'', opt_strs (ck_blocked_models q)),
     (js ''budget_cap'', opt_num (ck_budget_cap q)), (js ''expires_at'', opt_str (ck_expires_at q)),
     (js ''metadata'', map_option jdict (ck_metadata q))]"

definition json_update_key :: "update_key_request \<Rightarrow> json" where
  "json_update_key q = json_obj
    [(js ''label'', opt_str (uk_label q)), (js ''allowed_models'', opt_strs (uk_allowed_models q)),
     (js ''blocked_models'', opt_strs (uk_blocked_models q)),
     (js ''budget_cap'', opt_num (uk_budget_cap q)), (js ''expires_at'', opt_str (uk_expires_at q)),
     (js ''enabled'', map_option JBool (uk_enabled q)),
     (js ''metadata'', map_option jdict (uk_metadata q))]"

definition list_keys :: "browser \<Rightarrow> http_request" where
  "list_keys b = api_get b keys_base"

definition create_key :: "browser \<Rightarrow> create_key_request \<Rightarrow> http_request" where
  "create_key b q = api_send b (js ''POST'') keys_base (Some (json_create_key q))"

definition update_key :: "browser \<Rightarrow> jsstring \<Rightarrow> update_key_request \<Rightarrow> request" where
  "update_key b i q = with_segment i (\<lambda>t.
     api_send b (js ''PATCH'') (keys_base @ js ''/'' @ t) (Some (json_update_key q)))"

definition delete_key :: "browser \<Rightarrow> jsstring \<Rightarrow> request" where
  "delete_key b i = with_segment i (\<lambda>t. api_send b (js ''DELETE'') (keys_base @ js ''/'' @ t) None)"

section \<open>Budgets (budgets.ts)\<close>

definition budgets_base :: jsstring where
  "budgets_base = js ''/api/v1/budgets''"

record budget =
  bud_id :: jsstring
  bud_tenant_id :: jsstring
  bud_virtual_key_id :: jsstring
  bud_model :: jsstring
  bud_scope :: jsstring
  bud_type :: jsstring
  bud_custom_days :: jsnum
  bud_soft_limit :: "jsnum option"
  bud_hard_limit :: "jsnum option"
  bud_currency :: jsstring
  bud_notify_at :: "jsnum list"
  bud_enabled :: bool
  bud_spent :: jsnum
  bud_created_at :: jsstring
  bud_updated_at :: jsstring

record create_budget_request =
  cb_tenant_id :: jsstring
  cb_virtual_key_id :: "jsstring option"
  cb_model :: "jsstring option"
  cb_scope :: jsstring
  cb_type :: jsstring
  cb_custom_days :: "jsnum option"
  cb_soft_limit :: "jsnum option"
  cb_hard_limit :: "jsnum option"
  cb_currency :: "jsstring option"
  cb_notify_at :: "jsnum list option"

record update_budget_request =
  ub_virtual_key_id :: "jsstring option"
  ub_model :: "jsstring option"
  ub_scope :: "jsstring option"
  ub_type :: "jsstring option"
  ub_custom_days :: "jsnum option"
  ub_soft_limit :: "jsnum option"
  ub_hard_limit :: "jsnum option"
  ub_currency :: "jsstring option"
  ub_notify_at :: "jsnum list option"
  ub_enabled :: "bool option"

record spend_entry =
  sp_id :: jsstring
  sp_budget_id :: jsstring
  sp_virtual_key_id :: jsstring
  sp_tenant_id :: jsstring
  sp_model :: jsstring
  sp_cost :: jsnum
  sp_tokens :: jsnum
  sp_created_at :: jsstring

definition opt_nums :: "jsnum list option \<Rightarrow> json option" where
  "opt_nums v = map_option (\<lambda>ns. JArr (map jnum ns)) v"

definition json_create_budget :: "create_budget_request \<Rightarrow> json" where
  "json_create_budget q = json_obj
    [(js ''tenant_id'', Some (JStr (cb_tenant_id q))),
     (js ''virtual_key_id'', opt_str (cb_virtual_key_id q)), (js ''model'', opt_str (cb_model q)),
     (js ''scope'', Some (JStr (cb_scope q))), (js ''type'', Some (JStr (cb_type q))),
     (js ''custom_days'', opt_num (cb_custom_days q)),
     (js ''soft_limit'', opt_num (cb_soft_limit q)), (js ''hard_limit'', opt_num (cb_hard_limit q)),
     (js ''currency'', opt_str (cb_currency q)), (js ''notify_at'', opt_nums (cb_notify_at q))]"

definition json_update_budget :: "update_budget_request \<Rightarrow> json" where
  "json_update_budget q = json_obj
    [(js ''virtual_key_id'', opt_str (ub_virtual_key_id q)), (js ''model'', opt_str (ub_model q)),
     (js ''scope'', opt_str (ub_scope q)), (js ''type'', opt_str (ub_type q)),
     (js ''custom_days'', opt_num (ub_custom_days q)),
     (js ''soft_limit'', opt_num (ub_soft_limit q)), (js ''hard_limit'', opt_num (ub_hard_limit q)),
     (js ''currency'', opt_str (ub_currency q)), (js ''notify_at'', opt_nums (ub_notify_at q)),
     (js ''enabled'', map_option JBool (ub_enabled q))]"

definition list_budgets :: "browser \<Rightarrow> http_request" where
  "list_budgets b = api_get b budgets_base"

definition list_budgets_by_tenant :: "browser \<Rightarrow> jsstring \<Rightarrow> request" where
  "list_budgets_by_tenant b slug = with_segment slug (\<lambda>t.
     api_get b (budgets_base @ js ''/tenants/'' @ t))"

definition create_budget :: "browser \<Rightarrow> create_budget_request \<Rightarrow> http_request" where
  "create_budget b q = api_send b (js ''POST'') budgets_base (Some (json_create_budget q))"

definition update_budget :: "browser \<Rightarrow> jsstring \<Rightarrow> update_budget_request \<Rightarrow> request" where
  "update_budget b i q = with_segment i (\<lambda>t.
     api_send b (js ''PATCH'') (budgets_base @ js ''/'' @ t) (Some (json_update_budget q)))"

definition delete_budget :: "browser \<Rightarrow> jsstring \<Rightarrow> request" where
  "delete_budget b i = with_segment i (\<lambda>t.
     api_send b (js ''DELETE'') (budgets_base @ js ''/'' @ t) None)"

definition budget_history :: "browser \<Rightarrow> jsstring \<Rightarrow> request" where
  "budget_history b i = with_segment i (\<lambda>t. api_get b (budgets_base @ js ''/'' @ t @ js ''/history''))"

section \<open>Routing (routing.ts)\<close>

text \<open>The first three fields are absent only in the empty object the routing page casts to a
  provider when the operator adds one.\<close>

record provider =
  pv_name :: "jsstring option"
  pv_api_type :: "jsstring option"
  pv_base_url :: "jsstring option"
  pv_health_endpoint :: "jsstring option"
  pv_timeout :: "jsstring option"
  pv_priority :: "jsnum option"
  pv_api_keys :: "jsstring list option"
  pv_auth_scheme :: "jsstring option"
  pv_auth_header :: "jsstring option"
  pv_auth_prefix :: "jsstring option"
  pv_additional_headers :: "(jsstring \<times> jsstring) list option"
  pv_proxy_url :: "jsstring option"
  pv_aws_region :: "jsstring option"
  pv_aws_access_key_id :: "jsstring option"
  pv_aws_secret_access_key :: "jsstring option"
  pv_source :: "jsstring option"
  pv_status :: "jsstring option"
  pv_latency_ms :: "jsnum option"
  pv_last_check :: "jsnum option"

record route =
  rt_tenant :: jsstring
  rt_model :: jsstring
  rt_providers :: "jsstring list"
  rt_source :: "jsstring option"

record cost_rate =
  rate_model :: jsstring
  rate_input :: jsnum
  rate_output :: jsnum
  rate_currency :: jsstring
  rate_source :: "jsstring option"

definition routing_base :: jsstring where
  "routing_base = js ''/api/v1/routing''"

definition cost_base :: jsstring where
  "cost_base = js ''/api/v1/analytics/cost-rates''"

definition is_masked_key :: "jsstring option \<Rightarrow> bool" where
  "is_masked_key v = (case v of None \<Rightarrow> False | Some s \<Rightarrow> s \<noteq> [] \<and> str_includes s (js ''***''))"

text \<open>\<open>unwrap\<close>: the data property of an object that has one (its value may be null), any other
  value as it is.\<close>

definition unwrap :: "json \<Rightarrow> json" where
  "unwrap d = (case d of
      JObj kvs \<Rightarrow> (case map_of (rev kvs) (js ''data'') of None \<Rightarrow> d | Some v \<Rightarrow> v)
    | _ \<Rightarrow> d)"

definition list_result :: "jsstring \<Rightarrow> outcome \<Rightarrow> js_error + json" where
  "list_result u out = (case api_result u out of Inl e \<Rightarrow> Inl e | Inr d \<Rightarrow> Inr (unwrap d))"

definition json_provider :: "provider \<Rightarrow> json" where
  "json_provider p = json_obj
    [(js ''name'', opt_str (pv_name p)), (js ''api_type'', opt_str (pv_api_type p)),
     (js ''base_url'', opt_str (pv_base_url p)),
     (js ''health_endpoint'', opt_str (pv_health_endpoint p)), (js ''timeout'', opt_str (pv_timeout p)),
     (js ''priority'', opt_num (pv_priority p)), (js ''api_keys'', opt_strs (pv_api_keys p)),
     (js ''auth_scheme'', opt_str (pv_auth_scheme p)), (js ''auth_header'', opt_str (pv_auth_header p)),
     (js ''auth_prefix'', opt_str (pv_auth_prefix p)),
     (js ''additional_headers'', map_option jdict (pv_additional_headers p)),
     (js ''proxy_url'', opt_str (pv_proxy_url p)), (js ''aws_region'', opt_str (pv_aws_region p)),
     (js ''aws_access_key_id'', opt_str (pv_aws_access_key_id p)),
     (js ''aws_secret_access_key'', opt_str (pv_aws_secret_access_key p)),
     (js ''source'', opt_str (pv_source p)), (js ''status'', opt_str (pv_status p)),
     (js ''latency_ms'', opt_num (pv_latency_ms p)), (js ''last_check'', opt_num (pv_last_check p))]"

definition json_route :: "route \<Rightarrow> json" where
  "json_route r = json_obj
    [(js ''tenant'', Some (JStr (rt_tenant r))), (js ''model'', Some (JStr (rt_model r))),
     (js ''providers'', Some (jstrs (rt_providers r))), (js ''source'', opt_str (rt_source r))]"

definition json_cost_rate :: "cost_rate \<Rightarrow> json" where
  "json_cost_rate c = json_obj
    [(js ''model'', Some (JStr (rate_model c))), (js ''input_price_per_1k'', Some (jnum (rate_input c))),
     (js ''output_price_per_1k'', Some (jnum (rate_output c))),
     (js ''currency'', Some (JStr (rate_currency c))), (js ''source'', opt_str (rate_source c))]"

definition list_providers :: "browser \<Rightarrow> http_request" where
  "list_providers b = api_get b (routing_base @ js ''/providers'')"

definition upsert_provider :: "browser \<Rightarrow> provider \<Rightarrow> http_request" where
  "upsert_provider b p =
     api_send b (js ''PUT'') (routing_base @ js ''/providers'') (Some (json_provider p))"

definition delete_provider :: "browser \<Rightarrow> jsstring \<Rightarrow> request" where
  "delete_provider b n = with_segment n (\<lambda>t.
     api_send b (js ''DELETE'') (routing_base @ js ''/providers/'' @ t) None)"

definition list_routes :: "browser \<Rightarrow> http_request" where
  "list_routes b = api_get b (routing_base @ js ''/routes'')"

definition upsert_route :: "browser \<Rightarrow> route \<Rightarrow> http_request" where
  "upsert_route b r = api_send b (js ''PUT'') (routing_base @ js ''/routes'') (Some (json_route r))"

definition delete_route :: "browser \<Rightarrow> route \<Rightarrow> http_request" where
  "delete_route b r = api_send b (js ''DELETE'') (routing_base @ js ''/routes'')
     (Some (JObj [(js ''tenant'', JStr (rt_tenant r)), (js ''model'', JStr (rt_model r)),
       (js ''providers'', jstrs (rt_providers r))]))"

definition list_cost_rates :: "browser \<Rightarrow> http_request" where
  "list_cost_rates b = api_get b cost_base"

definition upsert_cost_rate :: "browser \<Rightarrow> cost_rate \<Rightarrow> http_request" where
  "upsert_cost_rate b c = api_send b (js ''PUT'') cost_base (Some (json_cost_rate c))"

definition delete_cost_rate :: "browser \<Rightarrow> jsstring \<Rightarrow> request" where
  "delete_cost_rate b m = with_segment m (\<lambda>t. api_send b (js ''DELETE'') (cost_base @ js ''/'' @ t) None)"

section \<open>Analytics (analytics.ts)\<close>

record token_record =
  tok_tenant_id :: jsstring
  tok_model :: jsstring
  tok_total_input :: jsnum
  tok_total_output :: jsnum
  tok_period_start :: jsstring
  tok_period_end :: jsstring

record cost_record =
  cost_tenant_id :: jsstring
  cost_model :: jsstring
  cost_total :: jsnum
  cost_request_count :: jsnum
  cost_currency :: "jsstring option"
  cost_period_start :: jsstring
  cost_period_end :: jsstring

record series_point =
  sr_bucket :: jsstring
  sr_input_tokens :: jsnum
  sr_output_tokens :: jsnum
  sr_cost :: jsnum
  sr_requests :: jsnum

record tokens_result =
  tokens_records :: "token_record list"
  tokens_total_input :: jsnum
  tokens_total_output :: jsnum

record cost_result =
  costs_records :: "cost_record list"
  costs_total :: jsnum
  costs_requests :: jsnum

definition analytics_base :: jsstring where
  "analytics_base = js ''/api/v1/analytics''"

definition with_tenant :: "jsstring \<Rightarrow> jsstring option \<Rightarrow> js_error + jsstring" where
  "with_tenant base tenant = (case tenant of None \<Rightarrow> Inr base
     | Some t \<Rightarrow> if t = [] then Inr base
         else with_segment t (\<lambda>e.
           base @ (if str_includes base (js ''?'') then js ''&'' else js ''?'') @ js ''tenant='' @ e))"

definition analytics_url :: "jsstring \<Rightarrow> jsstring \<Rightarrow> jsstring \<Rightarrow> jsstring option \<Rightarrow> js_error + jsstring" where
  "analytics_url path frm to tenant =
    (case encode_uri_component frm of None \<Rightarrow> Inl UriErr
     | Some f \<Rightarrow> (case encode_uri_component to of None \<Rightarrow> Inl UriErr
        | Some t \<Rightarrow> with_tenant (analytics_base @ path @ js ''?from='' @ f @ js ''&to='' @ t) tenant))"

definition get_analytics_tokens :: "browser \<Rightarrow> jsstring \<Rightarrow> jsstring \<Rightarrow> jsstring option \<Rightarrow> request" where
  "get_analytics_tokens b frm to tenant =
     map_sum id (api_get b) (analytics_url (js ''/tokens'') frm to tenant)"

definition get_analytics_cost :: "browser \<Rightarrow> jsstring \<Rightarrow> jsstring \<Rightarrow> jsstring option \<Rightarrow> request" where
  "get_analytics_cost b frm to tenant =
     map_sum id (api_get b) (analytics_url (js ''/cost'') frm to tenant)"

definition get_analytics_series :: "browser \<Rightarrow> jsstring \<Rightarrow> jsstring \<Rightarrow> jsstring option \<Rightarrow> request" where
  "get_analytics_series b frm to tenant =
     map_sum id (api_get b) (analytics_url (js ''/timeseries'') frm to tenant)"

section \<open>Conversations (conversations.ts)\<close>

record conversation_item =
  cv_id :: jsstring
  cv_tenant_id :: jsstring
  cv_model :: jsstring
  cv_status :: jsstring
  cv_masked :: bool
  cv_streamed :: bool
  cv_mask_id :: "jsstring option"
  cv_created_at :: jsstring

record conversation_payload =
  pl_request :: jsstring
  pl_response :: "jsstring option"
  pl_masking :: "jsstring option"

record conversation_detail = conversation_item +
  cv_payload :: conversation_payload

record conversation_filters =
  cf_tenant_id :: "jsstring option"
  cf_status :: "jsstring option"
  cf_model :: "jsstring option"
  cf_masked :: "jsstring option"

definition conversations_base :: jsstring where
  "conversations_base = js ''/api/v1/conversations''"

text \<open>\<open>if (v) params.set(k, v)\<close>\<close>

definition set_if :: "jsstring \<Rightarrow> jsstring option \<Rightarrow> (jsstring \<times> jsstring) list \<Rightarrow> (jsstring \<times> jsstring) list" where
  "set_if k v ps = (case v of None \<Rightarrow> ps | Some s \<Rightarrow> if s = [] then ps else param_set k s ps)"

definition conversation_params :: "int \<Rightarrow> int \<Rightarrow> conversation_filters \<Rightarrow> (jsstring \<times> jsstring) list" where
  "conversation_params pg per f =
     set_if (js ''masked'') (cf_masked f) (set_if (js ''model'') (cf_model f)
       (set_if (js ''status'') (cf_status f) (set_if (js ''tenant_id'') (cf_tenant_id f)
         [(js ''page'', int_str pg), (js ''per_page'', int_str per)])))"

text \<open>These two calls use fetch directly: no Authorization header, only the cookie.\<close>

definition plain_get :: "jsstring \<Rightarrow> bool \<Rightarrow> http_request" where
  "plain_get u cookie =
     \<lparr>verb = js ''GET'', url = u, headers = [], body = None, credentials = cookie\<rparr>"

definition list_conversations :: "int \<Rightarrow> int \<Rightarrow> conversation_filters \<Rightarrow> http_request" where
  "list_conversations pg per f =
     plain_get (conversations_base @ js ''?'' @ form_string (conversation_params pg per f)) True"

definition get_conversation :: "jsstring \<Rightarrow> request" where
  "get_conversation i = with_segment i (\<lambda>t. plain_get (conversations_base @ js ''/'' @ t) True)"

record 'p conversation_list =
  cl_items :: json
  cl_pagination :: 'p

definition list_conversations_result :: "int \<Rightarrow> int \<Rightarrow> outcome \<Rightarrow> js_error + json conversation_list" where
  "list_conversations_result pg per out = (case out of
      NetFail \<Rightarrow> Inl fetch_failed
    | Resp r \<Rightarrow>
        if \<not> resp_ok r then Inl (GenErr (js ''failed to load conversations''))
        else (case read_json r of Inl e \<Rightarrow> Inl e
          | Inr b \<Rightarrow> (case get_prop (js ''data'') b of Inl e \<Rightarrow> Inl e
             | Inr d \<Rightarrow> (case get_prop (js ''pagination'') b of Inl e \<Rightarrow> Inl e
                | Inr p \<Rightarrow> Inr
                   \<lparr>cl_items = nullish_json
                      (case d of Some (JObj kvs) \<Rightarrow> map_of (rev kvs) (js ''items'') | _ \<Rightarrow> None) (JArr []),
                    cl_pagination = nullish_json p (JObj [(js ''page'', jint pg),
                      (js ''per_page'', jint per), (js ''total'', jint 0)])\<rparr>))))"

definition get_conversation_result :: "outcome \<Rightarrow> js_error + json" where
  "get_conversation_result out = (case out of
      NetFail \<Rightarrow> Inl fetch_failed
    | Resp r \<Rightarrow>
        if \<not> resp_ok r then Inl (GenErr (js ''failed to load conversation''))
        else (case read_json r of Inl e \<Rightarrow> Inl e | Inr b \<Rightarrow> unwrap_data b))"

section \<open>Profiles (profiles.ts)\<close>

record profile_list_item =
  pf_slug :: jsstring
  pf_name :: jsstring
  pf_status :: jsstring

datatype match_mode = MExact | MContains | MRegex | MFuzzy

record dictionary_dto =
  dd_name :: jsstring
  dd_entries :: "jsstring list"
  dd_match_mode :: match_mode

datatype mask_mode = MaskFull | MaskSurname

record preprocessor_rule =
  ppr_columns :: "jsstring list option"
  ppr_path :: "jsstring option"
  ppr_mask :: mask_mode

record preprocessor_def =
  pp_name :: jsstring
  pp_type :: jsstring
  pp_rules :: "preprocessor_rule list"

record create_profile_request =
  cp_slug :: jsstring
  cp_name :: jsstring
  cp_description :: "jsstring option"
  cp_dictionaries :: "dictionary_dto list option"
  cp_preprocessors :: "preprocessor_def list option"

record update_profile_request =
  up_name :: "jsstring option"
  up_description :: "jsstring option"
  up_dictionaries :: "dictionary_dto list option"
  up_preprocessors :: "preprocessor_def list option"

definition profiles_base :: jsstring where
  "profiles_base = js ''/api/v1/profiles''"

definition match_mode_str :: "match_mode \<Rightarrow> jsstring" where
  "match_mode_str m = (case m of MExact \<Rightarrow> js ''exact'' | MContains \<Rightarrow> js ''contains''
     | MRegex \<Rightarrow> js ''regex'' | MFuzzy \<Rightarrow> js ''fuzzy'')"

definition mask_mode_str :: "mask_mode \<Rightarrow> jsstring" where
  "mask_mode_str m = (case m of MaskFull \<Rightarrow> js ''full'' | MaskSurname \<Rightarrow> js ''surname'')"

definition json_dictionary_dto :: "dictionary_dto \<Rightarrow> json" where
  "json_dictionary_dto d = JObj [(js ''name'', JStr (dd_name d)), (js ''entries'', jstrs (dd_entries d)),
     (js ''match_mode'', JStr (match_mode_str (dd_match_mode d)))]"

definition json_preprocessor :: "preprocessor_def \<Rightarrow> json" where
  "json_preprocessor p = JObj [(js ''name'', JStr (pp_name p)), (js ''type'', JStr (pp_type p)),
     (js ''rules'', JArr (map (\<lambda>r. json_obj [(js ''columns'', opt_strs (ppr_columns r)),
        (js ''path'', opt_str (ppr_path r)),
        (js ''mask'', Some (JStr (mask_mode_str (ppr_mask r))))]) (pp_rules p)))]"

definition json_create_profile :: "create_profile_request \<Rightarrow> json" where
  "json_create_profile q = json_obj
    [(js ''slug'', Some (JStr (cp_slug q))), (js ''name'', Some (JStr (cp_name q))),
     (js ''description'', opt_str (cp_description q)),
     (js ''dictionaries'', map_option (\<lambda>ds. JArr (map json_dictionary_dto ds)) (cp_dictionaries q)),
     (js ''preprocessors'', map_option (\<lambda>ps. JArr (map json_preprocessor ps)) (cp_preprocessors q))]"

definition json_update_profile :: "update_profile_request \<Rightarrow> json" where
  "json_update_profile q = json_obj
    [(js ''name'', opt_str (up_name q)), (js ''description'', opt_str (up_description q)),
     (js ''dictionaries'', map_option (\<lambda>ds. JArr (map json_dictionary_dto ds)) (up_dictionaries q)),
     (js ''preprocessors'', map_option (\<lambda>ps. JArr (map json_preprocessor ps)) (up_preprocessors q))]"

definition profile_send :: "jsstring \<Rightarrow> jsstring \<Rightarrow> json option \<Rightarrow> http_request" where
  "profile_send m u j = \<lparr>verb = m, url = u,
     headers = (case j of None \<Rightarrow> [] | Some _ \<Rightarrow> [(js ''Content-Type'', js ''application/json'')]),
     body = j, credentials = False\<rparr>"

definition list_profiles :: "int \<Rightarrow> int \<Rightarrow> http_request" where
  "list_profiles pg per =
     plain_get (profiles_base @ js ''?page='' @ int_str pg @ js ''&page_size='' @ int_str per) False"

definition get_profile :: "jsstring \<Rightarrow> request" where
  "get_profile slug = with_segment slug (\<lambda>t. plain_get (profiles_base @ js ''/'' @ t) False)"

definition create_profile :: "create_profile_request \<Rightarrow> http_request" where
  "create_profile q = profile_send (js ''POST'') profiles_base (Some (json_create_profile q))"

definition update_profile :: "jsstring \<Rightarrow> update_profile_request \<Rightarrow> request" where
  "update_profile slug q = with_segment slug (\<lambda>t.
     profile_send (js ''PUT'') (profiles_base @ js ''/'' @ t) (Some (json_update_profile q)))"

definition delete_profile :: "jsstring \<Rightarrow> request" where
  "delete_profile slug = with_segment slug (\<lambda>t.
     profile_send (js ''DELETE'') (profiles_base @ js ''/'' @ t) None)"

text \<open>The error classes of this module carry the server's message and the slug.\<close>

datatype profile_error =
    ProfileApiError int json
  | ProfileNotFound jsstring
  | ProfileFailure js_error

definition profile_error_message :: "profile_error \<Rightarrow> json option" where
  "profile_error_message e = (case e of
      ProfileApiError _ b \<Rightarrow> (case get_prop (js ''error'') b of Inr v \<Rightarrow> v | Inl _ \<Rightarrow> None)
    | ProfileNotFound slug \<Rightarrow>
        Some (JStr (js ''Profile '' @ [34] @ slug @ [34] @ js '' not found''))
    | ProfileFailure e' \<Rightarrow> Some (JStr (error_message e')))"

text \<open>\<open>new ApiError(status, err)\<close> reads \<open>err.error\<close>, which throws when err is null.\<close>

definition profile_rejection :: "http_response \<Rightarrow> profile_error" where
  "profile_rejection r = (case read_json r of Inl e \<Rightarrow> ProfileFailure e
     | Inr b \<Rightarrow> (case get_prop (js ''error'') b of
         Inl e \<Rightarrow> ProfileFailure e | Inr _ \<Rightarrow> ProfileApiError (status r) b))"

text \<open>Common shape of the five calls: \<open>slug\<close> is the one a 404 names, \<open>reads\<close> whether the body of
  a successful response is returned.\<close>

definition profile_result :: "jsstring option \<Rightarrow> bool \<Rightarrow> outcome \<Rightarrow> profile_error + json option" where
  "profile_result slug reads out = (case out of
      NetFail \<Rightarrow> Inl (ProfileFailure fetch_failed)
    | Resp r \<Rightarrow>
        if \<not> resp_ok r then
          (case slug of
             Some s \<Rightarrow> if status r = 404 then Inl (ProfileNotFound s) else Inl (profile_rejection r)
           | None \<Rightarrow> Inl (profile_rejection r))
        else if reads then (case read_json r of Inl e \<Rightarrow> Inl (ProfileFailure e) | Inr b \<Rightarrow> Inr (Some b))
        else Inr None)"

definition list_profiles_result :: "outcome \<Rightarrow> profile_error + json option" where
  "list_profiles_result = profile_result None True"

definition get_profile_result :: "jsstring \<Rightarrow> outcome \<Rightarrow> profile_error + json option" where
  "get_profile_result slug = profile_result (Some slug) True"

definition create_profile_result :: "outcome \<Rightarrow> profile_error + json option" where
  "create_profile_result = profile_result None True"

definition update_profile_result :: "jsstring \<Rightarrow> outcome \<Rightarrow> profile_error + json option" where
  "update_profile_result slug = profile_result (Some slug) True"

definition delete_profile_result :: "jsstring \<Rightarrow> outcome \<Rightarrow> profile_error + json option" where
  "delete_profile_result slug = profile_result (Some slug) False"

end
