(* ===== verification/ApiFacts.thy ===== *)
theory ApiFacts
  imports Api
begin

text \<open>
  What the endpoints promise: reading a request URL back as the server does (path split at
  slashes, query split at \<open>&\<close> and \<open>=\<close>, escapes decoded) gives the values the caller passed,
  for every value that is well-formed UTF-16; and the lists behind one or two data envelopes
  are unwrapped.
\<close>

section \<open>Reading URLs back\<close>

definition url_path :: "jsstring \<Rightarrow> jsstring" where
  "url_path u = takeWhile (\<lambda>c. c \<noteq> 63) u"

definition url_query :: "jsstring \<Rightarrow> jsstring" where
  "url_query u = drop 1 (dropWhile (\<lambda>c. c \<noteq> 63) u)"

definition read_path :: "jsstring \<Rightarrow> int list list" where
  "read_path u = map pct_bytes (split_on 47 (url_path u))"

definition read_query :: "jsstring \<Rightarrow> int list list list" where
  "read_query u = map (\<lambda>p. map pct_bytes (split_on 61 p)) (split_on 38 (url_query u))"

definition read_form :: "jsstring \<Rightarrow> int list list list" where
  "read_form u = map (\<lambda>p. map (\<lambda>x. pct_bytes (map unplus x)) (split_on 61 p)) (split_on 38 (url_query u))"

definition bytes :: "string \<Rightarrow> int list" where
  "bytes s = map uint (js s)"

definition api_prefix :: "string \<Rightarrow> int list list" where
  "api_prefix s = [[], bytes ''api'', bytes ''v1'', bytes s]"

lemma encode_of_utf8:
  assumes "utf8_encode s = Some bs"
  obtains t where "encode_uri_component s = Some t" "pct_bytes t = bs"
proof -
  have "cps_of s \<noteq> None" using assms by (auto simp: utf8_encode_def)
  then obtain t where t: "encode_uri_component s = Some t" using encode_uri_total by blast
  with pct_bytes_encode [OF t] assms that show thesis by simp
qed

lemma clean_units:
  assumes "encode_uri_component s = Some t"
  shows "47 \<notin> set t" "63 \<notin> set t" "38 \<notin> set t" "61 \<notin> set t"
  using uri.enc_no_sep [OF assms] by (simp_all add: separators_simp)

lemma takeWhile_no: "c \<notin> set t \<Longrightarrow> takeWhile (\<lambda>x. x \<noteq> c) (t @ s) = t @ takeWhile (\<lambda>x. x \<noteq> c) s"
  by (induction t) auto

lemma dropWhile_no: "c \<notin> set t \<Longrightarrow> dropWhile (\<lambda>x. x \<noteq> c) (t @ s) = dropWhile (\<lambda>x. x \<noteq> c) s"
  by (induction t) auto

lemma takeWhile_none: "c \<notin> set t \<Longrightarrow> takeWhile (\<lambda>x. x \<noteq> c) t = t"
  using takeWhile_no [of c t "[]"] by simp

lemmas read_url_simps = takeWhile_none read_path_def read_query_def url_path_def url_query_def api_prefix_def bytes_def
  js_def takeWhile_no dropWhile_no split_on_append_sep split_on_no_sep

lemma tenant_path:
  assumes e: "encode_uri_component s = Some t" and r: "rest = [] \<or> hd rest = 47"
  shows "read_path (tenants_base @ js ''/'' @ t @ rest) =
    api_prefix ''tenants'' @ pct_bytes t # (if rest = [] then [] else read_path (drop 1 rest))"
proof (cases rest)
  case Nil
  then show ?thesis using clean_units [OF e]
    by (simp add: read_url_simps tenants_base_def)
next
  case (Cons c cs)
  then have "c = 47" using r by simp
  then show ?thesis using clean_units [OF e] Cons by (simp add: read_url_simps tenants_base_def)
qed

lemma query_one:
  "63 \<notin> set p \<Longrightarrow> 38 \<notin> set k \<Longrightarrow> 61 \<notin> set k \<Longrightarrow> 38 \<notin> set v \<Longrightarrow> 61 \<notin> set v \<Longrightarrow>
   read_query (p @ 63 # k @ 61 # v) = [[pct_bytes k, pct_bytes v]]"
  using dropWhile_no [of 63 p "63 # k @ 61 # v"] split_on_no_sep [of 38 "k @ 61 # v"]
  by (simp add: read_query_def url_query_def split_on_append_sep split_on_no_sep)


lemma utf8_plain:
  "list_all (\<lambda>u. uint u < 128) s \<Longrightarrow> utf8_encode s = Some (map uint s)"
proof (induction s)
  case (Cons u s)
  then have "\<not> is_low u" "\<not> is_high u" by (auto simp: is_low_def is_high_def)
  moreover obtain cs where "cps_of s = Some cs" "concat (map utf8_cp cs) = map uint s"
    using Cons by (auto simp: utf8_encode_def)
  ultimately show ?case using Cons.prems by (simp add: utf8_encode_def utf8_cp_def)
qed (simp add: utf8_encode_def)


section \<open>Query strings\<close>

lemma read_query_join:
  assumes "\<forall>p \<in> set ps. 38 \<notin> set p" "ps \<noteq> []" "63 \<notin> set u"
  shows "read_query (u @ 63 # join_with [38] ps) = map (\<lambda>p. map pct_bytes (split_on 61 p)) ps"
proof -
  have "split_on 38 (join_with [38] ps) = ps" if "\<forall>p \<in> set ps. 38 \<notin> set p" "ps \<noteq> []"
    for ps :: "jsstring list"
    using that
  proof (induction ps)
    case (Cons p qs)
    then show ?case by (cases qs) (simp_all add: split_on_append_sep split_on_no_sep)
  qed simp
  then show ?thesis using assms dropWhile_no [of 63 u] by (simp add: read_query_def url_query_def)
qed

text \<open>The analytics URLs read back as their arguments: from and to, and the tenant when one
  is selected (an empty tenant selects none), each as one parameter of the query.\<close>

theorem analytics_url_reads_back:
  assumes "utf8_encode frm = Some fb" "utf8_encode to = Some tb" "utf8_encode tenant = Some nb"
    and "63 \<notin> set path"
  shows "\<exists>u u'. analytics_url path frm to None = Inr u \<and> analytics_url path frm to (Some tenant) = Inr u' \<and>
    url_path u = analytics_base @ path \<and> url_path u' = analytics_base @ path \<and>
    read_query u = [[bytes ''from'', fb], [bytes ''to'', tb]] \<and>
    read_query u' = [[bytes ''from'', fb], [bytes ''to'', tb]] @
      (if tenant = [] then [] else [[bytes ''tenant'', nb]])"
proof -
  obtain f where f: "encode_uri_component frm = Some f" "pct_bytes f = fb"
    using assms(1) by (rule encode_of_utf8)
  obtain t where t: "encode_uri_component to = Some t" "pct_bytes t = tb"
    using assms(2) by (rule encode_of_utf8)
  obtain n where n: "encode_uri_component tenant = Some n" "pct_bytes n = nb"
    using assms(3) by (rule encode_of_utf8)
  note clean = clean_units [OF f(1)] clean_units [OF t(1)] clean_units [OF n(1)]
  let ?p = "analytics_base @ path"
  let ?u = "?p @ 63 # join_with [38] [js ''from='' @ f, js ''to='' @ t]"
  let ?v = "?p @ 63 # join_with [38] [js ''from='' @ f, js ''to='' @ t, js ''tenant='' @ n]"
  have p: "63 \<notin> set ?p" using assms(4) by (simp add: analytics_base_def js_def)
  have inc: "str_includes (analytics_base @ path @ js ''?from='' @ f @ js ''&to='' @ t) (js ''?'')"
  proof -
    have "analytics_base @ path @ js ''?from='' @ f @ js ''&to='' @ t =
      (analytics_base @ path) @ js ''?'' @ (js ''from='' @ f @ js ''&to='' @ t)" by (simp add: js_def)
    then show ?thesis unfolding includes_iff by metis
  qed
  have uq: "read_query ?u = [[bytes ''from'', fb], [bytes ''to'', tb]]"
    using clean f(2) t(2) by (subst read_query_join) (use p in \<open>auto simp: read_url_simps\<close>)
  have vq: "read_query ?v = [[bytes ''from'', fb], [bytes ''to'', tb], [bytes ''tenant'', nb]]"
    using clean f(2) t(2) n(2) by (subst read_query_join) (use p in \<open>auto simp: read_url_simps\<close>)
  have up: "url_path (?p @ 63 # s) = ?p" for s
    using takeWhile_no [OF p] by (simp add: url_path_def)
  have e1: "analytics_url path frm to None = Inr ?u"
    using f(1) t(1) by (simp add: analytics_url_def with_tenant_def js_def)
  have e2: "analytics_url path frm to (Some tenant) = Inr (if tenant = [] then ?u else ?v)"
    using f(1) t(1) n(1) inc by (simp add: analytics_url_def with_tenant_def with_segment_def js_def)
  show ?thesis using e1 e2 uq vq up by (auto simp del: join_with.simps)
qed

theorem analytics_url_reads_back_witness:
  "\<exists>u. analytics_url (js ''/tokens'') (js ''2026-01-01'') (js ''2026-01-31'') (Some (js ''a&b'')) = Inr u \<and>
     read_query u = [[bytes ''from'', bytes ''2026-01-01''], [bytes ''to'', bytes ''2026-01-31''],
       [bytes ''tenant'', bytes ''a&b'']]"
proof -
  have "utf8_encode (js ''2026-01-01'') = Some (bytes ''2026-01-01'')"
    "utf8_encode (js ''2026-01-31'') = Some (bytes ''2026-01-31'')"
    "utf8_encode (js ''a&b'') = Some (bytes ''a&b'')"
    unfolding bytes_def by (rule utf8_plain; simp add: js_def)+
  moreover have "63 \<notin> set (js ''/tokens'')" by (simp add: js_def)
  ultimately show ?thesis using analytics_url_reads_back by fastforce
qed

subsection \<open>The conversation list\<close>

lemma form_of_utf8:
  assumes "utf8_encode s = Some bs"
  shows "form_codec s = Some (form_encode s)" "pct_bytes (map unplus (form_encode s)) = bs"
proof -
  obtain cs where cs: "cps_of s = Some cs" using assms by (auto simp: utf8_encode_def)
  then show "form_codec s = Some (form_encode s)" by (simp add: form_codec_def)
  show "pct_bytes (map unplus (form_encode s)) = bs" using pct_bytes_form [OF cs] assms by simp
qed

lemma read_form_string:
  assumes "\<forall>(k, v) \<in> set kvs. utf8_encode k \<noteq> None \<and> utf8_encode v \<noteq> None" "kvs \<noteq> []" "63 \<notin> set u"
  shows "read_form (u @ 63 # form_string kvs) =
    map (\<lambda>(k, v). [the (utf8_encode k), the (utf8_encode v)]) kvs"
proof -
  have c: "form_codec k = Some (form_encode k)" "form_codec v = Some (form_encode v)"
    if "(k, v) \<in> set kvs" for k v
    using assms(1) that form_of_utf8(1) by fastforce+
  then have eq: "map (\<lambda>(k, v). the (form_codec k) @ 61 # the (form_codec v)) kvs =
      map (\<lambda>(k, v). form_encode k @ 61 # form_encode v) kvs"
    and eq2: "map (\<lambda>(k, v). [the (form_codec k), the (form_codec v)]) kvs =
      map (\<lambda>(k, v). [form_encode k, form_encode v]) kvs"
    and all: "\<forall>(k, v) \<in> set kvs. form_codec k \<noteq> None \<and> form_codec v \<noteq> None"
    by (auto intro!: map_cong)
  have "map (split_on 61) (split_on 38 (form_string kvs)) =
      map (\<lambda>(k, v). [form_encode k, form_encode v]) kvs"
    using form.query_parts [OF all assms(2)] unfolding eq eq2 form_string_def .
  then have "map (map (\<lambda>x. pct_bytes (map unplus x))) (map (split_on 61) (split_on 38 (form_string kvs))) =
      map (map (\<lambda>x. pct_bytes (map unplus x))) (map (\<lambda>(k, v). [form_encode k, form_encode v]) kvs)"
    by simp
  moreover have "pct_bytes (map unplus (form_encode k)) = the (utf8_encode k)"
    "pct_bytes (map unplus (form_encode v)) = the (utf8_encode v)" if "(k, v) \<in> set kvs" for k v
    using assms(1) that form_of_utf8(2) by fastforce+
  ultimately show ?thesis using dropWhile_no [OF assms(3)]
    by (auto simp: read_form_def url_query_def comp_def intro!: map_cong)
qed

text \<open>The filters that are set, in the order the code sets them.\<close>

definition active_filters :: "conversation_filters \<Rightarrow> (jsstring \<times> jsstring) list" where
  "active_filters f = List.map_filter (\<lambda>(k, v). if truthy_str v then Some (js k, the v) else None)
     [(''tenant_id'', cf_tenant_id f), (''status'', cf_status f), (''model'', cf_model f),
      (''masked'', cf_masked f)]"

lemma set_if_fresh: "k \<notin> fst ` set ps \<Longrightarrow>
  set_if k v ps = ps @ (if truthy_str v then [(k, the v)] else [])"
proof -
  have "k \<notin> fst ` set ps \<Longrightarrow> param_set k s ps = ps @ [(k, s)]" for s
    by (induction ps) auto
  then show "k \<notin> fst ` set ps \<Longrightarrow> ?thesis" by (auto simp: set_if_def truthy_str_def split: option.split)
qed

lemma conversation_params_eq:
  "conversation_params pg per f =
     [(js ''page'', int_str pg), (js ''per_page'', int_str per)] @ active_filters f"
  unfolding conversation_params_def active_filters_def
  by (subst set_if_fresh, force simp: set_if_fresh)+
     (simp add: set_if_fresh map_filter_simps)

lemma utf8_int_str: "utf8_encode (int_str n) \<noteq> None"
proof -
  have "uint u < 128" if "u \<in> set (digits k)" "0 \<le> k" for u k
    using digits_is_digit [OF that(2,1)] by (simp add: is_digit_uint)
  then have "list_all (\<lambda>u. uint u < 128) (int_str n)"
    by (auto simp: int_str_def list_all_iff js_def)
  then show ?thesis using utf8_plain by fastforce
qed

lemma utf8_keys:
  "utf8_encode (js ''page'') = Some (bytes ''page'')"
  "utf8_encode (js ''per_page'') = Some (bytes ''per_page'')"
  "utf8_encode (js ''tenant_id'') = Some (bytes ''tenant_id'')"
  "utf8_encode (js ''status'') = Some (bytes ''status'')"
  "utf8_encode (js ''model'') = Some (bytes ''model'')"
  "utf8_encode (js ''masked'') = Some (bytes ''masked'')"
  unfolding bytes_def by (rule utf8_plain; simp add: js_def)+

text \<open>C21. The query of the conversation list reads back (as a form) as the page, the page size
  and exactly the filters that are not empty, whatever text they hold.\<close>

theorem list_conversations_reads_back:
  assumes "\<forall>(k, v) \<in> set (active_filters f). utf8_encode v \<noteq> None"
  shows "read_form (url (list_conversations pg per f)) =
    [[bytes ''page'', the (utf8_encode (int_str pg))], [bytes ''per_page'', the (utf8_encode (int_str per))]] @
    map (\<lambda>(k, v). [the (utf8_encode k), the (utf8_encode v)]) (active_filters f)"
proof -
  let ?ps = "conversation_params pg per f"
  have keys: "utf8_encode k \<noteq> None" if "(k, v) \<in> set (active_filters f)" for k v
    using that by (auto simp: active_filters_def map_filter_simps utf8_keys split: if_splits)
  obtain x y where "utf8_encode (int_str pg) = Some x" "utf8_encode (int_str per) = Some y"
    using utf8_int_str by fastforce
  then have all: "\<forall>(k, v) \<in> set ?ps. utf8_encode k \<noteq> None \<and> utf8_encode v \<noteq> None"
    using assms keys by (auto simp: conversation_params_eq utf8_keys)
  have ne: "?ps \<noteq> []" and q: "63 \<notin> set conversations_base"
    by (simp_all add: conversation_params_eq conversations_base_def js_def)
  have "url (list_conversations pg per f) = conversations_base @ 63 # form_string ?ps"
    by (simp add: list_conversations_def plain_get_def js_def)
  then show ?thesis
    by (simp only: read_form_string [OF all ne q]) (simp add: conversation_params_eq utf8_keys)
qed

theorem list_conversations_reads_back_witness:
  "read_form (url (list_conversations 1 20
      \<lparr>cf_tenant_id = None, cf_status = Some (js ''ok & done''), cf_model = Some [], cf_masked = None\<rparr>)) =
    [[bytes ''page'', bytes ''1''], [bytes ''per_page'', bytes ''20''],
     [bytes ''status'', bytes ''ok & done'']]"
proof -
  let ?f = "\<lparr>cf_tenant_id = None, cf_status = Some (js ''ok & done''), cf_model = Some [], cf_masked = None\<rparr>"
  have a: "active_filters ?f = [(js ''status'', js ''ok & done'')]"
    by (simp add: active_filters_def map_filter_simps)
  have n: "int_str 1 = js ''1''" "int_str 20 = js ''20''" by code_simp+
  have u: "utf8_encode (js ''ok & done'') = Some (bytes ''ok & done'')"
    "utf8_encode (js ''1'') = Some (bytes ''1'')" "utf8_encode (js ''20'') = Some (bytes ''20'')"
    unfolding bytes_def by (rule utf8_plain; simp add: js_def)+
  show ?thesis
    using list_conversations_reads_back [of ?f 1 20] unfolding a n by (simp add: u utf8_keys)
qed

section \<open>Data envelopes\<close>

text \<open>A list that the server sends bare, in one data envelope or in two (the handler's own
  and the middleware's) reaches the routing page as the same array.\<close>

theorem list_result_unwraps_envelopes:
  assumes "body' \<in> {JArr xs, JObj [(js ''data'', JArr xs), (js ''error'', JNull)],
     JObj [(js ''data'', JObj [(js ''data'', JArr xs)]), (js ''error'', JNull)]}"
    and "200 \<le> s" "s \<le> 299"
  shows "list_result u (Resp \<lparr>status = s, payload = Some body'\<rparr>) = Inr (JArr xs)"
  using assms by (auto simp: list_result_def api_result_def resp_ok_def read_json_def
      nullish_json_def unwrap_def)

theorem list_result_unwraps_envelopes_witness:
  "list_result (js ''/x'') (Resp \<lparr>status = 200, payload =
     Some (JObj [(js ''data'', JObj [(js ''data'', JArr [JNull])]), (js ''error'', JNull)])\<rparr>) =
   Inr (JArr [JNull])"
  by (rule list_result_unwraps_envelopes) simp_all

end
