(* ===== verification/Async.thy ===== *)
theory Async
  imports Prelude
begin

text \<open>
  Asynchronous handlers. The console's components are React functions whose handlers are
  async functions over useState cells. A handler is modelled as an \<open>act\<close>: state updates
  (setX calls), outputs (toasts, navigation, callback props), awaited requests whose
  continuation receives the response, and calls of an async function that are not awaited. What stands between two awaits runs atomically, as it
  does on the JavaScript event loop; the values a handler reads before an await are those of
  the render that created it, which are ordinary bound variables of the \<open>act\<close>.

  A mounted component is a \<open>sys\<close>: its state, its outputs so far and the handlers suspended at
  an await. A step fires an event the user interface offers or answers one of the pending
  requests, in any order. Two contracts over such systems are stated as locales: an
  invariant of the component's state, and a busy flag that keeps an exclusive request from
  being in flight twice.
\<close>

datatype ('s, 'o, 'q, 'r) act =
    Done
  | Upd "'s \<Rightarrow> 's" "('s, 'o, 'q, 'r) act"
  | Emit 'o "('s, 'o, 'q, 'r) act"
  | Await 'q "'r \<Rightarrow> ('s, 'o, 'q, 'r) act"
  | Fork "('s, 'o, 'q, 'r) act" "('s, 'o, 'q, 'r) act"

type_synonym ('s, 'o, 'q, 'r) task = "'q \<times> ('r \<Rightarrow> ('s, 'o, 'q, 'r) act)"

text \<open>\<open>await f(); rest\<close> for an f that never throws.\<close>

primrec and_then :: "('s, 'o, 'q, 'r) act \<Rightarrow> ('s, 'o, 'q, 'r) act \<Rightarrow> ('s, 'o, 'q, 'r) act" where
  "and_then Done b = b"
| "and_then (Upd f a) b = Upd f (and_then a b)"
| "and_then (Emit x a) b = Emit x (and_then a b)"
| "and_then (Await q k) b = Await q (\<lambda>r. and_then (k r) b)"
| "and_then (Fork c a) b = Fork c (and_then a b)"

text \<open>Run one handler up to its next await.\<close>

primrec advance :: "('s, 'o, 'q, 'r) act \<Rightarrow> 's \<Rightarrow> 's \<times> 'o list \<times> ('s, 'o, 'q, 'r) task list" where
  "advance Done s = (s, [], [])"
| "advance (Upd f a) s = advance a (f s)"
| "advance (Emit x a) s = (case advance a s of (s', os, ts) \<Rightarrow> (s', x # os, ts))"
| "advance (Await q k) s = (s, [], [(q, k)])"
| "advance (Fork c a) s = (case advance c s of (s1, os1, ts1) \<Rightarrow>
     (case advance a s1 of (s2, os2, ts2) \<Rightarrow> (s2, os1 @ os2, ts1 @ ts2)))"

text \<open>Run one handler alone against a script of responses: final state, outputs, the requests
  it made and whether it ran to its end.\<close>

primrec run :: "('s, 'o, 'q, 'r) act \<Rightarrow> 's \<Rightarrow> 'r list \<Rightarrow> 's \<times> 'o list \<times> 'q list \<times> bool" where
  "run Done s rs = (s, [], [], True)"
| "run (Upd f a) s rs = run a (f s) rs"
| "run (Emit x a) s rs = (case run a s rs of (s', os, qs, d) \<Rightarrow> (s', x # os, qs, d))"
| "run (Await q k) s rs = (case rs of [] \<Rightarrow> (s, [], [q], False)
     | r # rs' \<Rightarrow> (case run (k r) s rs' of (s', os, qs, d) \<Rightarrow> (s', os, q # qs, d)))"
| "run (Fork c a) s rs = (case run c s rs of (s1, os1, qs1, d1) \<Rightarrow>
     (case run a s1 (drop (length qs1) rs) of (s2, os2, qs2, d2) \<Rightarrow> (s2, os1 @ os2, qs1 @ qs2, d1 \<and> d2)))"

lemma and_then_Done [simp]: "and_then a Done = a"
  by (induction a) auto

lemma and_then_assoc: "and_then (and_then a b) c = and_then a (and_then b c)"
  by (induction a) auto

section \<open>Mounted components\<close>

record ('s, 'o, 'q, 'r) sys =
  ui :: 's
  outs :: "'o list"
  tasks :: "('s, 'o, 'q, 'r) task list"

definition mount :: "'s \<Rightarrow> ('s, 'o, 'q, 'r) sys" where
  "mount s = \<lparr>ui = s, outs = [], tasks = []\<rparr>"

definition resume :: "('s, 'o, 'q, 'r) act \<Rightarrow> ('s, 'o, 'q, 'r) sys \<Rightarrow>
    ('s, 'o, 'q, 'r) task list \<Rightarrow> ('s, 'o, 'q, 'r) task list \<Rightarrow> ('s, 'o, 'q, 'r) sys" where
  "resume a m before after = (case advance a (ui m) of (s', os, ts) \<Rightarrow>
     \<lparr>ui = s', outs = outs m @ os, tasks = before @ ts @ after\<rparr>)"

inductive sys_step :: "('e \<Rightarrow> 's \<Rightarrow> ('s, 'o, 'q, 'r) act) \<Rightarrow> ('e \<Rightarrow> 's \<Rightarrow> bool) \<Rightarrow>
    ('q \<Rightarrow> 'r \<Rightarrow> bool) \<Rightarrow> ('s, 'o, 'q, 'r) sys \<Rightarrow> ('s, 'o, 'q, 'r) sys \<Rightarrow> bool"
  for handler enabled adm where
  fire: "enabled e (ui m) \<Longrightarrow>
     sys_step handler enabled adm m (resume (handler e (ui m)) m (tasks m) [])"
| reply: "tasks m = before @ (q, k) # after \<Longrightarrow> adm q r \<Longrightarrow>
     sys_step handler enabled adm m (resume (k r) m before after)"

inductive sys_reach :: "('e \<Rightarrow> 's \<Rightarrow> ('s, 'o, 'q, 'r) act) \<Rightarrow> ('e \<Rightarrow> 's \<Rightarrow> bool) \<Rightarrow>
    ('q \<Rightarrow> 'r \<Rightarrow> bool) \<Rightarrow> ('s, 'o, 'q, 'r) sys \<Rightarrow> ('s, 'o, 'q, 'r) sys \<Rightarrow> bool"
  for handler enabled adm m0 where
  start: "sys_reach handler enabled adm m0 m0"
| step: "sys_reach handler enabled adm m0 m \<Longrightarrow> sys_step handler enabled adm m m' \<Longrightarrow>
     sys_reach handler enabled adm m0 m'"

inductive_cases sys_stepE: "sys_step handler enabled adm m m'"

subsection \<open>Executable schedules\<close>

datatype ('e, 'r) move = Fire 'e | Answer nat 'r

fun do_move :: "('e \<Rightarrow> 's \<Rightarrow> ('s, 'o, 'q, 'r) act) \<Rightarrow> ('e \<Rightarrow> 's \<Rightarrow> bool) \<Rightarrow>
    ('q \<Rightarrow> 'r \<Rightarrow> bool) \<Rightarrow> ('e, 'r) move \<Rightarrow> ('s, 'o, 'q, 'r) sys \<Rightarrow> ('s, 'o, 'q, 'r) sys option" where
  "do_move handler enabled adm (Fire e) m =
     (if enabled e (ui m) then Some (resume (handler e (ui m)) m (tasks m) []) else None)"
| "do_move handler enabled adm (Answer i r) m =
     (case drop i (tasks m) of [] \<Rightarrow> None
      | (q, k) # after \<Rightarrow>
          if adm q r then Some (resume (k r) m (take i (tasks m)) after) else None)"

fun do_moves :: "('e \<Rightarrow> 's \<Rightarrow> ('s, 'o, 'q, 'r) act) \<Rightarrow> ('e \<Rightarrow> 's \<Rightarrow> bool) \<Rightarrow>
    ('q \<Rightarrow> 'r \<Rightarrow> bool) \<Rightarrow> ('e, 'r) move list \<Rightarrow> ('s, 'o, 'q, 'r) sys \<Rightarrow> ('s, 'o, 'q, 'r) sys option" where
  "do_moves handler enabled adm [] m = Some m"
| "do_moves handler enabled adm (x # xs) m =
     (case do_move handler enabled adm x m of None \<Rightarrow> None
      | Some m' \<Rightarrow> do_moves handler enabled adm xs m')"

lemma do_move_step: "do_move handler enabled adm x m = Some m' \<Longrightarrow> sys_step handler enabled adm m m'"
proof (cases x)
  case (Fire e)
  assume "do_move handler enabled adm x m = Some m'"
  then show ?thesis using Fire by (auto split: if_splits intro: sys_step.fire)
next
  case (Answer i r)
  assume d: "do_move handler enabled adm x m = Some m'"
  show ?thesis
  proof (cases "drop i (tasks m)")
    case Nil
    then show ?thesis using d Answer by simp
  next
    case (Cons t after)
    obtain q k where t: "t = (q, k)" by (cases t)
    have "tasks m = take i (tasks m) @ (q, k) # after" using Cons t by (metis append_take_drop_id)
    then show ?thesis using d Answer Cons t by (auto split: if_splits intro: sys_step.reply)
  qed
qed

lemma do_moves_reach:
  "sys_reach handler enabled adm m0 m \<Longrightarrow> do_moves handler enabled adm xs m = Some m' \<Longrightarrow>
   sys_reach handler enabled adm m0 m'"
proof (induction xs arbitrary: m)
  case (Cons x xs)
  then show ?case by (auto split: option.splits intro: sys_reach.step dest: do_move_step)
qed simp

lemmas schedule_reach = do_moves_reach [OF sys_reach.start]

section \<open>Contract: an invariant of a component's state\<close>

text \<open>Every segment of the handler, entered in a state that satisfies the invariant, leaves one
  that does; \<open>f\<close> is the composition of the updates since the segment began.\<close>

primrec keeps :: "('s, 'o, 'q, 'r) act \<Rightarrow> ('s \<Rightarrow> bool) \<Rightarrow> ('q \<Rightarrow> 'r \<Rightarrow> bool) \<Rightarrow> ('s \<Rightarrow> 's) \<Rightarrow> bool" where
  "keeps Done ok adm f \<longleftrightarrow> (\<forall>s. ok s \<longrightarrow> ok (f s))"
| "keeps (Upd g a) ok adm f \<longleftrightarrow> keeps a ok adm (\<lambda>s. g (f s))"
| "keeps (Emit x a) ok adm f \<longleftrightarrow> keeps a ok adm f"
| "keeps (Await q k) ok adm f \<longleftrightarrow>
     (\<forall>s. ok s \<longrightarrow> ok (f s)) \<and> (\<forall>r. adm q r \<longrightarrow> keeps (k r) ok adm (\<lambda>s. s))"
| "keeps (Fork c a) ok adm f \<longleftrightarrow> keeps c ok adm f \<and> keeps a ok adm (\<lambda>s. s)"

definition task_keeps :: "('s \<Rightarrow> bool) \<Rightarrow> ('q \<Rightarrow> 'r \<Rightarrow> bool) \<Rightarrow> ('s, 'o, 'q, 'r) task \<Rightarrow> bool" where
  "task_keeps ok adm t \<longleftrightarrow> (\<forall>r. adm (fst t) r \<longrightarrow> keeps (snd t r) ok adm (\<lambda>s. s))"

lemma keeps_advance:
  "keeps a ok adm f \<Longrightarrow> ok s \<Longrightarrow> advance a (f s) = (s', os, ts) \<Longrightarrow>
   ok s' \<and> (\<forall>t \<in> set ts. task_keeps ok adm t)"
proof (induction a arbitrary: f s s' os ts)
  case (Fork c a)
  obtain s1 os1 ts1 where c: "advance c (f s) = (s1, os1, ts1)" by (cases "advance c (f s)")
  obtain s2 os2 ts2 where a: "advance a s1 = (s2, os2, ts2)" by (cases "advance a s1")
  have "ok s1 \<and> (\<forall>t \<in> set ts1. task_keeps ok adm t)" using Fork.IH(1) [of f s s1 os1 ts1] Fork.prems(1,2) c by simp
  moreover from this have "ok s2 \<and> (\<forall>t \<in> set ts2. task_keeps ok adm t)"
    using Fork.IH(2) [of "\<lambda>s. s" s1 s2 os2 ts2] Fork.prems(1) a by simp
  ultimately show ?case using Fork.prems(3) c a by auto
qed (auto simp: task_keeps_def split: prod.splits)

lemma keeps_and_then:
  "keeps a ok adm f \<Longrightarrow> keeps b ok adm (\<lambda>s. s) \<Longrightarrow> (\<And>g. (\<forall>s. ok s \<longrightarrow> ok (g s)) \<Longrightarrow> keeps b ok adm g) \<Longrightarrow>
   keeps (and_then a b) ok adm f"
  by (induction a arbitrary: f) auto

lemma keeps_after_update:
  "keeps a ok adm f \<Longrightarrow> \<forall>s. ok s \<longrightarrow> ok (g s) \<Longrightarrow> keeps a ok adm (\<lambda>s. f (g s))"
  by (induction a arbitrary: f) auto

locale page_invariant =
  fixes handler :: "'e \<Rightarrow> 's \<Rightarrow> ('s, 'o, 'q, 'r) act"
    and enabled :: "'e \<Rightarrow> 's \<Rightarrow> bool"
    and adm :: "'q \<Rightarrow> 'r \<Rightarrow> bool"
    and init :: 's
    and ok :: "'s \<Rightarrow> bool"
  assumes inv_init: "ok init"
    and inv_handler: "ok s \<Longrightarrow> enabled e s \<Longrightarrow> keeps (handler e s) ok adm (\<lambda>s. s)"
begin

definition sys_inv :: "('s, 'o, 'q, 'r) sys \<Rightarrow> bool" where
  "sys_inv m \<longleftrightarrow> ok (ui m) \<and> (\<forall>t \<in> set (tasks m). task_keeps ok adm t)"

lemma resume_inv:
  assumes "keeps a ok adm (\<lambda>s. s)" and "ok (ui m)"
    and "\<forall>t \<in> set (bs @ as). task_keeps ok adm t"
  shows "sys_inv (resume a m bs as)"
proof -
  obtain s' os ts where adv: "advance a (ui m) = (s', os, ts)" by (cases "advance a (ui m)")
  then show ?thesis using keeps_advance [OF assms(1,2), of s' os ts] assms(3)
    by (auto simp: resume_def sys_inv_def)
qed

lemma step_inv: "sys_step handler enabled adm m m' \<Longrightarrow> sys_inv m \<Longrightarrow> sys_inv m'"
proof (induction rule: sys_step.induct)
  case (fire e m)
  then show ?case by (intro resume_inv) (auto simp: sys_inv_def intro: inv_handler)
next
  case (reply m bs q k as r)
  then have "task_keeps ok adm (q, k)" by (auto simp: sys_inv_def)
  with reply show ?case by (intro resume_inv) (auto simp: sys_inv_def task_keeps_def)
qed

lemma reach_sys_inv: "sys_reach handler enabled adm (mount init) m \<Longrightarrow> sys_inv m"
proof (induction rule: sys_reach.induct)
  case start
  then show ?case by (simp add: sys_inv_def mount_def inv_init)
next
  case (step m m')
  then show ?case by (blast intro: step_inv)
qed

lemma reach_inv: "sys_reach handler enabled adm (mount init) m \<Longrightarrow> ok (ui m)"
  using reach_sys_inv by (simp add: sys_inv_def)

end

section \<open>Contract: a busy flag\<close>

text \<open>A handler is quiet when it neither changes the flag nor makes an exclusive request;
  holding when the flag is set until it clears it (after that it is quiet); acquiring when
  it sets the flag before its first request. With \<open>must\<close>, a holding handler has to clear the
  flag before it ends.\<close>

primrec quiet :: "('s, 'o, 'q, 'r) act \<Rightarrow> ('s \<Rightarrow> bool) \<Rightarrow> ('q \<Rightarrow> bool) \<Rightarrow> bool" where
  "quiet Done fl ex \<longleftrightarrow> True"
| "quiet (Upd f a) fl ex \<longleftrightarrow> (\<forall>s. fl (f s) = fl s) \<and> quiet a fl ex"
| "quiet (Emit x a) fl ex \<longleftrightarrow> quiet a fl ex"
| "quiet (Await q k) fl ex \<longleftrightarrow> \<not> ex q \<and> (\<forall>r. quiet (k r) fl ex)"
| "quiet (Fork c a) fl ex \<longleftrightarrow> quiet c fl ex \<and> quiet a fl ex"

primrec holding :: "('s, 'o, 'q, 'r) act \<Rightarrow> bool \<Rightarrow> ('s \<Rightarrow> bool) \<Rightarrow> ('q \<Rightarrow> bool) \<Rightarrow> bool" where
  "holding Done must fl ex \<longleftrightarrow> \<not> must"
| "holding (Upd f a) must fl ex \<longleftrightarrow>
     (\<forall>s. fl (f s) = fl s) \<and> holding a must fl ex \<or> (\<forall>s. \<not> fl (f s)) \<and> quiet a fl ex"
| "holding (Emit x a) must fl ex \<longleftrightarrow> holding a must fl ex"
| "holding (Await q k) must fl ex \<longleftrightarrow> (\<forall>r. holding (k r) must fl ex)"
| "holding (Fork c a) must fl ex \<longleftrightarrow> False"

primrec acquiring :: "('s, 'o, 'q, 'r) act \<Rightarrow> bool \<Rightarrow> ('s \<Rightarrow> bool) \<Rightarrow> ('q \<Rightarrow> bool) \<Rightarrow> bool" where
  "acquiring Done must fl ex \<longleftrightarrow> True"
| "acquiring (Upd f a) must fl ex \<longleftrightarrow>
     (\<forall>s. fl (f s)) \<and> holding a must fl ex \<or> (\<forall>s. fl (f s) = fl s) \<and> acquiring a must fl ex"
| "acquiring (Emit x a) must fl ex \<longleftrightarrow> acquiring a must fl ex"
| "acquiring (Await q k) must fl ex \<longleftrightarrow> False"
| "acquiring (Fork c a) must fl ex \<longleftrightarrow> False"

definition task_quiet :: "('s \<Rightarrow> bool) \<Rightarrow> ('q \<Rightarrow> bool) \<Rightarrow> ('s, 'o, 'q, 'r) task \<Rightarrow> bool" where
  "task_quiet fl ex t \<longleftrightarrow> \<not> ex (fst t) \<and> (\<forall>r. quiet (snd t r) fl ex)"

definition task_holding :: "bool \<Rightarrow> ('s \<Rightarrow> bool) \<Rightarrow> ('q \<Rightarrow> bool) \<Rightarrow> ('s, 'o, 'q, 'r) task \<Rightarrow> bool" where
  "task_holding must fl ex t \<longleftrightarrow> (\<forall>r. holding (snd t r) must fl ex)"

definition holders :: "('s \<Rightarrow> bool) \<Rightarrow> ('q \<Rightarrow> bool) \<Rightarrow> ('s, 'o, 'q, 'r) task list \<Rightarrow> nat" where
  "holders fl ex ts = length (filter (\<lambda>t. \<not> task_quiet fl ex t) ts)"

definition held :: "bool \<Rightarrow> ('s \<Rightarrow> bool) \<Rightarrow> ('q \<Rightarrow> bool) \<Rightarrow> 's \<Rightarrow> ('s, 'o, 'q, 'r) task list \<Rightarrow> bool" where
  "held must fl ex s ts \<longleftrightarrow>
     (\<forall>t \<in> set ts. task_quiet fl ex t \<or> task_holding must fl ex t) \<and> holders fl ex ts \<le> 1 \<and>
     (holders fl ex ts = 1 \<longrightarrow> fl s) \<and> (must \<and> fl s \<longrightarrow> holders fl ex ts = 1)"

lemma holders_simps [simp]:
  "holders fl ex [] = 0"
  "holders fl ex (t # ts) = (if task_quiet fl ex t then 0 else 1) + holders fl ex ts"
  "holders fl ex (ts @ us) = holders fl ex ts + holders fl ex us"
  by (simp_all add: holders_def)

lemma holders_quiet: "list_all (task_quiet fl ex) ts \<Longrightarrow> holders fl ex ts = 0"
  by (auto simp: holders_def list_all_iff filter_empty_conv)

lemma exclusive_le_holders: "length (filter (\<lambda>t. ex (fst t)) ts) \<le> holders fl ex ts"
  by (induction ts) (auto simp: task_quiet_def)

text \<open>A handler that must clear a flag that can be set is not quiet.\<close>

lemma holding_not_quiet: "holding a True fl ex \<Longrightarrow> quiet a fl ex \<Longrightarrow> \<not> fl s"
  by (induction a) auto

lemma task_holding_not_quiet: "task_holding True fl ex t \<Longrightarrow> fl s \<Longrightarrow> \<not> task_quiet fl ex t"
  using holding_not_quiet by (force simp: task_holding_def task_quiet_def)

lemma quiet_advance:
  "quiet a fl ex \<Longrightarrow> advance a s = (s', os, ts) \<Longrightarrow>
   fl s' = fl s \<and> list_all (task_quiet fl ex) ts"
proof (induction a arbitrary: s s' os ts)
  case (Fork c a)
  obtain s1 os1 ts1 where c: "advance c s = (s1, os1, ts1)" by (cases "advance c s")
  obtain s2 os2 ts2 where a: "advance a s1 = (s2, os2, ts2)" by (cases "advance a s1")
  show ?case using Fork.IH(1) [OF _ c] Fork.IH(2) [OF _ a] Fork.prems c a by auto
qed (auto simp: task_quiet_def split: prod.splits)

lemma holding_advance:
  "holding a must fl ex \<Longrightarrow> fl s \<Longrightarrow> advance a s = (s', os, ts) \<Longrightarrow>
   (\<not> fl s' \<or> \<not> must) \<and> list_all (task_quiet fl ex) ts
   \<or> fl s' \<and> (\<exists>t. ts = [t] \<and> task_holding must fl ex t)"
proof (induction a arbitrary: s os)
  case (Upd f a)
  then show ?case using quiet_advance [of a fl ex "f s" s' os ts] by auto
qed (auto simp: task_holding_def split: prod.splits)

lemma acquiring_advance:
  "acquiring a must fl ex \<Longrightarrow> \<not> fl s \<Longrightarrow> advance a s = (s', os, ts) \<Longrightarrow>
   (\<not> fl s' \<or> \<not> must) \<and> list_all (task_quiet fl ex) ts
   \<or> fl s' \<and> (\<exists>t. ts = [t] \<and> task_holding must fl ex t)"
proof (induction a arbitrary: s os)
  case (Upd f a)
  then show ?case using holding_advance [of a must fl ex "f s" s' os ts] by auto
qed (auto split: prod.splits)

lemma quiet_and_then: "quiet a fl ex \<Longrightarrow> quiet b fl ex \<Longrightarrow> quiet (and_then a b) fl ex"
  by (induction a) auto

locale busy_flag =
  fixes handler :: "'e \<Rightarrow> 's \<Rightarrow> ('s, 'o, 'q, 'r) act"
    and enabled :: "'e \<Rightarrow> 's \<Rightarrow> bool"
    and adm :: "'q \<Rightarrow> 'r \<Rightarrow> bool"
    and init :: 's
    and fl :: "'s \<Rightarrow> bool"
    and ex :: "'q \<Rightarrow> bool"
    and must :: bool
  assumes flag_init: "\<not> fl init"
    and flag_handler: "enabled e s \<Longrightarrow>
      quiet (handler e s) fl ex \<or> \<not> fl s \<and> acquiring (handler e s) must fl ex"
begin

lemma outcome_held:
  assumes q: "\<forall>t \<in> set us. task_quiet fl ex t \<or> task_holding must fl ex t" and z: "holders fl ex us = 0"
    and out: "(\<not> fl s' \<or> \<not> must) \<and> list_all (task_quiet fl ex) ts
      \<or> fl s' \<and> (\<exists>t. ts = [t] \<and> task_holding must fl ex t)"
    and us: "set us' = set us \<union> set ts" "holders fl ex us' = holders fl ex us + holders fl ex ts"
  shows "held must fl ex s' us'"
  using out
proof
  assume "(\<not> fl s' \<or> \<not> must) \<and> list_all (task_quiet fl ex) ts"
  then show ?thesis using q z us holders_quiet [of fl ex ts] by (auto simp: held_def list_all_iff)
next
  assume "fl s' \<and> (\<exists>t. ts = [t] \<and> task_holding must fl ex t)"
  then obtain t where "fl s'" "ts = [t]" "task_holding must fl ex t" by blast
  then show ?thesis using q z us task_holding_not_quiet [of fl ex t s']
    by (cases must) (auto simp: held_def)
qed

lemma held_reply:
  assumes h: "held must fl ex s (bs @ (q, k) # as)" and adv: "advance (k r) s = (s', os, ts)"
  shows "held must fl ex s' (bs @ ts @ as)"
proof (cases "task_quiet fl ex (q, k)")
  case True
  then have "quiet (k r) fl ex" by (simp add: task_quiet_def)
  from quiet_advance [OF this adv] show ?thesis
    using h True holders_quiet [of fl ex ts] by (auto simp: held_def list_all_iff)
next
  case False
  with h have "fl s" "task_holding must fl ex (q, k)" "holders fl ex (bs @ as) = 0"
    by (auto simp: held_def)
  moreover from this(2) have "holding (k r) must fl ex" by (simp add: task_holding_def)
  moreover note holding_advance [OF this \<open>fl s\<close> adv]
  ultimately show ?thesis using h by (intro outcome_held [of "bs @ as" s' ts]) (auto simp: held_def)
qed

lemma held_fire:
  assumes h: "held must fl ex s us" and en: "enabled e s"
    and adv: "advance (handler e s) s = (s', os, ts)"
  shows "held must fl ex s' (us @ ts)"
proof (cases "quiet (handler e s) fl ex")
  case True
  from quiet_advance [OF this adv] show ?thesis
    using h holders_quiet [of fl ex ts] by (auto simp: held_def list_all_iff)
next
  case False
  with flag_handler [OF en] have a: "\<not> fl s" "acquiring (handler e s) must fl ex" by auto
  from acquiring_advance [OF a(2,1) adv] show ?thesis
    using h a(1) by (intro outcome_held [of us s' ts]) (auto simp: held_def)
qed

lemma reach_held:
  "sys_reach handler enabled adm (mount init) m \<Longrightarrow> held must fl ex (ui m) (tasks m)"
proof (induction rule: sys_reach.induct)
  case start
  then show ?case by (simp add: held_def mount_def flag_init)
next
  case (step m m')
  from step.hyps(2) show ?case
  proof (cases rule: sys_step.cases)
    case (fire e)
    then show ?thesis using held_fire [OF step.IH, of e] by (auto simp: resume_def split: prod.splits)
  next
    case (reply bs q k as r)
    then show ?thesis using held_reply [of "ui m" bs q k as] step.IH
      by (auto simp: resume_def split: prod.splits)
  qed
qed

text \<open>The exclusive request is never in flight twice; and while the flag must be cleared by its
  handler, a set flag means that exactly one such handler is still waiting.\<close>

lemma at_most_one:
  assumes "sys_reach handler enabled adm (mount init) m"
  shows "length (filter (\<lambda>t. ex (fst t)) (tasks m)) \<le> 1"
    and "(\<exists>t \<in> set (tasks m). ex (fst t)) \<longrightarrow> fl (ui m)"
proof -
  note h = reach_held [OF assms]
  have le: "length (filter (\<lambda>t. ex (fst t)) (tasks m)) \<le> holders fl ex (tasks m)"
    by (rule exclusive_le_holders)
  with h show "length (filter (\<lambda>t. ex (fst t)) (tasks m)) \<le> 1" by (simp add: held_def)
  show "(\<exists>t \<in> set (tasks m). ex (fst t)) \<longrightarrow> fl (ui m)"
  proof
    assume "\<exists>t \<in> set (tasks m). ex (fst t)"
    then have "length (filter (\<lambda>t. ex (fst t)) (tasks m)) \<noteq> 0" by (auto simp: filter_empty_conv)
    then have "holders fl ex (tasks m) \<noteq> 0" using le by linarith
    then have "holders fl ex (tasks m) = 1" using h by (simp add: held_def)
    then show "fl (ui m)" using h by (simp add: held_def)
  qed
qed

lemma never_stuck:
  assumes "sys_reach handler enabled adm (mount init) m" and "must" and "fl (ui m)"
  shows "tasks m \<noteq> []"
  using reach_held [OF assms(1)] assms(2,3) by (auto simp: held_def)

end

end
