(* ===== verification/Session.thy ===== *)
theory Session
  imports Client Async
begin

text \<open>
  The operator's session: login, logout and getSystemStatus of ui/src/api/admin.ts, the login
  form of ui/src/pages/Login/Login.tsx, the gate of ui/src/App.tsx (isLoggedIn, checking, the
  verification of a stored token on start), handleLogout of ui/src/components/Layout.tsx and
  ui/src/components/ProtectedRoute.tsx. The state is the browser's token with the cells of App
  and Login; requests are the HTTP requests themselves.
\<close>

section \<open>The API functions\<close>

definition admin_base :: jsstring where
  "admin_base = js ''/api/v1/admin''"

definition login_url :: jsstring where
  "login_url = admin_base @ js ''/login''"

definition login_request :: "jsstring \<Rightarrow> jsstring \<Rightarrow> http_request" where
  "login_request user pass =
    \<lparr>verb = js ''POST'', url = login_url,
     headers = [(js ''Content-Type'', js ''application/json'')],
     body = Some (JObj [(js ''username'', JStr user), (js ''password'', JStr pass)]),
     credentials = True\<rparr>"

text \<open>\<open>data.token\<close> of a LoginResponse; None is undefined. The cast trusts the server that a
  token that is present is a string.\<close>

definition token_of :: "json \<Rightarrow> js_error + jsstring option" where
  "token_of data = (case get_prop (js ''token'') data of
      Inl e \<Rightarrow> Inl e
    | Inr (Some (JStr t)) \<Rightarrow> Inr (Some t)
    | Inr _ \<Rightarrow> Inr None)"

definition login_result :: "outcome \<Rightarrow> js_error + jsstring option" where
  "login_result out = (case out of
      NetFail \<Rightarrow> Inl fetch_failed
    | Resp r \<Rightarrow>
        if status r = 401 then Inl (GenErr (js ''invalid credentials''))
        else if status r = 503 then Inl (GenErr (js ''admin not configured''))
        else if \<not> resp_ok r then Inl (GenErr (js ''login failed''))
        else (case read_json r of
            Inl e \<Rightarrow> Inl e
          | Inr b \<Rightarrow> (case unwrap_data b of Inl e \<Rightarrow> Inl e | Inr data \<Rightarrow> token_of data)))"

definition logout_request :: http_request where
  "logout_request =
    \<lparr>verb = js ''POST'', url = admin_base @ js ''/logout'', headers = [], body = None,
     credentials = True\<rparr>"

definition verify_request :: "jsstring \<Rightarrow> http_request" where
  "verify_request token =
    \<lparr>verb = js ''GET'', url = js ''/api/v1/admin/verify'',
     headers = [(js ''Authorization'', js ''Bearer '' @ token)], body = None, credentials = True\<rparr>"

definition system_status_request :: "browser \<Rightarrow> http_request" where
  "system_status_request b =
    \<lparr>verb = js ''GET'', url = admin_base @ js ''/status'',
     headers = (case get_admin_token b of None \<Rightarrow> []
       | Some t \<Rightarrow> if t = [] then [] else [(js ''Authorization'', js ''Bearer '' @ t)]),
     body = None, credentials = True\<rparr>"

text \<open>\<open>v?.k\<close>: undefined and null have no property.\<close>

definition opt_prop :: "jsstring \<Rightarrow> json option \<Rightarrow> json option" where
  "opt_prop k v = (case v of Some (JObj kvs) \<Rightarrow> map_of (rev kvs) k | _ \<Rightarrow> None)"

definition system_status_result :: "outcome \<Rightarrow> js_error + json" where
  "system_status_result out = (case out of
      NetFail \<Rightarrow> Inl fetch_failed
    | Resp r \<Rightarrow>
        if \<not> resp_ok r then Inl (GenErr (js ''failed to load system status''))
        else (case read_json r of Inl e \<Rightarrow> Inl e
          | Inr b \<Rightarrow> Inr (nullish_json (opt_prop (js ''data'') (opt_prop (js ''data'') (Some b)))
              (nullish_json (opt_prop (js ''data'') (Some b)) b))))"

section \<open>App, Login and the sign-out button\<close>

record session =
  browser_of :: browser
  is_logged_in :: bool
  app_checking :: bool
  username :: jsstring
  password :: jsstring
  show_password :: bool
  login_error :: jsstring
  login_loading :: bool

text \<open>Loading the page: the module variable is read from localStorage, App's cells from it.\<close>

definition app_init :: "(jsstring \<Rightarrow> jsstring option) \<Rightarrow> bool \<Rightarrow> session" where
  "app_init store ok =
    (let t = load_token \<lparr>ls = store, ls_ok = ok, tok = None\<rparr> in
     \<lparr>browser_of = \<lparr>ls = store, ls_ok = ok, tok = t\<rparr>,
      is_logged_in = truthy_str t, app_checking = truthy_str t,
      username = [], password = [], show_password = False, login_error = [],
      login_loading = False\<rparr>)"

type_synonym session_act = "(session, unit, http_request, outcome) act"

datatype session_event =
    AppMount
  | TypeUsername jsstring
  | TypePassword jsstring
  | TogglePassword
  | SubmitLogin
  | SignOut

definition store_token :: "jsstring option \<Rightarrow> session \<Rightarrow> session" where
  "store_token t s = s\<lparr>browser_of := set_admin_token t (browser_of s)\<rparr>"

text \<open>App's effect on mount.\<close>

definition verify_on_mount :: "session \<Rightarrow> session_act" where
  "verify_on_mount s =
    (case get_admin_token (browser_of s) of
       None \<Rightarrow> Upd (\<lambda>s. s\<lparr>app_checking := False\<rparr>) Done
     | Some t \<Rightarrow>
        if t = [] then Upd (\<lambda>s. s\<lparr>app_checking := False\<rparr>) Done
        else Await (verify_request t) (\<lambda>out.
          and_then
            (case out of
               NetFail \<Rightarrow> Upd (store_token None) (Upd (\<lambda>s. s\<lparr>is_logged_in := False\<rparr>) Done)
             | Resp r \<Rightarrow> if resp_ok r then Done
                 else Upd (store_token None) (Upd (\<lambda>s. s\<lparr>is_logged_in := False\<rparr>) Done))
            (Upd (\<lambda>s. s\<lparr>app_checking := False\<rparr>) Done)))"

text \<open>\<open>onLogin\<close>: App renders the layout in place of the form, whose cells are gone with it (the
  next form starts from its initial cells, and the \<open>setLoading(false)\<close> of the finally block
  reaches a form that is no longer mounted).\<close>

definition on_login :: "session \<Rightarrow> session" where
  "on_login s = s\<lparr>is_logged_in := True, username := [], password := [], show_password := False,
     login_error := [], login_loading := False\<rparr>"

definition handle_submit :: "session \<Rightarrow> session_act" where
  "handle_submit s =
    Upd (\<lambda>s. s\<lparr>login_error := []\<rparr>) (Upd (\<lambda>s. s\<lparr>login_loading := True\<rparr>)
      (Await (login_request (username s) (password s)) (\<lambda>out.
        case login_result out of
          Inl e \<Rightarrow> Upd (\<lambda>s. s\<lparr>login_error := error_message e\<rparr>)
                     (Upd (\<lambda>s. s\<lparr>login_loading := False\<rparr>) Done)
        | Inr t \<Rightarrow> Upd (store_token t) (Upd on_login Done))))"

text \<open>\<open>logout\<close> clears the token once the server answered, whatever the status; when fetch rejects
  the handler ends there.\<close>

definition handle_logout :: session_act where
  "handle_logout = Await logout_request (\<lambda>out. case out of
      NetFail \<Rightarrow> Done
    | Resp r \<Rightarrow> Upd (store_token None) (Upd (\<lambda>s. s\<lparr>is_logged_in := False\<rparr>) Done))"

fun session_handler :: "session_event \<Rightarrow> session \<Rightarrow> session_act" where
  "session_handler AppMount s = verify_on_mount s"
| "session_handler (TypeUsername v) s = Upd (\<lambda>s. s\<lparr>username := v\<rparr>) Done"
| "session_handler (TypePassword v) s = Upd (\<lambda>s. s\<lparr>password := v\<rparr>) Done"
| "session_handler TogglePassword s = Upd (\<lambda>s. s\<lparr>show_password := \<not> show_password s\<rparr>) Done"
| "session_handler SubmitLogin s = handle_submit s"
| "session_handler SignOut s = handle_logout"

text \<open>What App renders: nothing while checking, the form when logged out (its button is disabled
  while a login is pending), the layout otherwise. The effect runs when App mounts.\<close>

fun session_enabled :: "session_event \<Rightarrow> session \<Rightarrow> bool" where
  "session_enabled AppMount s \<longleftrightarrow> True"
| "session_enabled SubmitLogin s \<longleftrightarrow> \<not> app_checking s \<and> \<not> is_logged_in s \<and> \<not> login_loading s"
| "session_enabled SignOut s \<longleftrightarrow> \<not> app_checking s \<and> is_logged_in s"
| "session_enabled _ s \<longleftrightarrow> \<not> app_checking s \<and> \<not> is_logged_in s"

text \<open>The contract of the login endpoint the console relies on: a successful login carries a
  non-empty token. Every other response is arbitrary.\<close>

definition session_adm :: "http_request \<Rightarrow> outcome \<Rightarrow> bool" where
  "session_adm q out \<longleftrightarrow>
    (url q = login_url \<longrightarrow> (case login_result out of Inl _ \<Rightarrow> True | Inr t \<Rightarrow> truthy_str t))"

section \<open>ProtectedRoute\<close>

datatype gate = Verifying | Children | Unauthorized

definition protected_request :: "browser \<Rightarrow> http_request" where
  "protected_request b = api_request b (js ''/api/v1/tenants'')
     \<lparr>opt_method = Some (js ''HEAD''), opt_body = None, opt_headers = []\<rparr>"

definition protected_gate :: "outcome option \<Rightarrow> gate" where
  "protected_gate out = (case out of
      None \<Rightarrow> Verifying
    | Some o' \<Rightarrow> (case api_result (js ''/api/v1/tenants'') o' of
          Inr _ \<Rightarrow> Children
        | Inl e \<Rightarrow> if e = UnauthorizedError then Unauthorized else Children))"

section \<open>Contracts of the session\<close>

definition mirrored :: "browser \<Rightarrow> bool" where
  "mirrored b \<longleftrightarrow> ls_ok b \<longrightarrow>
     truthy_str (ls b token_key) = truthy_str (tok b) \<and>
     (truthy_str (tok b) \<longrightarrow> ls b token_key = tok b)"

definition session_ok :: "session \<Rightarrow> bool" where
  "session_ok s \<longleftrightarrow> (is_logged_in s \<longrightarrow> truthy_str (tok (browser_of s))) \<and> mirrored (browser_of s)"

lemma mirrored_set [simp]: "mirrored (set_admin_token t b)"
  by (auto simp: mirrored_def set_admin_token_def Let_def truthy_str_def)

lemma tok_set [simp]: "tok (set_admin_token t b) = t"
  by (simp add: set_admin_token_def Let_def)

interpretation session: page_invariant session_handler session_enabled session_adm
  "app_init store ok" session_ok for store ok
proof unfold_locales
  show "session_ok (app_init store ok)"
    by (auto simp: session_ok_def app_init_def Let_def load_token_def mirrored_def)
next
  fix e s
  show "keeps (session_handler e s) session_ok session_adm (\<lambda>s. s)"
  proof (cases e)
    case SubmitLogin
    then show ?thesis
      by (auto simp: handle_submit_def session_ok_def store_token_def on_login_def session_adm_def
          login_request_def split: sum.splits)
  qed (auto simp: session_ok_def verify_on_mount_def handle_logout_def store_token_def
      split: option.split outcome.splits)
qed

interpretation login_form: busy_flag session_handler session_enabled session_adm
  "app_init store ok" login_loading "\<lambda>q. url q = login_url" True for store ok
proof unfold_locales
  show "\<not> login_loading (app_init store ok)" by (simp add: app_init_def Let_def)
next
  fix e s
  assume en: "session_enabled e s"
  have urls: "logout_request = q \<Longrightarrow> url q \<noteq> login_url" "url (verify_request t) \<noteq> login_url" for q t
    by (auto simp: logout_request_def verify_request_def login_url_def admin_base_def
        simp flip: js_append)
  show "quiet (session_handler e s) login_loading (\<lambda>q. url q = login_url) \<or>
    \<not> login_loading s \<and> acquiring (session_handler e s) True login_loading (\<lambda>q. url q = login_url)"
  proof (cases e)
    case SubmitLogin
    then show ?thesis using en
      by (auto simp: handle_submit_def store_token_def on_login_def split: sum.split)
  qed (auto simp: verify_on_mount_def handle_logout_def store_token_def urls
      split: option.split outcome.splits)
qed

lemma login_result_cases:
  "login_result NetFail = Inl fetch_failed"
  "status r = 401 \<Longrightarrow> login_result (Resp r) = Inl (GenErr (js ''invalid credentials''))"
  "status r = 503 \<Longrightarrow> login_result (Resp r) = Inl (GenErr (js ''admin not configured''))"
  "status r \<notin> {401, 503} \<Longrightarrow> \<not> resp_ok r \<Longrightarrow>
     login_result (Resp r) = Inl (GenErr (js ''login failed''))"
  by (auto simp: login_result_def)

text \<open>C1. In every reachable state of the application a console that shows itself as logged in
  holds a non-empty token, and where localStorage works it holds the same token, whatever the
  order in which verification, logins and logouts are answered.\<close>

theorem session_invariant:
  assumes "sys_reach session_handler session_enabled session_adm (mount (app_init store ok)) m"
  shows "(is_logged_in (ui m) \<longrightarrow> truthy_str (tok (browser_of (ui m)))) \<and> mirrored (browser_of (ui m))"
  using session.reach_inv [OF assms] by (simp add: session_ok_def)

definition login_ok_response :: http_response where
  "login_ok_response = \<lparr>status = 200, payload = Some (JObj [(js ''token'', JStr (js ''abc''))])\<rparr>"

definition demo_login :: "(session_event, outcome) move list" where
  "demo_login = [Fire AppMount, Fire (TypeUsername (js ''admin'')), Fire SubmitLogin,
     Answer 0 (Resp login_ok_response)]"

lemmas session_eval = demo_login_def resume_def mount_def app_init_def load_token_def Let_def
  verify_on_mount_def handle_submit_def get_admin_token_def login_ok_response_def login_result_def
  session_adm_def resp_ok_def read_json_def nullish_json_def token_of_def login_request_def
  login_url_def admin_base_def store_token_def set_admin_token_def on_login_def token_key_def

lemma demo_login_runs:
  "\<exists>m. do_moves session_handler session_enabled session_adm demo_login
     (mount (app_init (\<lambda>_. None) True)) = Some m \<and> is_logged_in (ui m) \<and>
     tok (browser_of (ui m)) = Some (js ''abc'') \<and> tasks m = []"
  by (simp add: session_eval)

theorem session_invariant_witness:
  "\<exists>m. sys_reach session_handler session_enabled session_adm (mount (app_init (\<lambda>_. None) True)) m \<and>
     is_logged_in (ui m) \<and> truthy_str (tok (browser_of (ui m)))"
proof -
  obtain m where "do_moves session_handler session_enabled session_adm demo_login
     (mount (app_init (\<lambda>_. None) True)) = Some m" and l: "is_logged_in (ui m)"
    using demo_login_runs by blast
  then have r: "sys_reach session_handler session_enabled session_adm
      (mount (app_init (\<lambda>_. None) True)) m" by (blast intro: schedule_reach)
  with session_invariant [OF r] l show ?thesis by blast
qed

text \<open>The login form never has two login requests in flight, and its button is disabled
  exactly while one is: a form that shows "Signing in..." has a request whose answer re-enables
  it.\<close>

theorem login_single_flight:
  assumes "sys_reach session_handler session_enabled session_adm (mount (app_init store ok)) m"
  shows "length (filter (\<lambda>t. url (fst t) = login_url) (tasks m)) \<le> 1 \<and>
    ((\<exists>t \<in> set (tasks m). url (fst t) = login_url) \<longrightarrow> login_loading (ui m)) \<and>
    (login_loading (ui m) \<longrightarrow> tasks m \<noteq> [])"
  using login_form.at_most_one [OF assms] login_form.never_stuck [OF assms] by blast

theorem login_single_flight_witness:
  "\<exists>m. sys_reach session_handler session_enabled session_adm (mount (app_init (\<lambda>_. None) True)) m \<and>
     login_loading (ui m) \<and> tasks m \<noteq> []"
proof -
  let ?sched = "[Fire AppMount, Fire SubmitLogin] :: (session_event, outcome) move list"
  have "\<exists>m. do_moves session_handler session_enabled session_adm ?sched
     (mount (app_init (\<lambda>_. None) True)) = Some m \<and> login_loading (ui m)"
    by (simp add: session_eval)
  then obtain m where m: "do_moves session_handler session_enabled session_adm ?sched
     (mount (app_init (\<lambda>_. None) True)) = Some m" "login_loading (ui m)" by blast
  then have r: "sys_reach session_handler session_enabled session_adm
      (mount (app_init (\<lambda>_. None) True)) m" by (blast intro: schedule_reach)
  with login_single_flight [OF r] m(2) show ?thesis by blast
qed

text \<open>C12. A session survives a reload: the application started from the storage that a reachable
  state leaves behind is logged in exactly when that state holds a token, with the same token.\<close>

theorem session_survives_reload:
  assumes "sys_reach session_handler session_enabled session_adm (mount (app_init store True)) m"
    and "ls_ok (browser_of (ui m))"
  shows "is_logged_in (app_init (ls (browser_of (ui m))) True) =
      truthy_str (tok (browser_of (ui m))) \<and>
    (truthy_str (tok (browser_of (ui m))) \<longrightarrow>
      tok (browser_of (app_init (ls (browser_of (ui m))) True)) = tok (browser_of (ui m)))"
  using session.reach_inv [OF assms(1)] assms(2)
  by (auto simp: session_ok_def mirrored_def app_init_def load_token_def Let_def)

theorem session_survives_reload_witness:
  "\<exists>m. sys_reach session_handler session_enabled session_adm (mount (app_init (\<lambda>_. None) True)) m \<and>
     is_logged_in (app_init (ls (browser_of (ui m))) True)"
proof -
  have "\<exists>m. do_moves session_handler session_enabled session_adm demo_login
     (mount (app_init (\<lambda>_. None) True)) = Some m \<and> truthy_str (tok (browser_of (ui m))) \<and>
     ls_ok (browser_of (ui m))"
    by (simp add: session_eval)
  then obtain m where m: "do_moves session_handler session_enabled session_adm demo_login
     (mount (app_init (\<lambda>_. None) True)) = Some m" "truthy_str (tok (browser_of (ui m)))"
     "ls_ok (browser_of (ui m))" by blast
  then have r: "sys_reach session_handler session_enabled session_adm
      (mount (app_init (\<lambda>_. None) True)) m" by (blast intro: schedule_reach)
  with session_survives_reload [OF r m(3)] m(2) show ?thesis by blast
qed

end
