(* ===== verification/Sorting.thy ===== *)
theory Sorting
  imports NumText "HOL-Library.Multiset"
begin

text \<open>
  ui/src/hooks/useSort.ts and the sort header. Array.prototype.sort is specified only for a
  consistent comparator; the locale \<open>consistent_comparator\<close> is that contract. Under it the sorted,
  stable permutation is unique, which is what makes \<open>array_sort\<close> a faithful reading of the
  engine's sort, whatever its algorithm. The comparator of sortRows is shown to meet the
  contract on columns of strings and on columns of numbers or booleans.
\<close>

section \<open>Array.prototype.sort\<close>

primrec ins :: "('a \<Rightarrow> 'a \<Rightarrow> int) \<Rightarrow> 'a \<Rightarrow> 'a list \<Rightarrow> 'a list" where
  "ins cmp x [] = [x]"
| "ins cmp x (y # ys) = (if cmp x y \<le> 0 then x # y # ys else y # ins cmp x ys)"

definition array_sort :: "('a \<Rightarrow> 'a \<Rightarrow> int) \<Rightarrow> 'a list \<Rightarrow> 'a list" where
  "array_sort cmp xs = foldr (ins cmp) xs []"

lemma mset_ins [simp]: "mset (ins cmp x xs) = add_mset x (mset xs)"
  by (induction xs) auto

lemma mset_array_sort [simp]: "mset (array_sort cmp xs) = mset xs"
  by (induction xs) (auto simp: array_sort_def)

lemma set_array_sort [simp]: "set (array_sort cmp xs) = set xs"
  by (metis mset_array_sort set_mset_mset)

lemma set_ins [simp]: "set (ins cmp x xs) = insert x (set xs)"
  by (metis mset_ins set_mset_add_mset_insert set_mset_mset)

lemma length_array_sort [simp]: "length (array_sort cmp xs) = length xs"
  by (metis mset_array_sort size_mset)

locale consistent_comparator =
  fixes cmp :: "'a \<Rightarrow> 'a \<Rightarrow> int"
    and S :: "'a set"
  assumes cmp_refl: "x \<in> S \<Longrightarrow> cmp x x = 0"
    and cmp_anti: "x \<in> S \<Longrightarrow> y \<in> S \<Longrightarrow> cmp x y < 0 \<longleftrightarrow> cmp y x > 0"
    and cmp_trans: "x \<in> S \<Longrightarrow> y \<in> S \<Longrightarrow> z \<in> S \<Longrightarrow> cmp x y \<le> 0 \<Longrightarrow> cmp y z \<le> 0 \<Longrightarrow> cmp x z \<le> 0"
begin

abbreviation ordered :: "'a list \<Rightarrow> bool" where
  "ordered xs \<equiv> sorted_wrt (\<lambda>x y. cmp x y \<le> 0) xs"

lemma cmp_total: "x \<in> S \<Longrightarrow> y \<in> S \<Longrightarrow> \<not> cmp x y \<le> 0 \<Longrightarrow> cmp y x \<le> 0"
  using cmp_anti [of y x] by auto

lemma cmp_zero: "x \<in> S \<Longrightarrow> y \<in> S \<Longrightarrow> cmp x y = 0 \<longleftrightarrow> cmp x y \<le> 0 \<and> cmp y x \<le> 0"
  using cmp_anti [of x y] cmp_anti [of y x] by auto

lemma same_class:
  assumes S: "x \<in> S" "y \<in> S" "z \<in> S" and xy: "cmp x y = 0"
  shows "cmp x z = 0 \<longleftrightarrow> cmp y z = 0"
proof -
  have le: "cmp x y \<le> 0" "cmp y x \<le> 0" using cmp_zero [OF S(1,2)] xy by auto
  have "cmp x z \<le> 0 \<longleftrightarrow> cmp y z \<le> 0" "cmp z x \<le> 0 \<longleftrightarrow> cmp z y \<le> 0"
    using cmp_trans le S by blast+
  then show ?thesis using cmp_zero [OF S(1,3)] cmp_zero [OF S(2,3)] by simp
qed

lemma ordered_ins: "x \<in> S \<Longrightarrow> set xs \<subseteq> S \<Longrightarrow> ordered xs \<Longrightarrow> ordered (ins cmp x xs)"
proof (induction xs)
  case (Cons y ys)
  then have S: "y \<in> S" "set ys \<subseteq> S" by auto
  show ?case
  proof (cases "cmp x y \<le> 0")
    case True
    have "cmp x z \<le> 0" if "z \<in> set ys" for z
      using cmp_trans [of x y z] True that Cons.prems S by auto
    then show ?thesis using True Cons.prems by auto
  next
    case False
    then have "cmp y x \<le> 0" using cmp_total Cons.prems(1) S(1) by blast
    then show ?thesis using False Cons S by auto
  qed
qed simp

lemma ordered_array_sort: "set xs \<subseteq> S \<Longrightarrow> ordered (array_sort cmp xs)"
proof (induction xs)
  case (Cons x xs)
  then show ?case using ordered_ins [of x "array_sort cmp xs"] by (simp add: array_sort_def [symmetric] set_array_sort)
    (simp add: array_sort_def)
qed (simp add: array_sort_def)

lemma filter_ins:
  "x \<in> S \<Longrightarrow> z \<in> S \<Longrightarrow> set xs \<subseteq> S \<Longrightarrow>
   filter (\<lambda>y. cmp z y = 0) (ins cmp x xs) = filter (\<lambda>y. cmp z y = 0) (x # xs)"
proof (induction xs)
  case (Cons y ys)
  then have S: "y \<in> S" by auto
  show ?case
  proof (cases "cmp x y \<le> 0")
    case False
    have "\<not> (cmp z x = 0 \<and> cmp z y = 0)"
      using same_class [of z x y] Cons.prems S False by auto
    then show ?thesis using Cons False by auto
  qed simp
qed simp

lemma stable_array_sort:
  "z \<in> S \<Longrightarrow> set xs \<subseteq> S \<Longrightarrow>
   filter (\<lambda>y. cmp z y = 0) (array_sort cmp xs) = filter (\<lambda>y. cmp z y = 0) xs"
proof (induction xs)
  case (Cons x xs)
  then have "filter (\<lambda>y. cmp z y = 0) (ins cmp x (array_sort cmp xs)) =
      filter (\<lambda>y. cmp z y = 0) (x # array_sort cmp xs)"
    by (intro filter_ins) auto
  then show ?case using Cons by (simp add: array_sort_def)
qed (simp add: array_sort_def)

text \<open>There is only one ordered, stable permutation.\<close>

lemma ordered_stable_unique:
  assumes "mset ys = mset zs" "ordered ys" "ordered zs" "set ys \<subseteq> S"
    and "\<And>x. x \<in> S \<Longrightarrow> filter (\<lambda>y. cmp x y = 0) ys = filter (\<lambda>y. cmp x y = 0) zs"
  shows "ys = zs"
  using assms
proof (induction ys arbitrary: zs)
  case (Cons y ys)
  then obtain z zs' where zs: "zs = z # zs'" by (cases zs) auto
  have sets: "set (y # ys) = set (z # zs')" using Cons.prems(1) zs by (metis set_mset_mset)
  then have S: "y \<in> S" "z \<in> S" using Cons.prems(4) by auto
  have "cmp y z \<le> 0" "cmp z y \<le> 0"
    using sets Cons.prems(2,3) zs cmp_refl [OF S(1)] cmp_refl [OF S(2)] by (auto 4 3)
  then have eq: "cmp y z = 0" using cmp_anti [of y z] cmp_anti [of z y] S by linarith
  then have "filter (\<lambda>v. cmp y v = 0) (y # ys) = filter (\<lambda>v. cmp y v = 0) (z # zs')"
    using Cons.prems(5) [OF S(1)] zs by simp
  then have yz: "y = z" using eq cmp_refl [OF S(1)] by simp
  have "ys = zs'"
  proof (rule Cons.IH)
    show "mset ys = mset zs'" using Cons.prems(1) zs yz by simp
    show "filter (\<lambda>v. cmp x v = 0) ys = filter (\<lambda>v. cmp x v = 0) zs'" if "x \<in> S" for x
      using Cons.prems(5) [OF that] zs yz by (auto split: if_splits)
  qed (use Cons.prems zs in auto)
  then show ?case using zs yz by simp
qed simp

end

text \<open>What an engine's sort does with any comparator: a permutation; and the sort above as soon
  as the comparator agrees in sign, on distinct elements, with a consistent one (an engine
  compares no element with itself).\<close>

definition engine_sort :: "(('a \<Rightarrow> 'a \<Rightarrow> int) \<Rightarrow> 'a list \<Rightarrow> 'a list) \<Rightarrow> bool" where
  "engine_sort srt \<longleftrightarrow> (\<forall>cmp xs. mset (srt cmp xs) = mset xs \<and>
     (\<forall>cmp'. consistent_comparator cmp' (set xs) \<and> distinct xs \<and>
        (\<forall>x \<in> set xs. \<forall>y \<in> set xs. x \<noteq> y \<longrightarrow> sgn (cmp x y) = sgn (cmp' x y)) \<longrightarrow>
        srt cmp xs = array_sort cmp' xs))"

lemma ins_cong:
  "\<forall>y \<in> set ys. sgn (cmp x y) = sgn (cmp' x y) \<Longrightarrow> ins cmp x ys = ins cmp' x ys"
proof (induction ys)
  case (Cons y ys)
  then have "cmp x y \<le> 0 \<longleftrightarrow> cmp' x y \<le> 0" by (auto simp: sgn_if split: if_splits)
  then show ?case using Cons by simp
qed simp

lemma array_sort_cong:
  "distinct xs \<Longrightarrow> \<forall>x \<in> set xs. \<forall>y \<in> set xs. x \<noteq> y \<longrightarrow> sgn (cmp x y) = sgn (cmp' x y) \<Longrightarrow>
   array_sort cmp xs = array_sort cmp' xs"
proof (induction xs)
  case (Cons x xs)
  then have ih: "array_sort cmp xs = array_sort cmp' xs" by simp
  have "\<forall>y \<in> set (array_sort cmp' xs). sgn (cmp x y) = sgn (cmp' x y)" using Cons.prems by auto
  then show ?case using ih ins_cong [of "array_sort cmp' xs" cmp x cmp'] by (simp add: array_sort_def)
qed (simp add: array_sort_def)

lemma engine_sort_array_sort: "engine_sort array_sort"
  using array_sort_cong by (auto simp: engine_sort_def)

section \<open>useSort\<close>

datatype sort_dir = Asc | Desc

record 'k sort_state =
  sort_key :: "'k option"
  sort_dir :: sort_dir

definition sort_toggle :: "'k \<Rightarrow> 'k sort_state \<Rightarrow> 'k sort_state" where
  "sort_toggle k prev = \<lparr>sort_key = Some k,
     sort_dir = (if sort_key prev = Some k \<and> sort_dir prev = Asc then Desc else Asc)\<rparr>"

text \<open>A property of a row: undefined, null, a boolean, a string or a number.\<close>

datatype cell = CUndef | CNull | CBool bool | CStr jsstring | CNum jsnum

datatype sort_val = SStr jsstring | SNum jsnum

definition value_of :: "cell \<Rightarrow> sort_val" where
  "value_of v = (case v of
      CBool b \<Rightarrow> SNum (Fin (if b then 1 else 0))
    | CUndef \<Rightarrow> SStr []
    | CNull \<Rightarrow> SStr []
    | CStr s \<Rightarrow> SStr s
    | CNum n \<Rightarrow> SNum n)"

definition sort_num :: "sort_val \<Rightarrow> jsnum" where
  "sort_num v = (case v of SStr s \<Rightarrow> js_number s | SNum n \<Rightarrow> n)"

text \<open>JavaScript's \<open><\<close>: two strings by code units, anything else as numbers.\<close>

definition sort_lt :: "sort_val \<Rightarrow> sort_val \<Rightarrow> bool" where
  "sort_lt a b = (case (a, b) of (SStr s, SStr t) \<Rightarrow> s < t | _ \<Rightarrow> jlt (sort_num a) (sort_num b))"

definition row_cmp :: "('a \<Rightarrow> 'k \<Rightarrow> cell) \<Rightarrow> 'k \<Rightarrow> sort_dir \<Rightarrow> 'a \<Rightarrow> 'a \<Rightarrow> int" where
  "row_cmp col k dir a b =
    (let dm = (if dir = Asc then 1 else -1); av = value_of (col a k); bv = value_of (col b k) in
     if sort_lt av bv then -1 * dm else if sort_lt bv av then 1 * dm else 0)"

definition sort_rows :: "('a \<Rightarrow> 'k \<Rightarrow> cell) \<Rightarrow> 'a list \<Rightarrow> 'k option \<Rightarrow> sort_dir \<Rightarrow> 'a list" where
  "sort_rows col rows key dir = (case key of None \<Rightarrow> rows | Some k \<Rightarrow> array_sort (row_cmp col k dir) rows)"

definition aria_sort :: "bool \<Rightarrow> sort_dir \<Rightarrow> jsstring" where
  "aria_sort active dir =
     (if active then (if dir = Asc then js ''ascending'' else js ''descending'') else js ''none'')"

subsection \<open>Columns the comparator is consistent on\<close>

definition text_cell :: "cell \<Rightarrow> bool" where
  "text_cell v \<longleftrightarrow> (case v of CUndef \<Rightarrow> True | CNull \<Rightarrow> True | CStr _ \<Rightarrow> True | _ \<Rightarrow> False)"

definition num_cell :: "cell \<Rightarrow> bool" where
  "num_cell v \<longleftrightarrow> (case v of CNum (Fin _) \<Rightarrow> True | CBool _ \<Rightarrow> True | CUndef \<Rightarrow> True | CNull \<Rightarrow> True | _ \<Rightarrow> False)"

definition text_key :: "cell \<Rightarrow> jsstring" where
  "text_key v = (case v of CStr s \<Rightarrow> s | _ \<Rightarrow> [])"

definition num_key :: "cell \<Rightarrow> rat" where
  "num_key v = (case v of CNum (Fin r) \<Rightarrow> r | CBool b \<Rightarrow> (if b then 1 else 0) | _ \<Rightarrow> 0)"

lemma sort_lt_text: "text_cell a \<Longrightarrow> text_cell b \<Longrightarrow>
  sort_lt (value_of a) (value_of b) \<longleftrightarrow> text_key a < text_key b"
  by (cases a; cases b) (auto simp: text_cell_def sort_lt_def value_of_def text_key_def)

lemma js_number_empty: "js_number [] = Fin 0"
  by code_simp

lemma sort_lt_num: "num_cell a \<Longrightarrow> num_cell b \<Longrightarrow>
  sort_lt (value_of a) (value_of b) \<longleftrightarrow> num_key a < num_key b"
  by (cases a; cases b) (auto simp: num_cell_def sort_lt_def value_of_def num_key_def sort_num_def
      js_number_empty split: jsnum.splits)

text \<open>A comparator that orders by a key of a linear order is consistent.\<close>

lemma keyed_consistent:
  fixes key :: "'a \<Rightarrow> 'b :: linorder"
  assumes "\<And>x y. x \<in> S \<Longrightarrow> y \<in> S \<Longrightarrow> sort_lt (value_of (col x k)) (value_of (col y k)) \<longleftrightarrow> key x < key y"
  shows "consistent_comparator (row_cmp col k dir) S"
  by unfold_locales (use assms in \<open>auto simp: row_cmp_def Let_def split: if_splits\<close>)

lemma text_consistent:
  "\<forall>x \<in> S. text_cell (col x k) \<Longrightarrow> consistent_comparator (row_cmp col k dir) S"
  by (rule keyed_consistent [of _ _ _ "\<lambda>x. text_key (col x k)"]) (auto simp: sort_lt_text)

lemma num_consistent:
  "\<forall>x \<in> S. num_cell (col x k) \<Longrightarrow> consistent_comparator (row_cmp col k dir) S"
  by (rule keyed_consistent [of _ _ _ "\<lambda>x. num_key (col x k)"]) (auto simp: sort_lt_num)

interpretation text_column: consistent_comparator "row_cmp (\<lambda>x (_ :: unit). CStr (f x)) () dir" UNIV
  for f :: "'a \<Rightarrow> jsstring" and dir
  by (rule text_consistent) (simp add: text_cell_def)

interpretation num_column: consistent_comparator "row_cmp (\<lambda>x (_ :: unit). CNum (Fin (f x))) () dir" UNIV
  for f :: "'a \<Rightarrow> rat" and dir
  by (rule num_consistent) (simp add: num_cell_def)

text \<open>C15. Sorting a table by a column of strings (or of numbers and booleans, missing values
  included) permutes the rows, orders every pair of rows by the column in the chosen direction,
  keeps the order of rows that tie, and any other sort that does so returns the same list; with
  no column chosen the rows stay as they are.\<close>

theorem sort_rows_correct:
  assumes "(\<forall>x \<in> set rows. text_cell (col x k)) \<or> (\<forall>x \<in> set rows. num_cell (col x k))"
  shows "mset (sort_rows col rows (Some k) dir) = mset rows \<and>
    sorted_wrt (\<lambda>x y. row_cmp col k dir x y \<le> 0) (sort_rows col rows (Some k) dir) \<and>
    (\<forall>z \<in> set rows. filter (\<lambda>y. row_cmp col k dir z y = 0) (sort_rows col rows (Some k) dir) =
       filter (\<lambda>y. row_cmp col k dir z y = 0) rows) \<and>
    (\<forall>ys. mset ys = mset rows \<and> sorted_wrt (\<lambda>x y. row_cmp col k dir x y \<le> 0) ys \<and>
       (\<forall>z \<in> set rows. filter (\<lambda>y. row_cmp col k dir z y = 0) ys = filter (\<lambda>y. row_cmp col k dir z y = 0) rows) \<longrightarrow>
       ys = sort_rows col rows (Some k) dir) \<and>
    sort_rows col rows None dir = rows"
proof -
  have c: "consistent_comparator (row_cmp col k dir) (set rows)"
    using assms by (elim disjE) (erule text_consistent, erule num_consistent)
  note ord = consistent_comparator.ordered_array_sort [OF c subset_refl]
  note stab = consistent_comparator.stable_array_sort [OF c _ subset_refl]
  have uniq: "ys = array_sort (row_cmp col k dir) rows"
    if "mset ys = mset rows" "sorted_wrt (\<lambda>x y. row_cmp col k dir x y \<le> 0) ys"
      "\<forall>z \<in> set rows. filter (\<lambda>y. row_cmp col k dir z y = 0) ys = filter (\<lambda>y. row_cmp col k dir z y = 0) rows"
    for ys
  proof (rule consistent_comparator.ordered_stable_unique [OF c])
    show "set ys \<subseteq> set rows" using that(1) by (metis set_mset_mset subset_refl)
    show "filter (\<lambda>y. row_cmp col k dir x y = 0) ys =
        filter (\<lambda>y. row_cmp col k dir x y = 0) (array_sort (row_cmp col k dir) rows)"
      if "x \<in> set rows" for x using stab [OF that] \<open>\<forall>z \<in> set rows. _\<close> that by simp
  qed (use that ord in simp_all)
  show ?thesis using ord stab uniq by (simp add: sort_rows_def)
qed

theorem sort_rows_correct_witness:
  "mset (sort_rows (\<lambda>x (_ :: unit). CNum (Fin x)) [2, 1] (Some ()) Asc) = mset [2, 1] \<and>
   sort_rows (\<lambda>x (_ :: unit). CNum (Fin x)) [2, 1] (Some ()) Asc = [1, 2]"
proof -
  have "sort_rows (\<lambda>x (_ :: unit). CNum (Fin x)) [2, 1] (Some ()) Asc = [1, 2]"
    by (simp add: sort_rows_def array_sort_def row_cmp_def value_of_def sort_lt_def sort_num_def)
  then show ?thesis
    using sort_rows_correct [of "[2, 1]" "\<lambda>x (_ :: unit). CNum (Fin x)" "()" Asc]
    by (simp add: num_cell_def)
qed

text \<open>Clicking a column header sorts ascending by that column unless it already was, in which
  case the direction turns; the second click on the same header always gives the opposite of
  the first, and the header announces exactly the active column's direction.\<close>

theorem sort_toggle_cycles:
  "sort_key (sort_toggle k s) = Some k \<and>
   (sort_key s \<noteq> Some k \<longrightarrow> sort_dir (sort_toggle k s) = Asc) \<and>
   sort_dir (sort_toggle k (sort_toggle k s)) \<noteq> sort_dir (sort_toggle k s) \<and>
   sort_toggle k (sort_toggle k (sort_toggle k s)) = sort_toggle k s \<and>
   (aria_sort (sort_key s = Some k) (sort_dir s) = js ''none'' \<longleftrightarrow> sort_key s \<noteq> Some k)"
  by (cases "sort_dir s") (auto simp: sort_toggle_def aria_sort_def)

theorem sort_toggle_cycles_witness:
  "sort_dir (sort_toggle True \<lparr>sort_key = Some False, sort_dir = Desc\<rparr>) = Asc"
  using sort_toggle_cycles [of True "\<lparr>sort_key = Some False, sort_dir = Desc\<rparr>"] by simp

subsection \<open>Comparators that never return zero\<close>

text \<open>\<open>(a, b) => a.f < b.f ? lt : gt\<close>, which two pages write: on rows whose keys differ it orders
  by the key; on a tie it says "after" both ways, so it is not a consistent comparator.\<close>

definition two_way :: "('a \<Rightarrow> 'b :: linorder) \<Rightarrow> int \<Rightarrow> 'a \<Rightarrow> 'a \<Rightarrow> int" where
  "two_way key lt a b = (if key a < key b then lt else - lt)"

definition three_way :: "('a \<Rightarrow> 'b :: linorder) \<Rightarrow> int \<Rightarrow> 'a \<Rightarrow> 'a \<Rightarrow> int" where
  "three_way key lt a b = (if key a < key b then lt else if key b < key a then - lt else 0)"

lemma three_way_consistent: "lt \<noteq> 0 \<Longrightarrow> consistent_comparator (three_way key lt) S"
  by unfold_locales (auto simp: three_way_def split: if_splits)

lemma two_way_inconsistent: "x \<in> S \<Longrightarrow> lt \<noteq> 0 \<Longrightarrow> \<not> consistent_comparator (two_way key lt) S"
  using consistent_comparator.cmp_refl [of "two_way key lt" S x] by (auto simp: two_way_def)

lemma sorted_wrt_strict:
  "sorted_wrt P ys \<Longrightarrow> distinct (map key ys) \<Longrightarrow> (\<And>x y. P x y \<Longrightarrow> key x \<noteq> key y \<Longrightarrow> Q x y) \<Longrightarrow>
   sorted_wrt Q ys"
proof (induction ys)
  case (Cons y ys)
  then have "Q y z" if "z \<in> set ys" for z using that by force
  then show ?case using Cons by simp
qed simp

text \<open>A comparator that agrees with the three-way one on distinct rows sorts like it, when the rows
  have distinct keys.\<close>

lemma agreeing_sort:
  assumes e: "engine_sort srt" and d: "distinct (map key xs)" and lt: "lt \<noteq> 0"
    and agree: "\<And>x y. x \<in> set xs \<Longrightarrow> y \<in> set xs \<Longrightarrow> key x \<noteq> key y \<Longrightarrow>
      sgn (cmp x y) = sgn (three_way key lt x y)"
  shows "srt cmp xs = array_sort (three_way key lt) xs"
    and "sorted_wrt (\<lambda>x y. if 0 < lt then key y < key x else key x < key y) (srt cmp xs)"
proof -
  have inj: "x \<noteq> y \<Longrightarrow> key x \<noteq> key y" if "x \<in> set xs" "y \<in> set xs" for x y
    using d that by (auto simp: distinct_map inj_on_def)
  have "sgn (cmp x y) = sgn (three_way key lt x y)"
    if "x \<in> set xs" "y \<in> set xs" "x \<noteq> y" for x y
    using inj [OF that] agree that by blast
  moreover have "distinct xs" using d by (simp add: distinct_map)
  moreover note c = three_way_consistent [OF lt, of key "set xs"]
  ultimately show eq: "srt cmp xs = array_sort (three_way key lt) xs"
    using e unfolding engine_sort_def by blast
  have "sorted_wrt (\<lambda>x y. three_way key lt x y \<le> 0) (array_sort (three_way key lt) xs)"
    by (rule consistent_comparator.ordered_array_sort [OF c subset_refl])
  moreover have "distinct (map key (array_sort (three_way key lt) xs))"
    using d by (metis mset_array_sort mset_map mset_eq_imp_distinct_iff)
  ultimately show "sorted_wrt (\<lambda>x y. if 0 < lt then key y < key x else key x < key y) (srt cmp xs)"
    unfolding eq by (rule sorted_wrt_strict) (use lt in \<open>auto simp: three_way_def split: if_splits\<close>)
qed

lemma two_way_sort:
  assumes e: "engine_sort srt" and d: "distinct (map key xs)" and lt: "lt \<noteq> 0"
  shows "srt (two_way key lt) xs = array_sort (three_way key lt) xs"
    and "sorted_wrt (\<lambda>x y. if 0 < lt then key y < key x else key x < key y) (srt (two_way key lt) xs)"
  by (rule agreeing_sort [OF e d lt]; auto simp: two_way_def three_way_def)+

end
