(* ===== verification/Hooks.thy ===== *)
theory Hooks
  imports Prelude
begin

text \<open>
  The stateful hooks: useAsyncData (ui/src/hooks/useAsyncData.ts), useTheme, useCopy and the
  toast provider (ui/src/components/Toast.tsx), as executable step functions over the events
  that reach them: renders, promise settlements, timers and clicks.
\<close>

section \<open>useAsyncData\<close>

text \<open>One run of the effect: the dependencies it was started for, its closure variable
  \<open>cancelled\<close> and the promise it waits on.\<close>

datatype ('d, 'e) promise = Pending | Fulfilled 'd | Rejected 'e

record ('p, 'd, 'e) effect_run =
  run_deps :: 'p
  cancelled :: bool
  promise :: "('d, 'e) promise"

text \<open>\<open>ad_live\<close> is the run whose cleanup function React holds; \<open>ad_reported\<close> the calls of
  onError.\<close>

record ('p, 'd, 'e) async_data =
  ad_data :: "'d option"
  ad_loading :: bool
  ad_error :: "'e option"
  ad_runs :: "('p, 'd, 'e) effect_run list"
  ad_live :: "nat option"
  ad_reported :: "'e list"

datatype ('p, 'd, 'e) ad_event =
    Effect bool 'p          \<comment> \<open>a render whose deps, enabled or tick changed\<close>
  | Settle nat "('d, 'e) promise"
  | Unmount

definition ad_init :: "bool \<Rightarrow> 'd option \<Rightarrow> ('p, 'd, 'e) async_data" where
  "ad_init en d0 = \<lparr>ad_data = d0, ad_loading = en, ad_error = None, ad_runs = [],
     ad_live = None, ad_reported = []\<rparr>"

definition ad_cleanup :: "('p, 'd, 'e) async_data \<Rightarrow> ('p, 'd, 'e) async_data" where
  "ad_cleanup s = (case ad_live s of None \<Rightarrow> s
     | Some i \<Rightarrow> s\<lparr>ad_runs := (ad_runs s)[i := (ad_runs s ! i)\<lparr>cancelled := True\<rparr>], ad_live := None\<rparr>)"

definition ad_effect :: "bool \<Rightarrow> 'p \<Rightarrow> ('p, 'd, 'e) async_data \<Rightarrow> ('p, 'd, 'e) async_data" where
  "ad_effect en p s =
    (let s' = ad_cleanup s in
     if \<not> en then s'\<lparr>ad_loading := False\<rparr>
     else s'\<lparr>ad_loading := True, ad_error := None,
       ad_runs := ad_runs s' @ [\<lparr>run_deps = p, cancelled = False, promise = Pending\<rparr>],
       ad_live := Some (length (ad_runs s'))\<rparr>)"

text \<open>The then, catch and finally callbacks of a run.\<close>

definition ad_callbacks :: "bool \<Rightarrow> ('d, 'e) promise \<Rightarrow> ('p, 'd, 'e) async_data \<Rightarrow> ('p, 'd, 'e) async_data" where
  "ad_callbacks canc p s =
    (let s' = (case p of
         Pending \<Rightarrow> s
       | Fulfilled v \<Rightarrow> if \<not> canc then s\<lparr>ad_data := Some v\<rparr> else s
       | Rejected e \<Rightarrow> if canc then s
           else s\<lparr>ad_error := Some e, ad_reported := ad_reported s @ [e]\<rparr>)
     in if \<not> canc then s'\<lparr>ad_loading := False\<rparr> else s')"

text \<open>A promise settles once; settling it again is not an event.\<close>

definition ad_settle :: "nat \<Rightarrow> ('d, 'e) promise \<Rightarrow> ('p, 'd, 'e) async_data \<Rightarrow> ('p, 'd, 'e) async_data" where
  "ad_settle i p s =
    (if i < length (ad_runs s) \<and> (case promise (ad_runs s ! i) of Pending \<Rightarrow> True | _ \<Rightarrow> False) \<and>
        (case p of Pending \<Rightarrow> False | _ \<Rightarrow> True)
     then ad_callbacks (cancelled (ad_runs s ! i)) p
       (s\<lparr>ad_runs := (ad_runs s)[i := (ad_runs s ! i)\<lparr>promise := p\<rparr>]\<rparr>)
     else s)"

fun ad_step :: "('p, 'd, 'e) ad_event \<Rightarrow> ('p, 'd, 'e) async_data \<Rightarrow> ('p, 'd, 'e) async_data" where
  "ad_step (Effect en p) s = ad_effect en p s"
| "ad_step (Settle i p) s = ad_settle i p s"
| "ad_step Unmount s = ad_cleanup s"

definition ad_exec :: "bool \<Rightarrow> 'd option \<Rightarrow> ('p, 'd, 'e) ad_event list \<Rightarrow> ('p, 'd, 'e) async_data" where
  "ad_exec en d0 evs = fold ad_step evs (ad_init en d0)"

text \<open>What the hook shows is the outcome of the live run.\<close>

definition shows_live :: "('p, 'd, 'e) async_data \<Rightarrow> bool" where
  "shows_live s \<longleftrightarrow> (case ad_live s of None \<Rightarrow> True
     | Some i \<Rightarrow> i < length (ad_runs s) \<and>
        (case promise (ad_runs s ! i) of
           Pending \<Rightarrow> ad_loading s \<and> ad_error s = None
         | Fulfilled v \<Rightarrow> \<not> ad_loading s \<and> ad_error s = None \<and> ad_data s = Some v
         | Rejected e \<Rightarrow> \<not> ad_loading s \<and> ad_error s = Some e))"

definition only_live :: "('p, 'd, 'e) async_data \<Rightarrow> bool" where
  "only_live s \<longleftrightarrow> (\<forall>i < length (ad_runs s). cancelled (ad_runs s ! i) = (ad_live s \<noteq> Some i))"

lemma ad_step_inv: "shows_live s \<Longrightarrow> only_live s \<Longrightarrow> shows_live (ad_step ev s) \<and> only_live (ad_step ev s)"
proof (cases ev)
  case (Effect en p)
  assume "shows_live s" "only_live s"
  then show ?thesis using Effect
    by (cases "ad_live s")
       (auto simp: ad_effect_def ad_cleanup_def Let_def shows_live_def only_live_def nth_append
          nth_list_update less_Suc_eq)
next
  case (Settle i p)
  assume a: "shows_live s" "only_live s"
  show ?thesis
  proof (cases "ad_live s = Some i")
    case True
    then show ?thesis using a Settle
      by (auto simp: ad_settle_def ad_callbacks_def Let_def shows_live_def only_live_def
          nth_list_update split: promise.splits)
  next
    case False
    then show ?thesis using a Settle
      by (auto simp: ad_settle_def ad_callbacks_def Let_def shows_live_def only_live_def
          nth_list_update split: promise.splits option.splits)
  qed
next
  case Unmount
  assume "shows_live s" "only_live s"
  then show ?thesis using Unmount
    by (cases "ad_live s") (auto simp: ad_cleanup_def shows_live_def only_live_def nth_list_update)
qed

lemma ad_exec_inv: "shows_live (ad_exec en d0 evs) \<and> only_live (ad_exec en d0 evs)"
proof -
  have "shows_live s \<and> only_live s \<Longrightarrow> shows_live (fold ad_step evs s) \<and> only_live (fold ad_step evs s)"
    for s :: "('a, 'b, 'c) async_data"
    by (induction evs arbitrary: s) (auto dest: ad_step_inv)
  moreover have "shows_live (ad_init en d0) \<and> only_live (ad_init en d0)"
    by (simp add: shows_live_def only_live_def ad_init_def)
  ultimately show ?thesis by (simp add: ad_exec_def)
qed

text \<open>C3. After any sequence of renders, settlements and unmounts, what useAsyncData shows is the
  outcome of the run for the current dependencies and of no other: loading exactly while that
  run is pending, its value without an error once it resolved, its error once it rejected.\<close>

theorem async_data_shows_current:
  assumes "ad_live (ad_exec en d0 evs) = Some i"
  shows "i < length (ad_runs (ad_exec en d0 evs)) \<and>
    (ad_loading (ad_exec en d0 evs) \<longleftrightarrow> promise (ad_runs (ad_exec en d0 evs) ! i) = Pending) \<and>
    (\<forall>v. promise (ad_runs (ad_exec en d0 evs) ! i) = Fulfilled v \<longrightarrow>
       ad_data (ad_exec en d0 evs) = Some v \<and> ad_error (ad_exec en d0 evs) = None) \<and>
    (\<forall>e. promise (ad_runs (ad_exec en d0 evs) ! i) = Rejected e \<longrightarrow> ad_error (ad_exec en d0 evs) = Some e)"
  using ad_exec_inv [of en d0 evs] assms
  by (auto simp: shows_live_def split: promise.splits)

theorem async_data_shows_current_witness:
  "ad_data (ad_exec True None [Effect True (1 :: nat), Effect True 2, Settle 1 (Fulfilled CHR ''n''),
     Settle 0 (Fulfilled CHR ''o'')] :: (nat, char, unit) async_data) = Some CHR ''n''"
proof -
  let ?s = "ad_exec True None [Effect True (1 :: nat), Effect True 2, Settle 1 (Fulfilled CHR ''n''),
     Settle 0 (Fulfilled CHR ''o'')] :: (nat, char, unit) async_data"
  have "ad_live ?s = Some 1" "promise (ad_runs ?s ! 1) = Fulfilled CHR ''n''"
    by (simp_all add: ad_exec_def ad_init_def ad_effect_def ad_cleanup_def ad_settle_def ad_callbacks_def)
  then show ?thesis using async_data_shows_current by blast
qed

text \<open>A late answer changes nothing: settling a run that a newer render or an unmount has
  superseded leaves data, loading, error and the reported errors as they were.\<close>

theorem async_data_ignores_stale:
  assumes "ad_live (ad_exec en d0 evs) \<noteq> Some i"
  shows "ad_data (ad_settle i p (ad_exec en d0 evs)) = ad_data (ad_exec en d0 evs) \<and>
    ad_loading (ad_settle i p (ad_exec en d0 evs)) = ad_loading (ad_exec en d0 evs) \<and>
    ad_error (ad_settle i p (ad_exec en d0 evs)) = ad_error (ad_exec en d0 evs) \<and>
    ad_reported (ad_settle i p (ad_exec en d0 evs)) = ad_reported (ad_exec en d0 evs)"
proof (cases "i < length (ad_runs (ad_exec en d0 evs))")
  case True
  then have "cancelled (ad_runs (ad_exec en d0 evs) ! i)"
    using ad_exec_inv [of en d0 evs] assms by (auto simp: only_live_def)
  then show ?thesis by (auto simp: ad_settle_def ad_callbacks_def Let_def split: promise.splits)
qed (simp add: ad_settle_def)

theorem async_data_ignores_stale_witness:
  "ad_data (ad_settle 0 (Fulfilled CHR ''o'')
     (ad_exec True None [Effect True (1 :: nat), Unmount] :: (nat, char, unit) async_data)) = None"
proof -
  let ?s = "ad_exec True None [Effect True (1 :: nat), Unmount] :: (nat, char, unit) async_data"
  have "ad_live ?s \<noteq> Some 0" "ad_data ?s = None"
    by (simp_all add: ad_exec_def ad_init_def ad_effect_def ad_cleanup_def)
  then show ?thesis using async_data_ignores_stale by metis
qed

section \<open>useTheme\<close>

datatype theme = Light | Dark

definition theme_str :: "theme \<Rightarrow> jsstring" where
  "theme_str t = (case t of Light \<Rightarrow> js ''light'' | Dark \<Rightarrow> js ''dark'')"

definition get_initial_theme :: "jsstring option \<Rightarrow> bool \<Rightarrow> theme" where
  "get_initial_theme stored prefers_light =
    (if stored = Some (js ''light'') then Light
     else if stored = Some (js ''dark'') then Dark
     else if prefers_light then Light else Dark)"

text \<open>The hook's cell with what its effect writes: body.dataset.theme and localStorage.\<close>

record theme_state =
  theme :: theme
  body_theme :: "jsstring option"
  stored_theme :: "jsstring option"

definition theme_effect :: "theme_state \<Rightarrow> theme_state" where
  "theme_effect s = s\<lparr>body_theme := Some (theme_str (theme s)), stored_theme := Some (theme_str (theme s))\<rparr>"

definition theme_mount :: "jsstring option \<Rightarrow> bool \<Rightarrow> theme_state" where
  "theme_mount stored light = theme_effect
     \<lparr>theme = get_initial_theme stored light, body_theme = None, stored_theme = stored\<rparr>"

definition toggle_theme :: "theme_state \<Rightarrow> theme_state" where
  "toggle_theme s = theme_effect (s\<lparr>theme := (if theme s = Dark then Light else Dark)\<rparr>)"

text \<open>The theme survives a reload: after any number of toggles, mounting again with the stored
  value gives the theme that was shown, whatever the system prefers; the page and the storage
  always carry the shown theme.\<close>

theorem theme_survives_reload:
  "get_initial_theme (stored_theme ((toggle_theme ^^ n) (theme_mount st light))) light' =
     theme ((toggle_theme ^^ n) (theme_mount st light)) \<and>
   body_theme ((toggle_theme ^^ n) (theme_mount st light)) =
     stored_theme ((toggle_theme ^^ n) (theme_mount st light))"
proof -
  have "stored_theme s = Some (theme_str (theme s)) \<and> body_theme s = stored_theme s"
    if "s = (toggle_theme ^^ n) (theme_mount st light)" for s
    unfolding that by (induction n) (simp_all add: theme_mount_def toggle_theme_def theme_effect_def)
  then show ?thesis
    by (cases "theme ((toggle_theme ^^ n) (theme_mount st light))")
       (simp_all add: get_initial_theme_def theme_str_def)
qed

section \<open>useCopy\<close>

text \<open>\<open>copy_timers\<close> counts the timeouts that are still to clear the flag.\<close>

record copy_state =
  copied :: bool
  copy_timers :: nat

datatype copy_event = WriteOk | WriteFailed | CopyTimeout

fun copy_step :: "copy_event \<Rightarrow> copy_state \<Rightarrow> copy_state" where
  "copy_step WriteOk s = s\<lparr>copied := True, copy_timers := Suc (copy_timers s)\<rparr>"
| "copy_step WriteFailed s = s"
| "copy_step CopyTimeout s =
     (case copy_timers s of 0 \<Rightarrow> s | Suc n \<Rightarrow> s\<lparr>copied := False, copy_timers := n\<rparr>)"

definition copy_init :: copy_state where
  "copy_init = \<lparr>copied = False, copy_timers = 0\<rparr>"

lemma copied_has_timer: "copied (fold copy_step evs copy_init) \<longrightarrow> copy_timers (fold copy_step evs copy_init) \<noteq> 0"
proof -
  have "(copied s \<longrightarrow> copy_timers s \<noteq> 0) \<Longrightarrow>
      copied (fold copy_step evs s) \<longrightarrow> copy_timers (fold copy_step evs s) \<noteq> 0" for s
  proof (induction evs arbitrary: s)
    case (Cons e evs)
    have "copied (copy_step e s) \<longrightarrow> copy_timers (copy_step e s) \<noteq> 0"
      using Cons.prems by (cases e) (auto split: nat.split)
    then show ?case using Cons.IH by simp
  qed simp
  then show ?thesis by (simp add: copy_init_def)
qed

section \<open>Toasts\<close>

datatype toast_kind = Success | Error | Info

type_synonym toast_msg = "jsstring \<times> toast_kind"

record toast =
  toast_id :: nat
  toast_kind :: toast_kind
  toast_message :: jsstring

record toasts =
  shown :: "toast list"
  next_id :: nat
  toast_timers :: "nat list"

datatype toast_event = Show jsstring toast_kind | Click nat | Timeout nat

definition toasts_init :: toasts where
  "toasts_init = \<lparr>shown = [], next_id = 1, toast_timers = []\<rparr>"

definition dismiss :: "nat \<Rightarrow> toasts \<Rightarrow> toasts" where
  "dismiss i s = s\<lparr>shown := filter (\<lambda>t. toast_id t \<noteq> i) (shown s)\<rparr>"

definition show_toast :: "jsstring \<Rightarrow> toast_kind \<Rightarrow> toasts \<Rightarrow> toasts" where
  "show_toast msg kind s = s\<lparr>next_id := Suc (next_id s),
     shown := shown s @ [\<lparr>toast_id = next_id s, toast_kind = kind, toast_message = msg\<rparr>],
     toast_timers := toast_timers s @ [next_id s]\<rparr>"

fun toast_step :: "toast_event \<Rightarrow> toasts \<Rightarrow> toasts" where
  "toast_step (Show msg kind) s = show_toast msg kind s"
| "toast_step (Click i) s = dismiss i s"
| "toast_step (Timeout i) s =
     (if i \<in> set (toast_timers s)
      then dismiss i (s\<lparr>toast_timers := filter (\<lambda>j. j \<noteq> i) (toast_timers s)\<rparr>) else s)"

definition toasts_ok :: "toasts \<Rightarrow> bool" where
  "toasts_ok s \<longleftrightarrow> distinct (map toast_id (shown s)) \<and>
     (\<forall>t \<in> set (shown s). toast_id t < next_id s) \<and>
     toast_id ` set (shown s) \<subseteq> set (toast_timers s)"

lemma toast_step_ok: "toasts_ok s \<Longrightarrow> toasts_ok (toast_step e s)"
  by (cases e) (auto simp: toasts_ok_def show_toast_def dismiss_def distinct_map inj_on_def)

lemma toasts_ok_exec: "toasts_ok (fold toast_step evs toasts_init)"
proof -
  have "toasts_ok s \<Longrightarrow> toasts_ok (fold toast_step evs s)" for s
    by (induction evs arbitrary: s) (auto simp: toast_step_ok)
  then show ?thesis by (simp add: toasts_ok_def toasts_init_def)
qed

lemma shown_timeouts:
  "set is \<subseteq> set (toast_timers s) \<Longrightarrow> distinct is \<Longrightarrow>
   shown (fold toast_step (map Timeout is) s) = filter (\<lambda>t. toast_id t \<notin> set is) (shown s)"
proof (induction "is" arbitrary: s)
  case (Cons i js)
  let ?s = "toast_step (Timeout i) s"
  have "shown ?s = filter (\<lambda>t. toast_id t \<noteq> i) (shown s)"
    "toast_timers ?s = filter (\<lambda>j. j \<noteq> i) (toast_timers s)"
    using Cons.prems by (auto simp: dismiss_def)
  moreover have "set js \<subseteq> set (toast_timers ?s)" using Cons.prems calculation(2) by auto
  ultimately show ?case using Cons.IH [of ?s] Cons.prems by simp
qed simp

text \<open>C25. However toasts are shown, clicked away and timed out, no two visible toasts share an id
  (so a click or a timeout removes one toast and only that one), and every visible toast has
  its timeout still to come: when the pending timeouts have run, none is left.\<close>

theorem toasts_unique_and_vanish:
  "distinct (map toast_id (shown (fold toast_step evs toasts_init))) \<and>
   (\<forall>t \<in> set (shown (fold toast_step evs toasts_init)).
      shown (dismiss (toast_id t) (fold toast_step evs toasts_init)) =
        remove1 t (shown (fold toast_step evs toasts_init))) \<and>
   shown (fold toast_step (map Timeout (remdups (toast_timers (fold toast_step evs toasts_init))))
     (fold toast_step evs toasts_init)) = []"
proof -
  let ?s = "fold toast_step evs toasts_init"
  have ok: "toasts_ok ?s" by (rule toasts_ok_exec)
  have one: "filter (\<lambda>u. toast_id u \<noteq> toast_id t) ts = remove1 t ts"
    if "t \<in> set ts" "distinct (map toast_id ts)" for t ts
    using that
  proof (induction ts)
    case (Cons u us)
    then show ?case by (cases "u = t") (force simp: filter_id_conv image_iff)+
  qed simp
  show ?thesis
  proof (intro conjI ballI)
    show "distinct (map toast_id (shown ?s))" using ok by (simp add: toasts_ok_def)
    show "shown (dismiss (toast_id t) ?s) = remove1 t (shown ?s)" if "t \<in> set (shown ?s)" for t
      using one [OF that] ok by (simp add: toasts_ok_def dismiss_def)
    show "shown (fold toast_step (map Timeout (remdups (toast_timers ?s))) ?s) = []"
      using ok shown_timeouts [of "remdups (toast_timers ?s)" ?s]
      by (auto simp: toasts_ok_def filter_empty_conv)
  qed
qed

theorem toasts_unique_and_vanish_witness:
  "shown (dismiss 1 (fold toast_step [Show (js ''a'') Info, Show (js ''b'') Error] toasts_init)) =
     [\<lparr>toast_id = 2, toast_kind = Error, toast_message = js ''b''\<rparr>]"
  using toasts_unique_and_vanish [of "[Show (js ''a'') Info, Show (js ''b'') Error]"]
  by (simp add: show_toast_def toasts_init_def)

end
