(* ===== verification/Dates.thy ===== *)
theory Dates
  imports NumText
begin

text \<open>
  The part of Date the console uses: the civil fields of a time value in the local time zone.
  A time value is a number of milliseconds since the epoch; the time zone is the argument
  \<open>tz\<close>, the local offset at an instant. The calendar is proleptic Gregorian, and the
  conversion of days to dates is proved inverse to counting days.
\<close>

definition ms_per_day :: int where "ms_per_day = 86400000"

text \<open>A time value, or None for the NaN of an invalid date (beyond 8.64e15 or unreadable).\<close>

type_synonym time_value = "int option"
type_synonym time_zone = "int \<Rightarrow> int"

record civil_date =
  year :: int
  month :: int
  day :: int

text \<open>Years begin in March inside an era of 400 years, so that the leap day ends one.\<close>

definition civil_of_days :: "int \<Rightarrow> civil_date" where
  "civil_of_days z =
    (let z' = z + 719468; era = z' div 146097; doe = z' mod 146097;
         c = min 3 (doe div 36524); r = doe - 36524 * c;
         q = r div 1461; r2 = r - 1461 * q;
         a = min 3 (r2 div 365); doy = r2 - 365 * a;
         mp = (5 * doy + 2) div 153; m = (if mp < 10 then mp + 3 else mp - 9)
     in \<lparr>year = 400 * era + 100 * c + 4 * q + a + (if m \<le> 2 then 1 else 0), month = m,
         day = doy - (153 * mp + 2) div 5 + 1\<rparr>)"

definition days_of_civil :: "civil_date \<Rightarrow> int" where
  "days_of_civil d =
    (let y = (if month d \<le> 2 then year d - 1 else year d); era = y div 400; yoe = y mod 400;
         doy = (153 * ((month d + 9) mod 12) + 2) div 5 + day d - 1
     in era * 146097 + (yoe * 365 + yoe div 4 - yoe div 100 + doy) - 719468)"

lemma div_bounds:
  fixes m k n :: int
  assumes "0 \<le> m" "m < k * n" "0 < k"
  shows "0 \<le> m div k \<and> m div k < n"
proof -
  have "k * (m div k) \<le> m" using assms(3) by (simp add: minus_mod_eq_mult_div [symmetric])
  then have "k * (m div k) < k * n" using assms(2) by linarith
  then have "m div k < n" using assms(3) by (simp add: mult_less_cancel_left_pos)
  then show ?thesis using assms(1,3) by (simp add: pos_imp_zdiv_nonneg_iff)
qed

lemma doe_parts:
  fixes doe :: int
  assumes "0 \<le> doe" "doe < 146097"
  defines "c \<equiv> min 3 (doe div 36524)"
  defines "r \<equiv> doe - 36524 * c"
  defines "q \<equiv> r div 1461"
  defines "r2 \<equiv> r - 1461 * q"
  defines "a \<equiv> min 3 (r2 div 365)"
  shows "0 \<le> c \<and> c \<le> 3" "0 \<le> q \<and> q \<le> 24" "0 \<le> a \<and> a \<le> 3"
    "0 \<le> r2 - 365 * a \<and> r2 - 365 * a \<le> 365"
proof -
  show c: "0 \<le> c \<and> c \<le> 3" using assms(1,2) by (simp add: c_def pos_imp_zdiv_nonneg_iff)
  have r: "0 \<le> r \<and> r \<le> 36524"
  proof (cases "doe div 36524 \<le> 3")
    case True
    then have "r = doe mod 36524" by (simp add: r_def c_def min_def minus_mult_div_eq_mod)
    then show ?thesis by simp
  next
    case False
    then show ?thesis using assms(1,2) by (simp add: r_def c_def min_def)
  qed
  then show "0 \<le> q \<and> q \<le> 24" using div_bounds [of r 1461 25] by (simp add: q_def)
  have "r2 = r mod 1461" by (simp add: r2_def q_def minus_mult_div_eq_mod)
  then have r2: "0 \<le> r2 \<and> r2 \<le> 1460" by simp
  then show "0 \<le> a \<and> a \<le> 3" by (simp add: a_def pos_imp_zdiv_nonneg_iff)
  show "0 \<le> r2 - 365 * a \<and> r2 - 365 * a \<le> 365"
  proof (cases "r2 div 365 \<le> 3")
    case True
    then have "r2 - 365 * a = r2 mod 365" by (simp add: a_def min_def minus_mult_div_eq_mod)
    then show ?thesis by simp
  next
    case False
    then show ?thesis using r2 by (simp add: a_def min_def)
  qed
qed

lemma month_parts:
  fixes doy :: int
  assumes "0 \<le> doy" "doy \<le> 365"
  defines "mp \<equiv> (5 * doy + 2) div 153"
  defines "k \<equiv> (153 * mp + 2) div 5"
  shows "0 \<le> mp" "mp \<le> 11" "0 \<le> doy - k" "doy - k \<le> 30"
proof -
  have mp: "0 \<le> mp \<and> mp < 12" using div_bounds [of "5 * doy + 2" 153 12] assms(1,2) by (simp add: mp_def)
  then show "0 \<le> mp" "mp \<le> 11" by simp_all
  have "153 * mp = (5 * doy + 2) - (5 * doy + 2) mod 153" "5 * k = (153 * mp + 2) - (153 * mp + 2) mod 5"
    by (simp_all add: mp_def k_def minus_mod_eq_mult_div)
  moreover have "0 \<le> (5 * doy + 2) mod 153" "(5 * doy + 2) mod 153 \<le> 152"
    "0 \<le> (153 * mp + 2) mod 5" "(153 * mp + 2) mod 5 \<le> 4" by simp_all
  ultimately show "0 \<le> doy - k" "doy - k \<le> 30" by linarith+
qed

text \<open>A day number and its date determine each other, and the date has a month from 1 to 12
  and a day from 1 to 31.\<close>

theorem days_of_civil_of_days:
  "days_of_civil (civil_of_days z) = z \<and> 1 \<le> month (civil_of_days z) \<and> month (civil_of_days z) \<le> 12 \<and>
   1 \<le> day (civil_of_days z) \<and> day (civil_of_days z) \<le> 31"
proof -
  define z' where "z' = z + 719468"
  define era where "era = z' div 146097"
  define doe where "doe = z' mod 146097"
  define c where "c = min 3 (doe div 36524)"
  define r where "r = doe - 36524 * c"
  define q where "q = r div 1461"
  define r2 where "r2 = r - 1461 * q"
  define a where "a = min 3 (r2 div 365)"
  define doy where "doy = r2 - 365 * a"
  define mp where "mp = (5 * doy + 2) div 153"
  define m where "m = (if mp < 10 then mp + 3 else mp - 9)"
  define d where "d = doy - (153 * mp + 2) div 5 + 1"
  have civ: "civil_of_days z = \<lparr>year = 400 * era + 100 * c + 4 * q + a + (if m \<le> 2 then 1 else 0),
      month = m, day = d\<rparr>"
    by (simp only: civil_of_days_def Let_def z'_def era_def doe_def c_def r_def q_def r2_def a_def
        doy_def mp_def m_def d_def)
  have doe: "0 \<le> doe" "doe < 146097" by (simp_all add: doe_def)
  note parts = doe_parts [OF doe, folded c_def, folded r_def, folded q_def, folded r2_def,
      folded a_def, folded doy_def]
  note mparts = month_parts [of doy, folded mp_def]
  have mp: "0 \<le> mp" "mp \<le> 11" and d: "1 \<le> d" "d \<le> 31"
    using mparts parts(4) by (simp_all add: d_def)
  have m: "1 \<le> m" "m \<le> 12" using mp by (auto simp: m_def)
  have mback: "(m + 9) mod 12 = mp" using mp by (auto simp: m_def)
  define yoe where "yoe = 100 * c + 4 * q + a"
  have yoe: "0 \<le> yoe" "yoe < 400" "yoe div 4 = 25 * c + q" "yoe div 100 = c"
    using parts by (auto simp: yoe_def)
  have y: "(if m \<le> 2 then (400 * era + yoe + (if m \<le> 2 then 1 else 0)) - 1
      else 400 * era + yoe + (if m \<le> 2 then 1 else 0)) = 400 * era + yoe" by simp
  have em: "(400 * era + yoe) div 400 = era" "(400 * era + yoe) mod 400 = yoe" using yoe by auto
  have "days_of_civil (civil_of_days z) =
      era * 146097 + (yoe * 365 + yoe div 4 - yoe div 100 + ((153 * mp + 2) div 5 + d - 1)) - 719468"
    using y em mback by (simp add: civ days_of_civil_def Let_def yoe_def add.assoc)
  also have "\<dots> = era * 146097 + doe - 719468"
    using yoe(3,4) by (simp add: d_def doy_def r2_def r_def yoe_def)
  also have "\<dots> = z" by (simp add: era_def doe_def z'_def)
  finally show ?thesis using m d by (simp add: civ)
qed

section \<open>Local fields of a time value\<close>

definition local_ms :: "time_zone \<Rightarrow> int \<Rightarrow> int" where
  "local_ms tz t = t + tz t"

definition local_date :: "time_zone \<Rightarrow> int \<Rightarrow> civil_date" where
  "local_date tz t = civil_of_days (local_ms tz t div ms_per_day)"

definition local_hours :: "time_zone \<Rightarrow> int \<Rightarrow> int" where
  "local_hours tz t = (local_ms tz t mod ms_per_day) div 3600000"

definition local_minutes :: "time_zone \<Rightarrow> int \<Rightarrow> int" where
  "local_minutes tz t = (local_ms tz t mod 3600000) div 60000"

lemma local_bounds:
  "1 \<le> month (local_date tz t) \<and> month (local_date tz t) \<le> 12"
  "1 \<le> day (local_date tz t) \<and> day (local_date tz t) \<le> 31"
  "0 \<le> local_hours tz t \<and> local_hours tz t \<le> 23"
  "0 \<le> local_minutes tz t \<and> local_minutes tz t \<le> 59"
proof -
  show "1 \<le> month (local_date tz t) \<and> month (local_date tz t) \<le> 12"
    "1 \<le> day (local_date tz t) \<and> day (local_date tz t) \<le> 31"
    using days_of_civil_of_days by (simp_all add: local_date_def)
  show "0 \<le> local_hours tz t \<and> local_hours tz t \<le> 23"
    using div_bounds [of "local_ms tz t mod 86400000" 3600000 24]
    by (simp add: local_hours_def ms_per_day_def)
  show "0 \<le> local_minutes tz t \<and> local_minutes tz t \<le> 59"
    using div_bounds [of "local_ms tz t mod 3600000" 60000 60] by (simp add: local_minutes_def)
qed

section \<open>toISOString\<close>

definition zero_pad :: "nat \<Rightarrow> int \<Rightarrow> jsstring" where
  "zero_pad k n = (let s = digits n in replicate (k - length s) 48 @ s)"

definition iso_string :: "int \<Rightarrow> jsstring" where
  "iso_string t =
    (let d = civil_of_days (t div ms_per_day); r = t mod ms_per_day; y = year d;
         ys = (if 0 \<le> y \<and> y \<le> 9999 then zero_pad 4 y
               else (if y < 0 then js ''-'' else js ''+'') @ zero_pad 6 \<bar>y\<bar>)
     in ys @ js ''-'' @ zero_pad 2 (month d) @ js ''-'' @ zero_pad 2 (day d) @ js ''T'' @
        zero_pad 2 (r div 3600000) @ js '':'' @ zero_pad 2 (r div 60000 mod 60) @ js '':'' @
        zero_pad 2 (r div 1000 mod 60) @ js ''.'' @ zero_pad 3 (r mod 1000) @ js ''Z'')"

end
