(* ===== verification/Format.thy ===== *)
theory Format
  imports Dates
begin

text \<open>
  ui/src/utils/format.ts: absDate, relativeTime, groupNum, money and fmtTokens. The reader of
  date strings (\<open>rd\<close>, Date's constructor, partly implementation-defined) and the local time
  zone are arguments. groupNum's regular expression is modelled as the code writes it, a
  position-wise insertion of commas, and shown to group digits by threes.
\<close>

type_synonym date_reader = "jsstring \<Rightarrow> time_value"

definition dash :: jsstring where "dash = [0x2014]"

definition pad :: "int \<Rightarrow> jsstring" where
  "pad n = (let s = int_str n in replicate (2 - length s) 48 @ s)"

definition abs_date :: "date_reader \<Rightarrow> time_zone \<Rightarrow> jsstring \<Rightarrow> jsstring" where
  "abs_date rd tz stamp = (case rd stamp of None \<Rightarrow> dash
     | Some t \<Rightarrow> int_str (year (local_date tz t)) @ js ''-'' @ pad (month (local_date tz t)) @ js ''-'' @
         pad (day (local_date tz t)) @ js '' '' @ pad (local_hours tz t) @ js '':'' @ pad (local_minutes tz t))"

text \<open>The quotients are of integers below 2^54 by 60000, 60 and 24, whose floors are exact in
  binary64.\<close>

definition relative_time :: "date_reader \<Rightarrow> time_zone \<Rightarrow> jsstring \<Rightarrow> int \<Rightarrow> jsstring" where
  "relative_time rd tz stamp now = (case rd stamp of None \<Rightarrow> dash
     | Some t \<Rightarrow>
        let diff = t - now; minutes = \<bar>diff\<bar> div 60000;
            say = (\<lambda>n u. if diff > 0 then js ''in '' @ int_str n @ u else int_str n @ u @ js '' ago'')
        in if minutes < 1 then js ''just now''
           else if minutes < 60 then say minutes (js ''m'')
           else let hours = minutes div 60 in
             if hours < 24 then say hours (js ''h'')
             else let days = hours div 24 in
               if days < 7 then say days (js ''d'') else abs_date rd tz stamp)"

section \<open>groupNum\<close>

definition word_unit :: "unit16 \<Rightarrow> bool" where
  "word_unit c \<longleftrightarrow> is_digit c \<or> 65 \<le> c \<and> c \<le> 90 \<or> 97 \<le> c \<and> c \<le> 122 \<or> c = 95"

text \<open>\<open>s.replace(/\B(?=(\d{3})+(?!\d))/g, ',')\<close>: \<open>pw\<close> tells whether the unit before is a word
  unit; a comma goes where the two sides agree (no boundary) and the digits that follow number
  a positive multiple of three.\<close>

fun group_commas :: "bool \<Rightarrow> jsstring \<Rightarrow> jsstring" where
  "group_commas pw [] = []"
| "group_commas pw (c # cs) =
    (let n = length (takeWhile is_digit (c # cs)) in
     (if pw = word_unit c \<and> 0 < n \<and> n mod 3 = 0 then [44] else []) @ c # group_commas (word_unit c) cs)"

definition group_num :: "jsnum \<Rightarrow> jsstring" where
  "group_num num = (if \<not> is_finite num then dash else group_commas False (num_str (jtrunc num)))"

definition group_num_str :: "jsstring \<Rightarrow> jsstring" where
  "group_num_str s = group_num (js_number s)"

section \<open>money, fmtTokens\<close>

definition currency_symbol :: "jsstring \<Rightarrow> jsstring" where
  "currency_symbol cur = (if cur = js ''USD'' then js ''$'' else if cur \<noteq> [] then cur @ js '' '' else [])"

text \<open>\<open>const [int, dec] = fixed.split('.')\<close>: dec is undefined, and printed so, without a point.\<close>

definition money :: "jsnum \<Rightarrow> jsstring \<Rightarrow> jsstring" where
  "money value cur = (if \<not> is_finite value then dash
     else let parts = split_on 46 (to_fixed 2 value);
              dec = (case parts of _ # d # _ \<Rightarrow> d | _ \<Rightarrow> js ''undefined'')
          in currency_symbol cur @ group_num_str (hd parts) @ js ''.'' @ dec)"

definition fmt_tokens :: "jsnum \<Rightarrow> jsstring" where
  "fmt_tokens n = (if \<not> is_finite n then dash
     else if jle (Fin 1000000) n then to_fixed 1 (jdiv n (Fin 1000000)) @ js ''M''
     else if jle (Fin 1000) n then to_fixed 1 (jdiv n (Fin 1000)) @ js ''K''
     else num_str n)"

section \<open>Grouping digits\<close>

lemma word_digit: "is_digit c \<Longrightarrow> word_unit c"
  by (simp add: word_unit_def)

lemma takeWhile_all_digits: "\<forall>c \<in> set s. is_digit c \<Longrightarrow> takeWhile is_digit s = s"
  by (simp add: takeWhile_eq_all_conv)

lemma group_commas_after:
  "\<forall>c \<in> set s. is_digit c \<Longrightarrow>
   \<exists>p ps. split_on 44 (group_commas True s) = p # ps \<and> length p = length s mod 3 \<and>
     (\<forall>q \<in> set ps. length q = 3) \<and> concat (p # ps) = s"
proof (induction s)
  case (Cons c cs)
  then obtain p ps where ih: "split_on 44 (group_commas True cs) = p # ps" "length p = length cs mod 3"
    "\<forall>q \<in> set ps. length q = 3" "concat (p # ps) = cs" by (metis list.set_intros(2))
  have c: "is_digit c" "c \<noteq> 44" "word_unit c" "takeWhile is_digit (c # cs) = c # cs"
    using Cons.prems takeWhile_all_digits [of "c # cs"] word_digit by (auto simp: is_digit_def)
  have g: "group_commas True (c # cs) =
      (if Suc (length cs) mod 3 = 0 then [44] else []) @ c # group_commas True cs"
    using c by (simp only: group_commas.simps c Let_def) simp
  show ?case
  proof (cases "Suc (length cs) mod 3 = 0")
    case True
    then have "length cs mod 3 = 2" by presburger
    moreover have "split_on 44 (group_commas True (c # cs)) = [] # (c # p) # ps"
      unfolding g using True c(2) ih(1) by simp
    ultimately show ?thesis using True ih by auto
  next
    case False
    then have "Suc (length cs) mod 3 = Suc (length cs mod 3)" by presburger
    moreover have "split_on 44 (group_commas True (c # cs)) = (c # p) # ps"
      unfolding g using False c(2) ih(1) by simp
    ultimately show ?thesis using ih by auto
  qed
qed simp

lemma group_commas_start:
  assumes "\<forall>c \<in> set s. is_digit c" "s \<noteq> []"
  obtains p ps where "split_on 44 (group_commas False s) = p # ps" "1 \<le> length p" "length p \<le> 3"
    "\<forall>q \<in> set ps. length q = 3" "concat (p # ps) = s"
proof -
  obtain c cs where s: "s = c # cs" using assms(2) by (cases s) auto
  obtain p ps where p: "split_on 44 (group_commas True cs) = p # ps" "length p = length cs mod 3"
    "\<forall>q \<in> set ps. length q = 3" "concat (p # ps) = cs"
    using group_commas_after [of cs] assms(1) s by auto
  have "word_unit c" "c \<noteq> 44" using assms(1) s word_digit by (auto simp: is_digit_def)
  then have "split_on 44 (group_commas False s) = (c # p) # ps" using s p by (simp add: Let_def)
  moreover have "length (c # p) \<le> 3" using p(2) by (simp add: Suc_le_eq flip: less_Suc_eq_le)
  ultimately show thesis using p s by (intro that [of "c # p" ps]) auto
qed

lemma jtrunc_int [simp]: "jtrunc (Fin (of_int n)) = Fin (of_int n)"
  by (simp add: jtrunc_def jlift_def)

lemma group_num_nat: "0 \<le> n \<Longrightarrow> n \<le> 2 ^ 53 \<Longrightarrow> group_num (Fin (of_int n)) = group_commas False (digits n)"
  using num_str_int [of n] by (simp add: group_num_def del: num_str.simps)

text \<open>C38. groupNum prints a whole number up to 2^53 as its decimal digits in groups: the parts
  between commas are three digits long, the first one to three, and without the commas they
  read back as the number.\<close>

theorem group_num_groups:
  assumes "0 \<le> n" and "n \<le> 2 ^ 53"
  shows "\<exists>p ps. split_on 44 (group_num (Fin (of_int n))) = p # ps \<and> 1 \<le> length p \<and> length p \<le> 3 \<and>
    (\<forall>q \<in> set ps. length q = 3) \<and> concat (p # ps) = digits n \<and> num_of_digits (concat (p # ps)) = n"
proof -
  obtain p ps where "split_on 44 (group_commas False (digits n)) = p # ps" "1 \<le> length p" "length p \<le> 3"
    "\<forall>q \<in> set ps. length q = 3" "concat (p # ps) = digits n"
    using group_commas_start [of "digits n"] digits_all [OF assms(1)] by auto
  then show ?thesis using assms group_num_nat by simp
qed

theorem group_num_groups_witness:
  "\<exists>p ps. split_on 44 (group_num (Fin 1234567)) = p # ps \<and> num_of_digits (concat (p # ps)) = 1234567"
  using group_num_groups [of 1234567] by auto

section \<open>Money\<close>

lemma digits_len: "0 \<le> n \<Longrightarrow> 10 ^ length (digits n) > n"
proof (induction n rule: digits.induct)
  case (1 n)
  show ?case
  proof (cases "n < 10")
    case True
    then show ?thesis by (subst digits.simps) simp
  next
    case False
    then have "n div 10 < 10 ^ length (digits (n div 10))" using 1 by (simp add: pos_imp_zdiv_nonneg_iff)
    then have "n < 10 * 10 ^ length (digits (n div 10))" by linarith
    then show ?thesis using False by (subst digits.simps) simp
  qed
qed

lemma fixed_two: "0 \<le> n \<Longrightarrow> fixed_digits 2 n =
  digits (n div 100) @ js ''.'' @ [digit (n div 10 mod 10), digit (n mod 10)]"
proof -
  assume n: "0 \<le> n"
  consider "n < 10" | "10 \<le> n" "n < 100" | "100 \<le> n" by linarith
  then show ?thesis
  proof cases
    case 1
    then have "digits n = [digit n]" "n div 100 = 0" "n div 10 = 0" "digits 0 = [digit 0]"
      using n by (simp_all add: digits.simps)
    then show ?thesis using 1 n by (simp add: fixed_digits_def Let_def digit_def js_def numeral_2_eq_2)
  next
    case 2
    then have "digits n = [digit (n div 10), digit (n mod 10)]" "n div 100 = 0" "digits 0 = [digit 0]"
      by (simp_all add: digits.simps)
    then show ?thesis using 2 by (simp add: fixed_digits_def Let_def digit_def js_def numeral_2_eq_2)
  next
    case 3
    then have d: "digits n = digits (n div 100) @ [digit (n div 10 mod 10), digit (n mod 10)]"
      by (subst digits.simps, subst digits.simps) (simp add: zdiv_zmult2_eq [symmetric])
    have "length (digits (n div 100)) \<noteq> 0" by simp
    then show ?thesis unfolding fixed_digits_def Let_def d by (cases "length (digits (n div 100))") auto
  qed
qed

lemma dot_not_digit: "0 \<le> n \<Longrightarrow> 46 \<notin> set (digits n)"
  using digits_is_digit [of n 46] by (auto simp: is_digit_def)

text \<open>C37. money prints a non-negative amount below 2^53 as the currency symbol, the whole units
  grouped by threes, and exactly two decimals: the nearest number of cents, halves rounded
  up.\<close>

theorem money_prints_cents:
  assumes "0 \<le> r" and "r < 2 ^ 53 - 1"
  shows "\<exists>units cents. 0 \<le> cents \<and> cents < 100 \<and> units * 100 + cents = \<lfloor>r * 100 + 1 / 2\<rfloor> \<and>
    money (Fin r) cur = currency_symbol cur @ group_num (Fin (of_int units)) @ js ''.'' @
      [digit (cents div 10), digit (cents mod 10)]"
proof -
  define n where "n = \<lfloor>r * 100 + 1 / 2\<rfloor>"
  have n0: "0 \<le> n" using assms(1) by (simp add: n_def)
  have "r * 100 + 1 / 2 < of_int ((2 ^ 53 - 1) * 100 + 1)" using assms(2) by simp
  then have n1: "n < (2 ^ 53 - 1) * 100 + 1" unfolding n_def floor_less_iff by simp
  have u: "0 \<le> n div 100" "n div 100 \<le> 2 ^ 53"
    using n0 n1 by (simp_all add: pos_imp_zdiv_nonneg_iff)
  have f: "to_fixed 2 (Fin r) = digits (n div 100) @ js ''.'' @ [digit (n div 10 mod 10), digit (n mod 10)]"
    using assms fixed_two [OF n0] by (simp add: n_def power2_eq_square)
  have dots: "digit d \<noteq> 46" if "0 \<le> d" "d < 10" for d
    using is_digit_digit [OF that] by (auto simp: is_digit_def)
  have "split_on 46 (to_fixed 2 (Fin r)) =
      [digits (n div 100), [digit (n div 10 mod 10), digit (n mod 10)]]"
    using dot_not_digit [OF u(1)] dots [of "n mod 10"] dots [of "n div 10 mod 10"]
    unfolding f by (simp add: js_def split_on_append_sep split_on_no_sep)
  then have m: "money (Fin r) cur = currency_symbol cur @ group_num (Fin (of_int (n div 100))) @ js ''.'' @
      [digit (n div 10 mod 10), digit (n mod 10)]"
    by (simp add: money_def Let_def group_num_str_def js_number_digits [OF u] del: to_fixed.simps)
  have c: "n mod 100 div 10 = n div 10 mod 10" "n mod 100 mod 10 = n mod 10"
    using zmod_zmult2_eq [of 10 n 10] by (simp_all add: mod_mod_cancel)
  show ?thesis unfolding n_def [symmetric]
    by (rule exI [of _ "n div 100"], rule exI [of _ "n mod 100"]) (simp add: m c)
qed

theorem money_prints_cents_witness:
  "\<exists>units cents. units * 100 + cents = \<lfloor>(5 / 4 :: rat) * 100 + 1 / 2\<rfloor> \<and>
    money (Fin (5 / 4)) (js ''USD'') = js ''$'' @ group_num (Fin (of_int units)) @ js ''.'' @
      [digit (cents div 10), digit (cents mod 10)]"
  using money_prints_cents [of "5 / 4" "js ''USD''"] by (auto simp: currency_symbol_def)

lemma js_number_minus_digits:
  "0 \<le> n \<Longrightarrow> n \<le> 2 ^ 53 \<Longrightarrow> js_number (45 # digits n) = Fin (- of_int n)"
proof -
  assume n: "0 \<le> n" "n \<le> 2 ^ 53"
  have ws: "\<not> is_ws 45" by (simp add: is_ws_def ws_units_def)
  have t: "trim (45 # digits n) = 45 # digits n"
    by (rule trim_trimmed) (simp add: trimmed_def ws is_digit_not_ws digits_is_digit [of n] n)
  have ne: "digits n \<noteq> js ''Infinity''"
    using digits_is_digit [OF n(1), of 73] by (auto simp: js_def is_digit_def)
  have "radix_literal (45 # digits n) = None" "drop_sign (45 # digits n) = (True, digits n)"
    by (auto simp: radix_literal_def drop_sign_def split: list.split)
  moreover have "fl64 (of_int n) = Fin (of_int n)" using fl64_int [of n] n by simp
  ultimately show ?thesis using n
    by (simp add: js_number_def t ne scan_dec_digits signed_def)
qed

text \<open>An amount that rounds to minus zero units loses its sign: the integer part "-0" is read
  back as zero, so minus fifty cents and fifty cents print the same.\<close>

theorem money_drops_sign:
  assumes "0 < r" and "r < 199 / 200"
  shows "money (Fin (- r)) cur = money (Fin r) cur"
proof -
  define n where "n = \<lfloor>r * 100 + 1 / 2\<rfloor>"
  have n: "0 \<le> n" "n div 100 = 0"
  proof -
    have "n < 100" using assms by (simp add: n_def floor_less_iff)
    moreover show "0 \<le> n" using assms by (simp add: n_def)
    ultimately show "n div 100 = 0" by simp
  qed
  let ?d = "[digit (n div 10 mod 10), digit (n mod 10)]"
  have f: "to_fixed 2 (Fin r) = digits 0 @ js ''.'' @ ?d" "to_fixed 2 (Fin (- r)) = 45 # digits 0 @ js ''.'' @ ?d"
    using assms fixed_two [OF n(1)] n(2) by (simp_all add: n_def power2_eq_square js_def)
  have dots: "digit d \<noteq> 46" if "0 \<le> d" "d < 10" for d
    using is_digit_digit [OF that] by (auto simp: is_digit_def)
  have "split_on 46 (to_fixed 2 (Fin r)) = [digits 0, ?d]"
    "split_on 46 (to_fixed 2 (Fin (- r))) = [45 # digits 0, ?d]"
    unfolding f using dot_not_digit [of 0] dots [of "n mod 10"] dots [of "n div 10 mod 10"]
    by (simp_all add: js_def split_on_append_sep split_on_no_sep)
  moreover have "js_number (digits 0) = Fin 0" "js_number (45 # digits 0) = Fin 0"
    using js_number_digits [of 0] js_number_minus_digits [of 0] by simp_all
  ultimately show ?thesis
    by (simp add: money_def Let_def group_num_str_def del: to_fixed.simps)
qed

theorem money_drops_sign_witness:
  "money (Fin (- (1 / 2))) (js ''USD'') = money (Fin (1 / 2)) (js ''USD'')"
  by (rule money_drops_sign) simp_all

section \<open>Relative times\<close>

text \<open>relativeTime reads "just now" exactly within a minute, in either direction, says "in"
  only for the future and "ago" only for the past, and from a week on gives the absolute
  date; the number it prints is the whole number of the unit elapsed.\<close>

theorem relative_time_bands:
  assumes "rd stamp = Some t"
  shows "(\<bar>t - now\<bar> < 60000 \<longrightarrow> relative_time rd tz stamp now = js ''just now'') \<and>
    (604800000 \<le> \<bar>t - now\<bar> \<longrightarrow> relative_time rd tz stamp now = abs_date rd tz stamp) \<and>
    (60000 \<le> \<bar>t - now\<bar> \<and> \<bar>t - now\<bar> < 604800000 \<longrightarrow>
      (\<exists>n u ms. (u, ms) \<in> {(js ''m'', 60000), (js ''h'', 3600000), (js ''d'', 86400000)} \<and>
         n * ms \<le> \<bar>t - now\<bar> \<and> \<bar>t - now\<bar> < (n + 1) * ms \<and> 1 \<le> n \<and>
         relative_time rd tz stamp now =
           (if now < t then js ''in '' @ int_str n @ u else int_str n @ u @ js '' ago'')))"
proof -
  define a where "a = \<bar>t - now\<bar>"
  have a0: "0 \<le> a" by (simp add: a_def)
  have h: "a div 60000 div 60 = a div 3600000" "a div 3600000 div 24 = a div 86400000"
    using a0 by (simp_all add: zdiv_zmult2_eq [symmetric])
  have le: "k * (a div k) \<le> a \<and> a < k * (a div k) + k" if "0 < k" for k :: int
    using that pos_mod_bound [of k a] pos_mod_sign [of k a] mult_div_mod_eq [of k a] by linarith
  note bands = le [of 60000] le [of 3600000] le [of 86400000]
  define say where "say n u = (if now < t then js ''in '' @ int_str n @ u else int_str n @ u @ js '' ago'')"
    for n u
  have b: "a div 60000 < 1 \<longleftrightarrow> a < 60000" "a div 60000 < 60 \<longleftrightarrow> a < 3600000"
    "a div 3600000 < 24 \<longleftrightarrow> a < 86400000" "a div 86400000 < 7 \<longleftrightarrow> a < 604800000"
    using bands by linarith+
  have r: "relative_time rd tz stamp now =
     (if a < 60000 then js ''just now'' else if a < 3600000 then say (a div 60000) (js ''m'')
      else if a < 86400000 then say (a div 3600000) (js ''h'')
      else if a < 604800000 then say (a div 86400000) (js ''d'') else abs_date rd tz stamp)"
    using assms by (simp add: relative_time_def Let_def h b say_def flip: a_def)
  define U :: "(jsstring \<times> int) set" where "U = {(js ''m'', 60000), (js ''h'', 3600000), (js ''d'', 86400000)}"
  have u: "(js ''m'', 60000) \<in> U" "(js ''h'', 3600000) \<in> U" "(js ''d'', 86400000) \<in> U"
    by (simp_all add: U_def)
  have w: "\<exists>n u ms. (u, ms) \<in> U \<and>
       n * ms \<le> a \<and> a < (n + 1) * ms \<and> 1 \<le> n \<and> relative_time rd tz stamp now = say n u"
    if "relative_time rd tz stamp now = say (a div k) v" "k \<le> a" "0 < k"
      "(v, k) \<in> U" for k v
  proof -
    have "1 \<le> a div k" using le [OF that(3)] that(2,3) by (smt (verit) mult_nonneg_nonpos)
    then show ?thesis using le [OF that(3)] that
      by (intro exI [of _ "a div k"] exI [of _ v] exI [of _ k]) (simp add: algebra_simps)
  qed
  have "60000 \<le> a \<Longrightarrow> a < 604800000 \<Longrightarrow>
      \<exists>n u ms. (u, ms) \<in> U \<and>
       n * ms \<le> a \<and> a < (n + 1) * ms \<and> 1 \<le> n \<and> relative_time rd tz stamp now = say n u"
    using w [of 60000 "js ''m''"] w [of 3600000 "js ''h''"] w [of 86400000 "js ''d''"] r u
    by (cases "a < 3600000"; cases "a < 86400000") simp_all
  then show ?thesis unfolding a_def [symmetric] say_def U_def [symmetric] using r by auto
qed

theorem relative_time_bands_witness:
  "relative_time (\<lambda>_. Some 0) (\<lambda>_. 0) [] 30000 = js ''just now'' \<and>
   relative_time (\<lambda>_. Some 604800000) (\<lambda>_. 0) [] 0 = abs_date (\<lambda>_. Some 604800000) (\<lambda>_. 0) []"
  using relative_time_bands [of "\<lambda>_. Some 0" "[]" 0 30000 "\<lambda>_. 0"]
    relative_time_bands [of "\<lambda>_. Some 604800000" "[]" 604800000 0 "\<lambda>_. 0"] by simp

text \<open>absDate prints year, two-digit month, day, hours and minutes, all of them in range, and
  the date printed is the one whose day count is the local day of the instant; a date that
  cannot be read prints as a dash.\<close>

theorem abs_date_fields:
  "(rd stamp = None \<longrightarrow> abs_date rd tz stamp = dash) \<and>
   (rd stamp = Some t \<longrightarrow> (\<exists>y m d h mi. abs_date rd tz stamp =
        int_str y @ js ''-'' @ pad m @ js ''-'' @ pad d @ js '' '' @ pad h @ js '':'' @ pad mi \<and>
      days_of_civil \<lparr>year = y, month = m, day = d\<rparr> * 86400000 + h * 3600000 + mi * 60000 \<le> t + tz t \<and>
      t + tz t < days_of_civil \<lparr>year = y, month = m, day = d\<rparr> * 86400000 + h * 3600000 + (mi + 1) * 60000 \<and>
      length (pad m) = 2 \<and> length (pad d) = 2 \<and> length (pad h) = 2 \<and> length (pad mi) = 2))"
proof (cases "rd stamp = Some t")
  case True
  let ?d = "local_date tz t"
  have pad2: "length (pad n) = 2" if "0 \<le> n" "n < 100" for n
  proof -
    have "length (digits n) = 1 \<or> length (digits n) = 2"
      using that by (cases "n < 10") (simp_all add: digits.simps)
    then show ?thesis using that by (auto simp: pad_def int_str_def Let_def)
  qed
  have len: "length (pad (month ?d)) = 2" "length (pad (day ?d)) = 2"
    "length (pad (local_hours tz t)) = 2" "length (pad (local_minutes tz t)) = 2"
    using local_bounds [of tz t] by (simp_all add: pad2)
  define l where "l = t + tz t"
  have d: "days_of_civil \<lparr>year = year ?d, month = month ?d, day = day ?d\<rparr> = l div 86400000"
    using days_of_civil_of_days [of "l div 86400000"]
    by (cases "civil_of_days (l div 86400000)") (simp add: local_date_def local_ms_def ms_per_day_def l_def)
  have hm: "l mod 86400000 = local_hours tz t * 3600000 + l mod 3600000"
    "l mod 3600000 = local_minutes tz t * 60000 + l mod 60000"
    using div_mult_mod_eq [of "l mod 86400000" 3600000] div_mult_mod_eq [of "l mod 3600000" 60000]
    by (simp_all add: local_hours_def local_minutes_def local_ms_def ms_per_day_def l_def mod_mod_cancel)
  have "0 \<le> l mod 60000" "l mod 60000 < 60000" by simp_all
  then have "l div 86400000 * 86400000 + local_hours tz t * 3600000 + local_minutes tz t * 60000 \<le> l \<and>
      l < l div 86400000 * 86400000 + local_hours tz t * 3600000 + (local_minutes tz t + 1) * 60000"
    using hm div_mult_mod_eq [of l 86400000] by (intro conjI; simp only: distrib_right; linarith)
  then show ?thesis using True len d unfolding l_def [symmetric]
    by (auto simp: abs_date_def intro!: exI)
qed (simp add: abs_date_def)

theorem abs_date_fields_witness:
  "\<exists>y m d h mi. abs_date (\<lambda>_. Some 0) (\<lambda>_. 3600000) [] =
      int_str y @ js ''-'' @ pad m @ js ''-'' @ pad d @ js '' '' @ pad h @ js '':'' @ pad mi \<and>
    length (pad m) = 2 \<and> length (pad d) = 2"
  using abs_date_fields [of "\<lambda>_. Some 0" "[]" "\<lambda>_. 3600000" 0] by blast

end
