(* ===== verification/Base64.thy ===== *)
theory Base64
  imports Unicode
begin

text \<open>
  ui/src/utils/base64.ts: decodeBase64Utf8, with atob as the HTML standard defines it (None is
  the InvalidCharacterError it throws). Standard base64 encoding, which the server applies to
  conversation payloads, is the specification the decoder is proved to invert.

\<close>

definition b64_char :: "int \<Rightarrow> unit16" where
  "b64_char v = (if v < 26 then word_of_int (65 + v) else if v < 52 then word_of_int (71 + v)
     else if v < 62 then word_of_int (v - 4) else if v = 62 then 43 else 47)"

definition b64_val :: "unit16 \<Rightarrow> int option" where
  "b64_val c = (let n = uint c in
     if 65 \<le> n \<and> n \<le> 90 then Some (n - 65) else if 97 \<le> n \<and> n \<le> 122 then Some (n - 71)
     else if 48 \<le> n \<and> n \<le> 57 then Some (n + 4) else if n = 43 then Some 62
     else if n = 47 then Some 63 else None)"

definition ascii_ws :: "unit16 \<Rightarrow> bool" where
  "ascii_ws c \<longleftrightarrow> c \<in> {9, 10, 12, 13, 32}"

text \<open>Groups of four sextets give three bytes; a last group of two or three gives one or two, its
  spare bits dropped.\<close>

fun sextets :: "int list \<Rightarrow> int list" where
  "sextets (a # b # c # d # r) =
     (4 * a + b div 16) # (16 * (b mod 16) + c div 4) # (64 * (c mod 4) + d) # sextets r"
| "sextets [a, b, c] = [4 * a + b div 16, 16 * (b mod 16) + c div 4]"
| "sextets [a, b] = [4 * a + b div 16]"
| "sextets _ = []"

fun vals :: "jsstring \<Rightarrow> int list option" where
  "vals [] = Some []"
| "vals (c # cs) = (case b64_val c of None \<Rightarrow> None | Some v \<Rightarrow> map_option ((#) v) (vals cs))"

text \<open>One or two equals signs end a text whose length is a multiple of four.\<close>

definition drop_padding :: "jsstring \<Rightarrow> jsstring" where
  "drop_padding s = (if length s mod 4 = 0 then
     (if s \<noteq> [] \<and> last s = 61 then
        (if 2 \<le> length s \<and> last (butlast s) = 61 then butlast (butlast s) else butlast s) else s) else s)"

definition atob :: "jsstring \<Rightarrow> int list option" where
  "atob s = (let t = drop_padding (filter (\<lambda>c. \<not> ascii_ws c) s) in
     if length t mod 4 = 1 then None else map_option sextets (vals t))"

definition decode_base64_utf8 :: "jsstring \<Rightarrow> jsstring option" where
  "decode_base64_utf8 b64 = map_option text_decode (atob b64)"

section \<open>The encoder\<close>

fun b64_encode :: "int list \<Rightarrow> jsstring" where
  "b64_encode [] = []"
| "b64_encode [x] = [b64_char (x div 4), b64_char (16 * (x mod 4)), 61, 61]"
| "b64_encode [x, y] = [b64_char (x div 4), b64_char (16 * (x mod 4) + y div 16), b64_char (4 * (y mod 16)), 61]"
| "b64_encode (x # y # z # r) = b64_char (x div 4) # b64_char (16 * (x mod 4) + y div 16) #
     b64_char (4 * (y mod 16) + z div 64) # b64_char (z mod 64) # b64_encode r"

lemma b64_char_props:
  assumes "0 \<le> v" "v < 64"
  shows "b64_val (b64_char v) = Some v" "\<not> ascii_ws (b64_char v)" "b64_char v \<noteq> 61"
proof -
  have u: "uint (word_of_int n :: unit16) = n" if "0 \<le> n" "n < 65536" for n
    using that unfolding uint_word_of_int by simp
  consider "v < 26" | "26 \<le> v" "v < 52" | "52 \<le> v" "v < 62" | "v = 62" | "v = 63" using assms(2) by linarith
  then have "b64_val (b64_char v) = Some v \<and> 43 \<le> uint (b64_char v) \<and> uint (b64_char v) \<noteq> 61"
  proof cases
    case 1
    then have "uint (b64_char v) = 65 + v" using assms(1) unfolding b64_char_def by (simp del: of_int_add add: u)
    then show ?thesis using 1 assms(1) by (simp add: b64_val_def Let_def)
  next
    case 2
    then have "uint (b64_char v) = 71 + v" unfolding b64_char_def by (simp del: of_int_add add: u)
    then show ?thesis using 2 by (simp add: b64_val_def Let_def)
  next
    case 3
    then have "uint (b64_char v) = v - 4" unfolding b64_char_def by (simp del: of_int_diff add: u)
    then show ?thesis using 3 by (simp add: b64_val_def Let_def)
  qed (simp_all add: b64_char_def b64_val_def Let_def)
  then show "b64_val (b64_char v) = Some v" "\<not> ascii_ws (b64_char v)" "b64_char v \<noteq> 61"
    by (auto simp: ascii_ws_def)
qed

definition byte_list :: "int list \<Rightarrow> bool" where
  "byte_list bs \<longleftrightarrow> (\<forall>b \<in> set bs. 0 \<le> b \<and> b \<le> 255)"

text \<open>The sextets of the encoded text; padding fills the last group.\<close>

fun sixes :: "int list \<Rightarrow> int list" where
  "sixes [] = []"
| "sixes [x] = [x div 4, 16 * (x mod 4)]"
| "sixes [x, y] = [x div 4, 16 * (x mod 4) + y div 16, 4 * (y mod 16)]"
| "sixes (x # y # z # r) = x div 4 # (16 * (x mod 4) + y div 16) # (4 * (y mod 16) + z div 64) # z mod 64 # sixes r"

definition b64_body :: "int list \<Rightarrow> jsstring" where
  "b64_body bs = map b64_char (sixes bs)"

lemma sextet_ranges:
  fixes x y z :: int
  assumes "0 \<le> x" "x \<le> 255" "0 \<le> y" "y \<le> 255" "0 \<le> z" "z \<le> 255"
  shows "0 \<le> x div 4 \<and> x div 4 < 64" "0 \<le> 16 * (x mod 4) \<and> 16 * (x mod 4) < 64"
    "0 \<le> 16 * (x mod 4) + y div 16 \<and> 16 * (x mod 4) + y div 16 < 64"
    "0 \<le> 4 * (y mod 16) \<and> 4 * (y mod 16) < 64"
    "0 \<le> 4 * (y mod 16) + z div 64 \<and> 4 * (y mod 16) + z div 64 < 64" "0 \<le> z mod 64 \<and> z mod 64 < 64"
    "4 * (x div 4) + 16 * (x mod 4) div 16 = x"
    "4 * (x div 4) + (16 * (x mod 4) + y div 16) div 16 = x"
    "16 * ((16 * (x mod 4) + y div 16) mod 16) + 4 * (y mod 16) div 4 = y"
    "16 * ((16 * (x mod 4) + y div 16) mod 16) + (4 * (y mod 16) + z div 64) div 4 = y"
    "64 * ((4 * (y mod 16) + z div 64) mod 4) + z mod 64 = z"
proof -
  define X1 X0 Y1 Y0 Z1 Z0 where "X1 = x div 4" and "X0 = x mod 4" and "Y1 = y div 16"
    and "Y0 = y mod 16" and "Z1 = z div 64" and "Z0 = z mod 64"
  note defs = X1_def X0_def Y1_def Y0_def Z1_def Z0_def
  have e: "x = 4 * X1 + X0" "y = 16 * Y1 + Y0" "z = 64 * Z1 + Z0"
    by (simp_all add: defs)
  have r: "0 \<le> X0" "X0 < 4" "0 \<le> Y0" "Y0 < 16" "0 \<le> Z0" "Z0 < 64" by (simp_all add: defs)
  then have R: "0 \<le> X1" "X1 < 64" "0 \<le> Y1" "Y1 < 16" "0 \<le> Z1" "Z1 < 4" using e assms by linarith+
  have d: "(16 * X0) div 16 = X0" "(16 * X0 + Y1) div 16 = X0" "(16 * X0 + Y1) mod 16 = Y1"
    "(4 * Y0) div 4 = Y0" "(4 * Y0 + Z1) div 4 = Y0" "(4 * Y0 + Z1) mod 4 = Z1"
    using R by simp_all
  show "0 \<le> x div 4 \<and> x div 4 < 64" "0 \<le> 16 * (x mod 4) \<and> 16 * (x mod 4) < 64"
    "0 \<le> 16 * (x mod 4) + y div 16 \<and> 16 * (x mod 4) + y div 16 < 64"
    "0 \<le> 4 * (y mod 16) \<and> 4 * (y mod 16) < 64"
    "0 \<le> 4 * (y mod 16) + z div 64 \<and> 4 * (y mod 16) + z div 64 < 64" "0 \<le> z mod 64 \<and> z mod 64 < 64"
    unfolding defs [symmetric] using r R by linarith+
  show "4 * (x div 4) + 16 * (x mod 4) div 16 = x"
    "4 * (x div 4) + (16 * (x mod 4) + y div 16) div 16 = x"
    unfolding defs [symmetric] d by (rule e(1) [symmetric])+
  show "16 * ((16 * (x mod 4) + y div 16) mod 16) + 4 * (y mod 16) div 4 = y"
    "16 * ((16 * (x mod 4) + y div 16) mod 16) + (4 * (y mod 16) + z div 64) div 4 = y"
    unfolding defs [symmetric] d by (rule e(2) [symmetric])+
  show "64 * ((4 * (y mod 16) + z div 64) mod 4) + z mod 64 = z"
    unfolding defs [symmetric] d by (rule e(3) [symmetric])
qed

lemma sixes_range: "byte_list bs \<Longrightarrow> v \<in> set (sixes bs) \<Longrightarrow> 0 \<le> v \<and> v < 64"
proof (induction bs rule: sixes.induct)
  case (2 x)
  then have "0 \<le> x" "x \<le> 255" "v \<in> {x div 4, 16 * (x mod 4)}" by (simp_all add: byte_list_def)
  with sextet_ranges(1,2) [of x 0 0] show ?case by (elim insertE emptyE) simp_all
next
  case (3 x y)
  then have "0 \<le> x" "x \<le> 255" "0 \<le> y" "y \<le> 255"
    "v \<in> {x div 4, 16 * (x mod 4) + y div 16, 4 * (y mod 16)}" by (simp_all add: byte_list_def)
  with sextet_ranges(1,3,4) [of x y 0] show ?case by (elim insertE emptyE) simp_all
next
  case (4 x y z r)
  have "v \<in> set (sixes r) \<or> v \<in> {x div 4, 16 * (x mod 4) + y div 16, 4 * (y mod 16) + z div 64, z mod 64}"
    using 4(3) by auto
  then show ?case
  proof
    assume "v \<in> set (sixes r)"
    then show ?thesis using 4(1,2) by (simp add: byte_list_def)
  next
    assume "v \<in> {x div 4, 16 * (x mod 4) + y div 16, 4 * (y mod 16) + z div 64, z mod 64}"
    moreover have "0 \<le> x" "x \<le> 255" "0 \<le> y" "y \<le> 255" "0 \<le> z" "z \<le> 255"
      using 4(2) by (simp_all add: byte_list_def)
    note sextet_ranges(1,3,5,6) [OF this]
    ultimately show ?thesis by blast
  qed
qed simp

lemma sextets_sixes: "byte_list bs \<Longrightarrow> sextets (sixes bs) = bs"
proof (induction bs rule: sixes.induct)
  case (2 x)
  then have "0 \<le> x" "x \<le> 255" by (simp_all add: byte_list_def)
  then show ?case using sextet_ranges(7) [of x 0 0] by (simp only: sixes.simps sextets.simps)
next
  case (3 x y)
  then have "0 \<le> x" "x \<le> 255" "0 \<le> y" "y \<le> 255" by (simp_all add: byte_list_def)
  then show ?case using sextet_ranges(8,9) [of x y 0] by (simp only: sixes.simps sextets.simps)
next
  case (4 x y z r)
  then have "0 \<le> x" "x \<le> 255" "0 \<le> y" "y \<le> 255" "0 \<le> z" "z \<le> 255" "byte_list r"
    by (simp_all add: byte_list_def)
  then show ?case using sextet_ranges(8,10,11) [of x y z] 4(1) by (simp only: sixes.simps sextets.simps)
qed simp

lemma vals_chars: "\<forall>v \<in> set vs. 0 \<le> v \<and> v < 64 \<Longrightarrow> vals (map b64_char vs) = Some vs"
  by (induction vs) (auto simp: b64_char_props)

lemma body_vals: "byte_list bs \<Longrightarrow> vals (b64_body bs) = Some (sixes bs) \<and> sextets (sixes bs) = bs"
  by (simp add: b64_body_def sextets_sixes vals_chars sixes_range)

lemma body_chars: "byte_list bs \<Longrightarrow> c \<in> set (b64_body bs) \<Longrightarrow> \<not> ascii_ws c \<and> c \<noteq> 61"
  using sixes_range b64_char_props(2,3) by (auto simp: b64_body_def)

lemma encode_body: "b64_encode bs = b64_body bs @ replicate ((3 - length bs mod 3) mod 3) 61"
  by (induction bs rule: b64_encode.induct) (simp_all add: b64_body_def numeral_2_eq_2)

lemma length_sixes: "length (sixes bs) = 4 * (length bs div 3) + (if length bs mod 3 = 0 then 0 else length bs mod 3 + 1)"
proof (induction bs rule: sixes.induct)
  case (4 x y z r)
  have l: "length (x # y # z # r) = length r + 3" by simp
  have e: "(length r + 3) div 3 = length r div 3 + 1" "(length r + 3) mod 3 = length r mod 3" by simp_all
  have "length (sixes (x # y # z # r)) = length (sixes r) + 4" by simp
  then show ?case unfolding l e 4 by simp
qed simp_all

lemma length_body: "length (b64_body bs) mod 4 \<noteq> 1"
  by (simp add: b64_body_def length_sixes)

lemma length_encode: "length (b64_encode bs) mod 4 = 0"
proof -
  consider "length bs mod 3 = 0" | "length bs mod 3 = 1" | "length bs mod 3 = 2" by linarith
  then show ?thesis by cases (simp_all add: encode_body b64_body_def length_sixes)
qed

lemma body_Nil: "b64_body bs = [] \<longleftrightarrow> bs = []"
  by (cases bs rule: sixes.cases) (simp_all add: b64_body_def)

lemma drop_padding_encode:
  assumes "byte_list bs"
  shows "drop_padding (b64_encode bs) = b64_body bs"
proof -
  note e = encode_body [of bs]
  have len: "length (b64_encode bs) mod 4 = 0" by (rule length_encode)
  have last: "bs \<noteq> [] \<Longrightarrow> last (b64_body bs) \<noteq> 61" using body_chars [OF assms] body_Nil last_in_set by blast
  consider "length bs mod 3 = 0" | "length bs mod 3 = 1" | "length bs mod 3 = 2" by linarith
  then show ?thesis
  proof cases
    case 1
    then have "b64_encode bs = b64_body bs" using e by simp
    then show ?thesis using last body_Nil [of bs] by (auto simp: drop_padding_def)
  next
    case 2
    then have "b64_encode bs = (b64_body bs @ [61]) @ [61]" using e by (simp add: numeral_2_eq_2)
    then show ?thesis using len unfolding drop_padding_def by (simp add: butlast_append)
  next
    case 3
    then have "b64_encode bs = b64_body bs @ [61]" "bs \<noteq> []" using e by auto
    then show ?thesis using len last body_Nil [of bs] unfolding drop_padding_def by (simp add: butlast_append)
  qed
qed

text \<open>C22. atob inverts standard base64 on every byte string, whatever ASCII white space the text
  was broken with, so decodeBase64Utf8 recovers every text the server encoded as UTF-8 (a text
  beginning with a byte order mark loses the mark).\<close>

theorem base64_utf8_round_trip:
  assumes "utf8_encode s = Some bs" and "filter (\<lambda>c. \<not> ascii_ws c) t = b64_encode bs"
  shows "atob t = Some bs \<and> (take 3 bs \<noteq> [0xEF, 0xBB, 0xBF] \<longrightarrow> decode_base64_utf8 t = Some s)"
proof -
  have b: "byte_list bs" using utf8_encode_bytes [OF assms(1)] by (simp add: byte_list_def)
  have "atob t = Some bs" using length_body [of bs] body_vals [OF b] by (simp add: atob_def assms(2) drop_padding_encode [OF b] Let_def)
  then show ?thesis using text_decode_encode [OF assms(1)] by (simp add: decode_base64_utf8_def)
qed

theorem base64_utf8_round_trip_witness:
  "decode_base64_utf8 (b64_encode [104, 0xC3, 0xA9]) = Some [104, 233]"
proof -
  have "utf8_encode [104, 233] = Some [104, 0xC3, 0xA9]"
    "filter (\<lambda>c. \<not> ascii_ws c) (b64_encode [104, 0xC3, 0xA9]) = b64_encode [104, 0xC3, 0xA9]"
    by code_simp+
  from base64_utf8_round_trip [OF this] show ?thesis by simp
qed

end
