(* ===== verification/Widgets.thy ===== *)
theory Widgets
  imports NumText
begin

text \<open>
  The controls of ui/src/components/ui with behaviour of their own (ChipInput, Pagination,
  ProgressBar, Switch, Badge, Button) and ui/src/components/ErrorBoundary.tsx. A controlled
  input is modelled with the value its parent holds: \<open>onChange(v)\<close> makes v the next value.
\<close>

section \<open>ChipInput\<close>

record chip_input =
  chips :: "jsstring list"
  draft :: jsstring

datatype key_name = Enter | Comma | Backspace | OtherKey

datatype chip_event = ChipType jsstring | ChipKey key_name | ChipBlur | ChipRemove jsstring

definition chip_commit :: "nat option \<Rightarrow> chip_input \<Rightarrow> chip_input" where
  "chip_commit mx s =
    (let item = trim (draft s); s' = s\<lparr>draft := []\<rparr> in
     if item = [] then s'
     else if (case mx of None \<Rightarrow> False | Some m \<Rightarrow> m \<le> length (chips s)) then s'
     else if item \<in> set (chips s) then s'
     else s'\<lparr>chips := chips s @ [item]\<rparr>)"

definition chip_key :: "nat option \<Rightarrow> key_name \<Rightarrow> chip_input \<Rightarrow> chip_input" where
  "chip_key mx k s =
    (if k = Enter \<or> k = Comma then chip_commit mx s
     else if k = Backspace \<and> draft s = [] \<and> chips s \<noteq> [] then s\<lparr>chips := butlast (chips s)\<rparr>
     else s)"

fun chip_step :: "nat option \<Rightarrow> chip_event \<Rightarrow> chip_input \<Rightarrow> chip_input" where
  "chip_step mx (ChipType v) s = s\<lparr>draft := v\<rparr>"
| "chip_step mx (ChipKey k) s = chip_key mx k s"
| "chip_step mx ChipBlur s = chip_commit mx s"
| "chip_step mx (ChipRemove item) s = s\<lparr>chips := filter (\<lambda>v. v \<noteq> item) (chips s)\<rparr>"

definition chips_ok :: "nat option \<Rightarrow> jsstring list \<Rightarrow> bool" where
  "chips_ok mx cs \<longleftrightarrow> distinct cs \<and> (\<forall>c \<in> set cs. c \<noteq> [] \<and> trimmed c) \<and>
     (case mx of None \<Rightarrow> True | Some m \<Rightarrow> length cs \<le> m)"

lemma chip_step_ok: "chips_ok mx (chips s) \<Longrightarrow> chips_ok mx (chips (chip_step mx e s))"
proof (cases e)
  case (ChipRemove item)
  assume "chips_ok mx (chips s)"
  then show ?thesis using ChipRemove
    by (auto simp: chips_ok_def split: option.splits intro: le_trans [OF length_filter_le])
qed (auto simp: chips_ok_def chip_key_def chip_commit_def Let_def trimmed_trim distinct_butlast
      split: option.splits dest: in_set_butlastD)

text \<open>Whatever is typed, committed, blurred or removed, a chip input that starts with distinct,
  trimmed, non-empty chips within its limit keeps such chips: no duplicate, blank or padded
  model name reaches a key or a route.\<close>

theorem chip_input_invariant:
  assumes "chips_ok mx (chips s)"
  shows "chips_ok mx (chips (fold (chip_step mx) evs s))"
  using assms by (induction evs arbitrary: s) (auto simp: chip_step_ok)

theorem chip_input_invariant_witness:
  "chips (fold (chip_step (Some 2)) [ChipType (js '' gpt ''), ChipKey Enter, ChipType (js ''gpt''), ChipBlur]
     \<lparr>chips = [], draft = []\<rparr>) = [js ''gpt''] \<and> chips_ok (Some 2) [js ''gpt'']"
proof -
  have v: "chips (fold (chip_step (Some 2)) [ChipType (js '' gpt ''), ChipKey Enter, ChipType (js ''gpt''), ChipBlur]
     \<lparr>chips = [], draft = []\<rparr>) = [js ''gpt'']"
    by (simp add: chip_key_def chip_commit_def Let_def trim_def js_def is_ws_def ws_units_def)
  have "chips_ok (Some 2) (chips \<lparr>chips = [], draft = []\<rparr>)" by (simp add: chips_ok_def)
  from chip_input_invariant [OF this, of "[ChipType (js '' gpt ''), ChipKey Enter, ChipType (js ''gpt''), ChipBlur]"]
  show ?thesis unfolding v by simp
qed

section \<open>Pagination\<close>

definition prev_disabled :: "int \<Rightarrow> int \<Rightarrow> bool" where
  "prev_disabled pg pages \<longleftrightarrow> pg \<le> 1"

definition next_disabled :: "int \<Rightarrow> int \<Rightarrow> bool" where
  "next_disabled pg pages \<longleftrightarrow> pages \<le> pg"

datatype page_click = Prev | Next

definition click_page :: "page_click \<Rightarrow> int \<Rightarrow> int \<Rightarrow> int" where
  "click_page c pages pg = (case c of
      Prev \<Rightarrow> if prev_disabled pg pages then pg else pg - 1
    | Next \<Rightarrow> if next_disabled pg pages then pg else pg + 1)"

definition pagination_text :: "int \<Rightarrow> int \<Rightarrow> int option \<Rightarrow> jsstring" where
  "pagination_text pg pages cnt = js ''Page '' @ int_str pg @ js '' / '' @ int_str pages @
     (case cnt of None \<Rightarrow> [] | Some n \<Rightarrow> js '' ('' @ int_str n @ js '')'')"

lemma click_page_bounds: "1 \<le> pg \<Longrightarrow> pg \<le> pages \<Longrightarrow> 1 \<le> click_page c pages pg \<and> click_page c pages pg \<le> pages"
  by (cases c) (auto simp: click_page_def prev_disabled_def next_disabled_def)

section \<open>ProgressBar, Switch, Badge, Button\<close>

datatype progress_tone = Accent | Warn | Danger

definition resolve_tone :: "jsnum \<Rightarrow> progress_tone" where
  "resolve_tone p = (if jle (Fin 90) p then Danger else if jle (Fin 70) p then Warn else Accent)"

definition progress_pct :: "jsnum \<Rightarrow> jsnum" where
  "progress_pct p = jmin (Fin 100) (jmax (Fin 0) p)"

text \<open>The fill's width in percent, the announced value and the tone; \<open>tone\<close> is None for auto.\<close>

definition progress_bar :: "jsnum \<Rightarrow> progress_tone option \<Rightarrow> jsnum \<times> jsnum \<times> progress_tone" where
  "progress_bar p tone = (let pct = progress_pct p in
     (pct, jround pct, (case tone of None \<Rightarrow> resolve_tone pct | Some t \<Rightarrow> t)))"

definition switch_click :: "bool \<Rightarrow> bool" where
  "switch_click checked = (\<not> checked)"

definition badge_tone :: "jsstring \<Rightarrow> jsstring" where
  "badge_tone v =
    (if v \<in> {js ''ok'', js ''active'', js ''healthy'', js ''up'', js ''yes''} then js ''badge-up''
     else if v \<in> {js ''error'', js ''blocked'', js ''expired'', js ''down'', js ''no''} then js ''badge-down''
     else js ''badge-warn'')"

datatype button_variant = DefaultVariant | PrimaryVariant | DangerVariant | LinkVariant

definition button_class :: "button_variant \<Rightarrow> bool \<Rightarrow> jsstring option \<Rightarrow> jsstring" where
  "button_class v small cls = join_with (js '' '')
     (js ''btn'' # (if v = PrimaryVariant then [js ''btn-primary''] else []) @
      (if v = DangerVariant then [js ''btn-danger''] else []) @
      (if v = LinkVariant then [js ''btn-link''] else []) @ (if small then [js ''btn-small''] else []) @
      (case cls of None \<Rightarrow> [] | Some c \<Rightarrow> if c = [] then [] else [c]))"

text \<open>A progress bar never overflows or underflows: for every number but NaN the width and the
  announced value are between 0 and 100, a value already in range is shown as it is, and the
  automatic tone is danger exactly from 90 on and warn exactly between 70 and 90.\<close>

theorem progress_bar_bounds:
  assumes "p \<noteq> NaN"
  shows "\<exists>w. progress_bar p None =
      (Fin w, Fin (of_int \<lfloor>w + 1 / 2\<rfloor>), if 90 \<le> w then Danger else if 70 \<le> w then Warn else Accent) \<and>
    0 \<le> w \<and> w \<le> 100 \<and> 0 \<le> \<lfloor>w + 1 / 2\<rfloor> \<and> \<lfloor>w + 1 / 2\<rfloor> \<le> 100 \<and>
    (\<forall>r. p = Fin r \<and> 0 \<le> r \<and> r \<le> 100 \<longrightarrow> w = r)"
proof -
  have "\<exists>w. progress_pct p = Fin w \<and> 0 \<le> w \<and> w \<le> 100 \<and> (\<forall>r. p = Fin r \<and> 0 \<le> r \<and> r \<le> 100 \<longrightarrow> w = r)"
    using assms by (cases p) (auto simp: progress_pct_def jmin_def jmax_def)
  then obtain w where w: "progress_pct p = Fin w" "0 \<le> w" "w \<le> 100"
    "\<forall>r. p = Fin r \<and> 0 \<le> r \<and> r \<le> 100 \<longrightarrow> w = r" by blast
  have "\<lfloor>w + 1 / 2\<rfloor> \<le> 100" "0 \<le> \<lfloor>w + 1 / 2\<rfloor>" using w(2,3) by (simp_all add: floor_le_iff)
  then show ?thesis using w
    by (intro exI [of _ w]) (auto simp: progress_bar_def Let_def jround_def jlift_def resolve_tone_def)
qed

theorem progress_bar_bounds_witness:
  "\<exists>w. progress_bar PInf None = (Fin w, Fin (of_int \<lfloor>w + 1 / 2\<rfloor>),
     if 90 \<le> w then Danger else if 70 \<le> w then Warn else Accent) \<and> w \<le> 100"
  using progress_bar_bounds [of PInf] by auto

section \<open>ErrorBoundary\<close>

record error_boundary =
  has_error :: bool
  caught :: "jsstring option"

datatype boundary_event = ChildThrows jsstring | ResetKeyChanged | TryAgain

definition boundary_init :: error_boundary where
  "boundary_init = \<lparr>has_error = False, caught = None\<rparr>"

fun boundary_step :: "boundary_event \<Rightarrow> error_boundary \<Rightarrow> error_boundary" where
  "boundary_step (ChildThrows msg) s = \<lparr>has_error = True, caught = Some msg\<rparr>"
| "boundary_step ResetKeyChanged s = (if has_error s then boundary_init else s)"
| "boundary_step TryAgain s = boundary_init"

text \<open>None: the children are rendered.\<close>

definition boundary_message :: "error_boundary \<Rightarrow> jsstring option" where
  "boundary_message s = (if has_error s then
     Some (str_or (nullish (caught s) []) (js ''An unexpected error occurred.'')) else None)"

text \<open>An error shows until the route changes or the operator retries, and no longer: after
  either, the children are rendered again; while it shows, the message is never empty.\<close>

theorem error_boundary_recovers:
  "boundary_message (boundary_step ResetKeyChanged (fold boundary_step evs boundary_init)) = None \<and>
   boundary_message (boundary_step TryAgain (fold boundary_step evs boundary_init)) = None \<and>
   boundary_message (boundary_step (ChildThrows msg) (fold boundary_step evs boundary_init)) =
     Some (if msg = [] then js ''An unexpected error occurred.'' else msg) \<and>
   boundary_message (fold boundary_step evs boundary_init) \<noteq> Some []"
  by (auto simp: boundary_message_def boundary_init_def str_or_def nullish_def split: option.split)

section \<open>Status pills and segmented controls\<close>

datatype status_tone = ToneGreen | ToneAmber | ToneRed | ToneBlue | ToneGray

definition tone_str :: "status_tone \<Rightarrow> jsstring" where
  "tone_str t = (case t of ToneGreen \<Rightarrow> js ''green'' | ToneAmber \<Rightarrow> js ''amber'' | ToneRed \<Rightarrow> js ''red''
     | ToneBlue \<Rightarrow> js ''blue'' | ToneGray \<Rightarrow> js ''gray'')"

text \<open>The class of a pill, its text, and the class of its dot where it has one.\<close>

definition status_dot :: "status_tone \<Rightarrow> bool \<Rightarrow> jsstring" where
  "status_dot t pulse = js ''mc-dot '' @ tone_str t @ (if pulse then js '' pulse'' else [])"

definition status_pill :: "status_tone \<Rightarrow> jsstring \<Rightarrow> bool \<Rightarrow> jsstring \<times> jsstring \<times> jsstring option" where
  "status_pill t txt dot = (js ''mc-pill '' @ tone_str t, txt, if dot then Some (status_dot t False) else None)"

text \<open>The buttons of a segmented control: key, label and whether it is pressed.\<close>

definition segmented :: "('k \<times> jsstring) list \<Rightarrow> 'k \<Rightarrow> ('k \<times> jsstring \<times> bool) list" where
  "segmented opts v = map (\<lambda>(k, l). (k, l, k = v)) opts"

lemma segmented_one_pressed:
  "distinct (map fst opts) \<Longrightarrow> v \<in> fst ` set opts \<Longrightarrow> length (filter (\<lambda>(k, l, p). p) (segmented opts v)) = 1"
  by (induction opts) (auto simp: segmented_def filter_empty_conv image_iff split: if_splits)

section \<open>Plain controls\<close>

text \<open>Spinner, EmptyState, TableSkeleton (the widths of its cells), PageHeader, Card and the copy button (title,
  aria-label and whether the icon is the check mark). An empty optional text is not rendered.\<close>

definition shown_text :: "jsstring option \<Rightarrow> jsstring option" where
  "shown_text t = (case t of None \<Rightarrow> None | Some s \<Rightarrow> if s = [] then None else Some s)"

definition spinner :: "jsstring option \<Rightarrow> jsstring" where
  "spinner label = nullish label (js ''Loading...'')"

definition empty_state :: "jsstring option \<Rightarrow> jsstring \<Rightarrow> jsstring option \<times> jsstring" where
  "empty_state title msg = (shown_text title, msg)"

definition table_skeleton :: "nat option \<Rightarrow> nat option \<Rightarrow> jsstring list list" where
  "table_skeleton rows cols =
     replicate (nullish rows 5) (map (\<lambda>j. if j = 0 then js ''60%'' else js ''85%'') [0 ..< nullish cols 7])"

definition page_header :: "jsstring \<Rightarrow> jsstring option \<Rightarrow> jsstring \<times> jsstring option" where
  "page_header title subtitle = (title, shown_text subtitle)"

definition card_class :: "jsstring option \<Rightarrow> jsstring" where
  "card_class cls = js ''card'' @ (case shown_text cls of None \<Rightarrow> [] | Some c \<Rightarrow> js '' '' @ c)"

definition copy_button :: "bool \<Rightarrow> jsstring \<Rightarrow> jsstring option \<Rightarrow> jsstring \<times> jsstring \<times> bool" where
  "copy_button was_copied txt label = (nullish label (js ''Copy''), nullish label (js ''Copy '' @ txt), was_copied)"

end
