(* ===== verification/Editors.thy ===== *)
theory Editors
  imports Api
begin

text \<open>
  The inline profile editors ui/src/components/DictionaryEditor.tsx and PreprocessorEditor.tsx.
  Both hold a list in their parent and edit it by position; the shared law of such edits is the
  locale \<open>indexed_editor\<close>, interpreted on both editors' update functions.
\<close>

section \<open>DictionaryEditor\<close>

definition new_dictionary :: dictionary_dto where
  "new_dictionary = \<lparr>dd_name = [], dd_entries = [], dd_match_mode = MExact\<rparr>"

definition add_dictionary :: "dictionary_dto list \<Rightarrow> dictionary_dto list" where
  "add_dictionary ds = ds @ [new_dictionary]"

definition remove_dictionary :: "nat \<Rightarrow> dictionary_dto list \<Rightarrow> dictionary_dto list" where
  "remove_dictionary i ds = filter_index_not i ds"

text \<open>\<open>update\<close> is the effect of the Partial object on one dictionary.\<close>

definition update_dictionary :: "nat \<Rightarrow> (dictionary_dto \<Rightarrow> dictionary_dto) \<Rightarrow> dictionary_dto list \<Rightarrow> dictionary_dto list" where
  "update_dictionary i update ds = map_index i update ds"

text \<open>\<open>dictionaries[dictIndex]\<close> is read first: out of range, reading its entries throws (None).\<close>

definition add_entry :: "nat \<Rightarrow> jsstring \<Rightarrow> dictionary_dto list \<Rightarrow> dictionary_dto list option" where
  "add_entry i e ds = (if i < length ds
     then let d = ds ! i in Some (update_dictionary i (\<lambda>x. x\<lparr>dd_entries := dd_entries d @ [e]\<rparr>) ds) else None)"

definition remove_entry :: "nat \<Rightarrow> nat \<Rightarrow> dictionary_dto list \<Rightarrow> dictionary_dto list option" where
  "remove_entry i j ds = (if i < length ds
     then let d = ds ! i in
       Some (update_dictionary i (\<lambda>x. x\<lparr>dd_entries := filter_index_not j (dd_entries d)\<rparr>) ds) else None)"

text \<open>EntryInput: the entry handed to onAdd, if any, and the text left in the input.\<close>

definition entry_input_add :: "jsstring \<Rightarrow> jsstring option \<times> jsstring" where
  "entry_input_add v = (let t = trim v in if t = [] then (None, v) else (Some t, []))"

section \<open>PreprocessorEditor\<close>

definition new_preprocessor :: preprocessor_def where
  "new_preprocessor = \<lparr>pp_name = [], pp_type = js ''csv'', pp_rules = []\<rparr>"

definition add_preprocessor :: "preprocessor_def list \<Rightarrow> preprocessor_def list" where
  "add_preprocessor ps = ps @ [new_preprocessor]"

definition remove_preprocessor :: "nat \<Rightarrow> preprocessor_def list \<Rightarrow> preprocessor_def list" where
  "remove_preprocessor i ps = filter_index_not i ps"

definition update_preprocessor :: "nat \<Rightarrow> (preprocessor_def \<Rightarrow> preprocessor_def) \<Rightarrow> preprocessor_def list \<Rightarrow> preprocessor_def list" where
  "update_preprocessor i update ps = map_index i update ps"

definition add_rule :: "nat \<Rightarrow> preprocessor_rule \<Rightarrow> preprocessor_def list \<Rightarrow> preprocessor_def list option" where
  "add_rule i r ps = (if i < length ps
     then let p = ps ! i in Some (update_preprocessor i (\<lambda>x. x\<lparr>pp_rules := pp_rules p @ [r]\<rparr>) ps) else None)"

definition remove_rule :: "nat \<Rightarrow> nat \<Rightarrow> preprocessor_def list \<Rightarrow> preprocessor_def list option" where
  "remove_rule i j ps = (if i < length ps
     then let p = ps ! i in
       Some (update_preprocessor i (\<lambda>x. x\<lparr>pp_rules := filter_index_not j (pp_rules p)\<rparr>) ps) else None)"

text \<open>RuleInput.handleAdd: the rule handed to onAdd, if any.\<close>

definition rule_input_add :: "jsstring \<Rightarrow> jsstring \<Rightarrow> jsstring \<Rightarrow> mask_mode \<Rightarrow> preprocessor_rule option" where
  "rule_input_add typ columns path mk =
    (let cols = (if typ = js ''csv'' \<and> trim columns \<noteq> [] then Some (map trim (split_on 44 columns)) else None);
         pth = (if typ = js ''json'' \<and> trim path \<noteq> [] then Some (trim path) else None)
     in if cols = None \<and> pth = None then None
        else Some \<lparr>ppr_columns = cols, ppr_path = pth, ppr_mask = mk\<rparr>)"

definition rule_detail :: "preprocessor_rule \<Rightarrow> jsstring" where
  "rule_detail r = (case ppr_columns r of
      Some cs \<Rightarrow> js ''columns: '' @ join_with (js '', '') cs
    | None \<Rightarrow> js ''path: '' @ nullish (ppr_path r) (js ''undefined'')) @ js '' '' @ [0x2192] @ js '' '' @
     mask_mode_str (ppr_mask r)"

section \<open>Editing a list by position\<close>

locale indexed_editor =
  fixes upd :: "nat \<Rightarrow> ('a \<Rightarrow> 'a) \<Rightarrow> 'a list \<Rightarrow> 'a list"
    and del :: "nat \<Rightarrow> 'a list \<Rightarrow> 'a list"
  assumes upd_at: "i < length xs \<Longrightarrow> upd i f xs = xs[i := f (xs ! i)]"
    and upd_out: "length xs \<le> i \<Longrightarrow> upd i f xs = xs"
    and del_at: "del i xs = take i xs @ drop (Suc i) xs"
begin

lemma length_upd: "length (upd i f xs) = length xs"
  by (cases "i < length xs") (simp_all add: upd_at upd_out)

lemma upd_other: "j \<noteq> i \<Longrightarrow> upd i f xs ! j = xs ! j"
  by (cases "i < length xs") (simp_all add: upd_at upd_out)

lemma upd_same: "i < length xs \<Longrightarrow> upd i f xs ! i = f (xs ! i)"
  by (simp add: upd_at)

lemma upd_commute: "i \<noteq> j \<Longrightarrow> upd i f (upd j g xs) = upd j g (upd i f xs)"
  by (cases "i < length xs"; cases "j < length xs") (simp_all add: upd_at upd_out length_upd list_update_swap)

lemma del_snoc: "del (length xs) (xs @ [x]) = xs"
  by (simp add: del_at)

lemma del_upd: "del i (upd i f xs) = del i xs"
  by (cases "i < length xs") (simp_all add: upd_at upd_out del_at)

end

interpretation dictionaries: indexed_editor update_dictionary remove_dictionary
  by unfold_locales (simp_all add: update_dictionary_def remove_dictionary_def map_index_list_update
      map_index_out filter_index_not_eq)

interpretation preprocessors: indexed_editor update_preprocessor remove_preprocessor
  by unfold_locales (simp_all add: update_preprocessor_def remove_preprocessor_def map_index_list_update
      map_index_out filter_index_not_eq)

text \<open>Adding an entry to a dictionary appends it to that dictionary alone, removing the entry at
  the end undoes the addition, and edits of two dictionaries commute; adding a dictionary and
  removing it again is the identity.\<close>

theorem dictionary_editor_laws:
  assumes "i < length ds"
  shows "add_entry i e ds = Some (ds[i := (ds ! i)\<lparr>dd_entries := dd_entries (ds ! i) @ [e]\<rparr>]) \<and>
    Option.bind (add_entry i e ds) (remove_entry i (length (dd_entries (ds ! i)))) = Some ds \<and>
    (j \<noteq> i \<longrightarrow> update_dictionary i f (update_dictionary j g ds) = update_dictionary j g (update_dictionary i f ds)) \<and>
    remove_dictionary (length ds) (add_dictionary ds) = ds"
proof -
  have a: "add_entry i e ds = Some (ds[i := (ds ! i)\<lparr>dd_entries := dd_entries (ds ! i) @ [e]\<rparr>])"
    using assms by (simp add: add_entry_def dictionaries.upd_at Let_def)
  have "Option.bind (add_entry i e ds) (remove_entry i (length (dd_entries (ds ! i)))) = Some ds"
    unfolding a using assms by (simp add: remove_entry_def dictionaries.upd_at Let_def)
  then show ?thesis using a dictionaries.upd_commute dictionaries.del_snoc by (auto simp: add_dictionary_def)
qed

theorem dictionary_editor_laws_witness:
  "add_entry 0 (js ''x'') [new_dictionary] = Some [new_dictionary\<lparr>dd_entries := [js ''x'']\<rparr>]"
  using dictionary_editor_laws [of 0 "[new_dictionary]" "js ''x''"] by (simp add: new_dictionary_def)

text \<open>A rule added to a preprocessor always names what it masks: a CSV rule its trimmed columns
  (as many as the text has commas plus one, so a stray comma yields an empty column name), a
  JSON rule its trimmed path; nothing is added for blank text or an unknown type.\<close>

theorem rule_input_add_cases:
  "(rule_input_add (js ''csv'') columns path mk = None \<longleftrightarrow> trim columns = []) \<and>
   (rule_input_add (js ''json'') columns path mk = None \<longleftrightarrow> trim path = []) \<and>
   (typ \<noteq> js ''csv'' \<and> typ \<noteq> js ''json'' \<longrightarrow> rule_input_add typ columns path mk = None) \<and>
   (\<forall>r. rule_input_add (js ''csv'') columns path mk = Some r \<longrightarrow>
      (\<exists>cs. ppr_columns r = Some cs \<and> length cs = Suc (length (filter (\<lambda>u. u = 44) columns)) \<and>
         (\<forall>c \<in> set cs. trimmed c \<and> 44 \<notin> set c)) \<and> ppr_mask r = mk) \<and>
   (\<forall>r. rule_input_add (js ''json'') columns path mk = Some r \<longrightarrow>
      ppr_columns r = None \<and> (\<exists>p. ppr_path r = Some p \<and> p \<noteq> [] \<and> trimmed p))"
proof -
  have len: "length (split_on 44 s) = Suc (length (filter (\<lambda>u. u = 44) s))" for s
    by (induction s) (auto split: list.splits)
  have clean: "44 \<notin> set (trim c)" if "c \<in> set (split_on 44 columns)" for c
    using split_on_parts [OF that] set_trim [of c] by blast
  show ?thesis using len clean by (auto simp: rule_input_add_def Let_def trimmed_trim split: if_splits)
qed

theorem rule_input_add_cases_witness:
  "\<exists>r. rule_input_add (js ''csv'') (js '','') [] MaskFull = Some r \<and> ppr_columns r = Some [[], []]"
  using rule_input_add_cases [of "js '',''" "[]" MaskFull "[]"]
  by (simp add: rule_input_add_def Let_def trim_def js_def is_ws_def ws_units_def)

end
