(* ===== verification/PageBase.thy ===== *)
theory PageBase
  imports Api Async Hooks
begin

text \<open>
  What the pages share: the outputs of their handlers (toasts, navigation, the clipboard), the
  replies their requests receive (an error or a value), and the shape of the confirmation
  dialog of ui/src/components/ConfirmModal.tsx.
\<close>

datatype page_out =
    Toast jsstring toast_kind
  | Navigate jsstring
  | ReplaceQuery
  | CopyText jsstring
  | OpenUrl jsstring

definition quoted :: "jsstring \<Rightarrow> jsstring" where
  "quoted s = [34] @ s @ [34]"

text \<open>\<open>toast(e?.message ?? fallback, 'error')\<close>: every error of the model has a message.\<close>

definition error_toast :: "js_error \<Rightarrow> page_out" where
  "error_toast e = Toast (error_message e) Error"

text \<open>The two conditional rows that end a table: the empty message and the loading placeholder.\<close>

definition table_footer :: "bool \<Rightarrow> 'a list \<Rightarrow> jsstring \<Rightarrow> jsstring \<Rightarrow> jsstring list" where
  "table_footer loading rows empty_msg loading_msg =
     (if \<not> loading \<and> rows = [] then [empty_msg] else []) @ (if loading then [loading_msg] else [])"

section \<open>Comma separated inputs\<close>

text \<open>\<open>value={xs.join(', ')}\<close> with \<open>onChange\<close> storing
  \<open>v.split(',').map((s) => s.trim()).filter(Boolean)\<close>: the input displays the list it parsed.\<close>

definition parse_comma :: "jsstring \<Rightarrow> jsstring list" where
  "parse_comma v = filter (\<lambda>s. s \<noteq> []) (map trim (split_on 44 v))"

definition show_comma :: "jsstring list \<Rightarrow> jsstring" where
  "show_comma xs = join_with (js '', '') xs"

lemma trim_split_space: "map trim (split_on 44 (32 # u)) = map trim (split_on 44 u)"
proof -
  have "split_on 44 (32 # u) = (32 # hd (split_on 44 u)) # tl (split_on 44 u)"
    by (cases "split_on 44 u") auto
  moreover have "is_ws 32" by (simp add: is_ws_def ws_units_def)
  ultimately show ?thesis by (cases "split_on 44 u") (auto simp: trim_space_Cons)
qed

lemma split_joined:
  assumes "ps \<noteq> []" "\<forall>p \<in> set ps. 44 \<notin> set p"
  shows "map trim (split_on 44 (join_with [44, 32] ps @ 44 # s)) = map trim ps @ map trim (split_on 44 s)"
    and "map trim (split_on 44 (join_with [44, 32] ps)) = map trim ps"
proof -
  have "map trim (split_on 44 (join_with [44, 32] ps @ 44 # s)) = map trim ps @ map trim (split_on 44 s) \<and>
    map trim (split_on 44 (join_with [44, 32] ps)) = map trim ps"
    using assms
  proof (induction ps rule: list_nonempty_induct)
    case (cons p ps)
    obtain q qs where ps: "ps = q # qs" using cons.hyps by (cases ps) auto
    have "split_on 44 (join_with [44, 32] (p # ps) @ 44 # s) = p # split_on 44 (32 # join_with [44, 32] ps @ 44 # s)"
      "split_on 44 (join_with [44, 32] (p # ps)) = p # split_on 44 (32 # join_with [44, 32] ps)"
      using cons.prems by (simp_all add: ps split_on_append_sep)
    then show ?case using cons by (simp add: trim_split_space del: split_on.simps join_with.simps)
  qed (simp add: split_on_append_sep split_on_no_sep)
  then show "map trim (split_on 44 (join_with [44, 32] ps @ 44 # s)) = map trim ps @ map trim (split_on 44 s)"
    and "map trim (split_on 44 (join_with [44, 32] ps)) = map trim ps" by simp_all
qed

text \<open>A list of proper items reads back as itself, and so does its text with a comma typed after it:
  the comma is gone from the input at once.\<close>

definition comma_items :: "jsstring list \<Rightarrow> bool" where
  "comma_items xs \<longleftrightarrow> (\<forall>x \<in> set xs. x \<noteq> [] \<and> trimmed x \<and> 44 \<notin> set x)"

lemma parse_show_comma:
  assumes "comma_items xs"
  shows "parse_comma (show_comma xs @ js '','') = xs" and "parse_comma (show_comma xs) = xs"
proof -
  have j: "js '', '' = [44, 32]" "js '','' = [44]" by (simp_all add: js_def)
  have t: "map trim xs = xs" "\<forall>x \<in> set xs. 44 \<notin> set x" "filter (\<lambda>s. s \<noteq> []) xs = xs"
    using assms by (auto simp: comma_items_def filter_id_conv intro!: map_idI trim_trimmed)
  show "parse_comma (show_comma xs @ js '','') = xs"
    using t split_joined(1) [of xs "[]"] by (cases "xs = []") (auto simp: parse_comma_def show_comma_def j)
  show "parse_comma (show_comma xs) = xs"
    using t split_joined(2) [of xs] by (cases "xs = []") (auto simp: parse_comma_def show_comma_def j)
qed

section \<open>ConfirmModal\<close>

text \<open>What the dialog offers: Escape and a click on the backdrop cancel even while busy, the two
  buttons are disabled then.\<close>

datatype confirm_action = ConfirmClick | CancelClick | EscapeKey | BackdropClick

definition confirm_enabled :: "bool \<Rightarrow> bool \<Rightarrow> confirm_action \<Rightarrow> bool" where
  "confirm_enabled vis busy a \<longleftrightarrow> vis \<and> (a \<in> {ConfirmClick, CancelClick} \<longrightarrow> \<not> busy)"

definition confirm_label :: "bool \<Rightarrow> jsstring \<Rightarrow> jsstring" where
  "confirm_label busy lbl = (if busy then js ''Deleting'' @ [0x2026] else lbl)"

section \<open>Counting requests in flight\<close>

definition in_flight :: "('q \<Rightarrow> bool) \<Rightarrow> ('s, 'o, 'q, 'r) sys \<Rightarrow> nat" where
  "in_flight ex m = length (filter (\<lambda>t. ex (fst t)) (tasks m))"

lemma in_flight_pos: "(\<exists>t \<in> set (tasks m). ex (fst t)) \<longleftrightarrow> in_flight ex m \<noteq> 0"
  by (auto simp: in_flight_def filter_empty_conv)

context busy_flag
begin

text \<open>The contract in the form the pages state it.\<close>

lemma single_flight:
  assumes "sys_reach handler enabled adm (mount init) m"
  shows "in_flight ex m \<le> 1 \<and> (in_flight ex m = 1 \<longrightarrow> fl (ui m)) \<and> (must \<and> fl (ui m) \<longrightarrow> tasks m \<noteq> [])"
  using at_most_one [OF assms] never_stuck [OF assms] in_flight_pos [of m ex]
  by (auto simp: in_flight_def)

end

end
