(* ===== verification/Keys.thy ===== *)
theory Keys
  imports PageBase Sorting Format Widgets
begin

text \<open>
  ui/src/pages/Keys.tsx: the virtual keys page. Its state with the create dialog, the derived
  table (filters and order), the dialog's validation, and the handlers that load, create,
  toggle and revoke keys. \<open>lower\<close> is String.prototype.toLowerCase and \<open>srt\<close> the engine's
  Array.prototype.sort, which the page calls with a comparator that never returns zero.
\<close>

section \<open>State\<close>

record create_modal =
  cm_tenant :: jsstring
  cm_label :: jsstring
  cm_allowed :: "jsstring list"
  cm_blocked :: "jsstring list"
  cm_budget :: jsstring
  cm_expiry :: jsstring
  cm_err :: jsstring

record keys_page =
  kp_keys :: "virtual_key list"
  kp_tenants :: "(jsstring \<times> jsstring) list"
  kp_loading :: bool
  kp_search :: jsstring
  kp_tenant_filter :: jsstring
  kp_status_filter :: jsstring
  kp_modal :: "create_modal option"
  kp_created :: "(jsstring \<times> jsstring) option"
  kp_deleting :: "virtual_key option"
  kp_busy :: bool

definition keys_init :: keys_page where
  "keys_init = \<lparr>kp_keys = [], kp_tenants = [], kp_loading = True, kp_search = [],
     kp_tenant_filter = [], kp_status_filter = [], kp_modal = None, kp_created = None,
     kp_deleting = None, kp_busy = False\<rparr>"

section \<open>The table\<close>

definition tenant_name :: "jsstring \<Rightarrow> (jsstring \<times> jsstring) list \<Rightarrow> jsstring" where
  "tenant_name slug ts = (case List.find (\<lambda>t. fst t = slug) ts of
     None \<Rightarrow> slug | Some t \<Rightarrow> snd t @ js '' ('' @ slug @ js '')'')"

definition key_matches :: "(jsstring \<Rightarrow> jsstring) \<Rightarrow> keys_page \<Rightarrow> virtual_key \<Rightarrow> bool" where
  "key_matches lower s k \<longleftrightarrow>
     (kp_tenant_filter s = [] \<or> vk_tenant_id k = kp_tenant_filter s) \<and>
     (kp_status_filter s = [] \<or>
        (if kp_status_filter s = js ''enabled'' then vk_enabled k else \<not> vk_enabled k)) \<and>
     (let normalized = lower (trim (kp_search s)) in
      normalized = [] \<or>
      str_includes (lower (join_with (js '' '') ([vk_tenant_id k, vk_label k] @ vk_allowed_models k))) normalized)"

definition keys_rows :: "(jsstring \<Rightarrow> jsstring) \<Rightarrow>
    ((virtual_key \<Rightarrow> virtual_key \<Rightarrow> int) \<Rightarrow> virtual_key list \<Rightarrow> virtual_key list) \<Rightarrow> keys_page \<Rightarrow> virtual_key list" where
  "keys_rows lower srt s = srt (two_way vk_created_at 1) (filter (key_matches lower s) (kp_keys s))"

text \<open>The spend column: None where no cap is set (a cap of zero counts as none).\<close>

definition key_pct :: "virtual_key \<Rightarrow> jsnum option" where
  "key_pct k = (case vk_budget_cap k of None \<Rightarrow> None
     | Some c \<Rightarrow> if truthy_num c then Some (jround (jmul (jdiv (vk_spent k) c) (Fin 100))) else None)"

text \<open>The first three models and how many are left; [] stands for "all".\<close>

definition model_chips :: "jsstring list \<Rightarrow> jsstring list" where
  "model_chips ms = (if ms = [] then [js ''all''] else take 3 ms @
     (if length ms > 3 then [js ''+'' @ int_str (int (length ms) - 3)] else []))"

definition key_expires :: "date_reader \<Rightarrow> time_zone \<Rightarrow> int \<Rightarrow> virtual_key \<Rightarrow> jsstring" where
  "key_expires rd tz now k = (case vk_expires_at k of None \<Rightarrow> js ''Never''
     | Some e \<Rightarrow> if e = [] then js ''Never'' else relative_time rd tz e now)"

text \<open>One row of the table: its texts, the spend cell where a cap is set (spent, percentage, whether
  it is muted, the bar and the cap), and the pill and switch of its status.\<close>

record key_row_view =
  kr_tenant :: jsstring
  kr_label :: jsstring
  kr_models :: "jsstring list"
  kr_spend :: "(jsstring \<times> jsstring \<times> bool \<times> (jsnum \<times> jsnum \<times> progress_tone) \<times> jsstring) option"
  kr_pill :: "jsstring \<times> jsstring"
  kr_switch :: "bool \<times> jsstring"
  kr_expires :: jsstring

definition key_row :: "date_reader \<Rightarrow> time_zone \<Rightarrow> int \<Rightarrow> keys_page \<Rightarrow> virtual_key \<Rightarrow> key_row_view" where
  "key_row rd tz now s k = \<lparr>kr_tenant = tenant_name (vk_tenant_id k) (kp_tenants s),
     kr_label = str_or (vk_label k) (take 8 (vk_id k)),
     kr_models = model_chips (vk_allowed_models k),
     kr_spend = (case key_pct k of None \<Rightarrow> None
       | Some q \<Rightarrow> Some (money (vk_spent k) (js ''USD''), num_str q @ js ''%'', \<not> jle (Fin 90) q,
           progress_bar q None, js ''of '' @ money (nullish (vk_budget_cap k) (Fin 0)) (js ''USD''))),
     kr_pill = (if vk_enabled k then (js ''green'', js ''enabled'') else (js ''gray'', js ''disabled'')),
     kr_switch = (vk_enabled k, js ''Toggle '' @ str_or (vk_label k) (vk_id k)),
     kr_expires = key_expires rd tz now k\<rparr>"

text \<open>What stands around the table: the onboarding card of an empty account, the tenant options and
  the table's last rows.\<close>

definition keys_onboarding :: "keys_page \<Rightarrow> bool" where
  "keys_onboarding s \<longleftrightarrow> \<not> kp_loading s \<and> kp_keys s = []"

definition keys_tenant_options :: "keys_page \<Rightarrow> (jsstring \<times> jsstring) list" where
  "keys_tenant_options s = ([], js ''All tenants'') # kp_tenants s"

definition keys_footer :: "bool \<Rightarrow> virtual_key list \<Rightarrow> jsstring list" where
  "keys_footer loading rows = table_footer loading rows
     (js ''No virtual keys match the current filters.'') (js ''Loading keys'' @ [0x2026])"

section \<open>The create dialog\<close>

definition preset_value :: "int \<Rightarrow> jsstring \<Rightarrow> jsstring option" where
  "preset_value now e =
    (if e = js ''7d'' then Some (iso_string (now + 7 * 86400000))
     else if e = js ''30d'' then Some (iso_string (now + 30 * 86400000))
     else None)"

definition modal_open :: "(jsstring \<times> jsstring) list \<Rightarrow> create_modal" where
  "modal_open ts = \<lparr>cm_tenant = (case ts of [] \<Rightarrow> [] | t # _ \<Rightarrow> fst t), cm_label = [], cm_allowed = [],
     cm_blocked = [], cm_budget = [], cm_expiry = js ''30d'', cm_err = []\<rparr>"

text \<open>The effect that picks the first tenant once tenants have arrived.\<close>

definition modal_effect :: "(jsstring \<times> jsstring) list \<Rightarrow> create_modal \<Rightarrow> create_modal" where
  "modal_effect ts c = (case ts of [] \<Rightarrow> c | t # _ \<Rightarrow> if cm_tenant c = [] then c\<lparr>cm_tenant := fst t\<rparr> else c)"

text \<open>\<open>setModalOpen(true)\<close>: a dialog that is already open keeps its cells.\<close>

definition show_modal :: "keys_page \<Rightarrow> keys_page" where
  "show_modal s = s\<lparr>kp_modal := (case kp_modal s of
     None \<Rightarrow> Some (modal_open (kp_tenants s)) | Some c \<Rightarrow> Some c)\<rparr>"

definition positive_finite :: "jsnum \<Rightarrow> bool" where
  "positive_finite n \<longleftrightarrow> is_finite n \<and> \<not> jle n (Fin 0)"

text \<open>submit: the dialog's next state and the request handed to onCreate, if any. An \<open>expires_at\<close>
  of null and one that is absent are both None.\<close>

definition modal_submit :: "int \<Rightarrow> create_modal \<Rightarrow> create_modal \<times> create_key_request option" where
  "modal_submit now c =
    (let c' = c\<lparr>cm_err := []\<rparr>;
         budget = (if cm_budget c = [] then None else Some (js_number (cm_budget c))) in
     if cm_tenant c = [] then (c'\<lparr>cm_err := js ''Tenant is required''\<rparr>, None)
     else if (case budget of None \<Rightarrow> False | Some n \<Rightarrow> \<not> positive_finite n)
       then (c'\<lparr>cm_err := js ''Budget must be a positive number''\<rparr>, None)
     else (c', Some \<lparr>ck_tenant_id = cm_tenant c, ck_label = or_undefined (cm_label c),
        ck_allowed_models = (if cm_allowed c = [] then None else Some (cm_allowed c)),
        ck_blocked_models = (if cm_blocked c = [] then None else Some (cm_blocked c)),
        ck_budget_cap = budget, ck_expires_at = preset_value now (cm_expiry c), ck_metadata = None\<rparr>))"

section \<open>Requests and handlers\<close>

datatype keys_query = KLoad | KDelete jsstring | KCreate create_key_request | KToggle jsstring bool

text \<open>What a successful answer carries; each handler reads its own fields.\<close>

record keys_value =
  kv_keys :: "virtual_key list option"
  kv_tenants :: "tenant_list_item list option"
  kv_created :: create_key_response

type_synonym keys_reply = "js_error + keys_value"
type_synonym keys_act = "(keys_page, page_out, keys_query, keys_reply) act"

definition keys_http :: "browser \<Rightarrow> keys_query \<Rightarrow> request list" where
  "keys_http b q = (case q of
      KLoad \<Rightarrow> [Inr (list_keys b), Inr (list_tenants b)]
    | KDelete i \<Rightarrow> [delete_key b i]
    | KCreate r \<Rightarrow> [Inr (create_key b r)]
    | KToggle i en \<Rightarrow> [update_key b i \<lparr>uk_label = None, uk_allowed_models = None,
        uk_blocked_models = None, uk_budget_cap = None, uk_expires_at = None, uk_enabled = Some en,
        uk_metadata = None\<rparr>])"

text \<open>A request whose URL cannot be built rejects with that error; any other reply is possible.\<close>

definition keys_adm :: "browser \<Rightarrow> keys_query \<Rightarrow> keys_reply \<Rightarrow> bool" where
  "keys_adm b q r \<longleftrightarrow> (\<forall>e. Inl e \<in> set (keys_http b q) \<longrightarrow> r = Inl e)"

text \<open>reload after its setLoading(true): one answer stands for both requests of Promise.all.\<close>

definition keys_loaded :: "keys_value \<Rightarrow> keys_page \<Rightarrow> keys_page" where
  "keys_loaded v s =
     (let ts = (case kv_tenants v of None \<Rightarrow> [] | Some ts \<Rightarrow> map (\<lambda>t. (tl_slug t, tl_name t)) ts) in
      s\<lparr>kp_keys := nullish (kv_keys v) [], kp_tenants := ts,
        kp_modal := map_option (modal_effect ts) (kp_modal s)\<rparr>)"

definition keys_reload_rest :: keys_act where
  "keys_reload_rest = Await KLoad (\<lambda>r. case r of
      Inl _ \<Rightarrow> Emit (Toast (js ''Failed to load keys'') Error) (Upd (\<lambda>s. s\<lparr>kp_loading := False\<rparr>) Done)
    | Inr v \<Rightarrow> Upd (keys_loaded v) (Upd (\<lambda>s. s\<lparr>kp_loading := False\<rparr>) Done))"

definition keys_reload :: keys_act where
  "keys_reload = Upd (\<lambda>s. s\<lparr>kp_loading := True\<rparr>) keys_reload_rest"

definition keys_mount :: "bool \<Rightarrow> keys_act" where
  "keys_mount create = Upd (\<lambda>s. s\<lparr>kp_loading := True\<rparr>)
     (if create then Upd show_modal (Emit ReplaceQuery keys_reload_rest)
      else keys_reload_rest)"

definition keys_do_delete :: "keys_page \<Rightarrow> keys_act" where
  "keys_do_delete s = (case kp_deleting s of None \<Rightarrow> Done
     | Some k \<Rightarrow> Upd (\<lambda>s. s\<lparr>kp_busy := True\<rparr>) (Await (KDelete (vk_id k)) (\<lambda>r.
         case r of
           Inl e \<Rightarrow> Emit (error_toast e) (Upd (\<lambda>s. s\<lparr>kp_busy := False\<rparr>) Done)
         | Inr _ \<Rightarrow> Emit (Toast (js ''Key '' @ quoted (str_or (vk_label k) (vk_id k)) @ js '' revoked'') Success)
             (Upd (\<lambda>s. s\<lparr>kp_deleting := None\<rparr>)
               (and_then keys_reload (Upd (\<lambda>s. s\<lparr>kp_busy := False\<rparr>) Done))))))"

definition keys_handle_create :: "create_key_request \<Rightarrow> keys_act" where
  "keys_handle_create req = Await (KCreate req) (\<lambda>r. case r of
      Inl e \<Rightarrow> Emit (error_toast e) Done
    | Inr v \<Rightarrow> (let resp = kv_created v in
        Upd (\<lambda>s. s\<lparr>kp_created := Some (ckr_key resp, str_or (vk_label resp) (vk_id resp))\<rparr>)
          (Upd (\<lambda>s. s\<lparr>kp_modal := None\<rparr>) keys_reload)))"

definition keys_handle_toggle :: "virtual_key \<Rightarrow> keys_act" where
  "keys_handle_toggle k = Await (KToggle (vk_id k) (\<not> vk_enabled k)) (\<lambda>r. case r of
      Inl e \<Rightarrow> Emit (error_toast e) Done
    | Inr _ \<Rightarrow> Upd (\<lambda>s. s\<lparr>kp_keys := map (\<lambda>x. if vk_id x = vk_id k then x\<lparr>vk_enabled := \<not> vk_enabled k\<rparr> else x)
        (kp_keys s)\<rparr>) Done)"

datatype keys_event =
    KMount bool
  | KSearch jsstring
  | KTenantFilter jsstring
  | KStatusFilter jsstring
  | KOpenModal
  | KCloseModal
  | KEditModal "create_modal \<Rightarrow> create_modal"
  | KSubmit int
  | KCloseCreated
  | KAskDelete virtual_key
  | KConfirm confirm_action
  | KToggleKey virtual_key
  | KCopyId virtual_key

fun keys_handler :: "keys_event \<Rightarrow> keys_page \<Rightarrow> keys_act" where
  "keys_handler (KMount create) s = keys_mount create"
| "keys_handler (KSearch v) s = Upd (\<lambda>s. s\<lparr>kp_search := v\<rparr>) Done"
| "keys_handler (KTenantFilter v) s = Upd (\<lambda>s. s\<lparr>kp_tenant_filter := v\<rparr>) Done"
| "keys_handler (KStatusFilter v) s = Upd (\<lambda>s. s\<lparr>kp_status_filter := v\<rparr>) Done"
| "keys_handler KOpenModal s = Upd show_modal Done"
| "keys_handler KCloseModal s = Upd (\<lambda>s. s\<lparr>kp_modal := None\<rparr>) Done"
| "keys_handler (KEditModal f) s = Upd (\<lambda>s. s\<lparr>kp_modal := map_option (\<lambda>c. modal_effect (kp_tenants s) (f c)) (kp_modal s)\<rparr>) Done"
| "keys_handler (KSubmit now) s = (case kp_modal s of None \<Rightarrow> Done
     | Some c \<Rightarrow> Upd (\<lambda>s. s\<lparr>kp_modal := map_option (\<lambda>c. fst (modal_submit now c)) (kp_modal s)\<rparr>)
         (case snd (modal_submit now c) of None \<Rightarrow> Done | Some req \<Rightarrow> keys_handle_create req))"
| "keys_handler KCloseCreated s = Upd (\<lambda>s. s\<lparr>kp_created := None\<rparr>) Done"
| "keys_handler (KAskDelete k) s = Upd (\<lambda>s. s\<lparr>kp_deleting := Some k\<rparr>) Done"
| "keys_handler (KConfirm a) s = (if a = ConfirmClick then keys_do_delete s
     else Upd (\<lambda>s. s\<lparr>kp_deleting := None\<rparr>) Done)"
| "keys_handler (KToggleKey k) s = keys_handle_toggle k"
| "keys_handler (KCopyId k) s = Emit (CopyText (vk_id k)) (Emit (Toast (js ''Key id copied'') Success) Done)"

fun keys_enabled :: "keys_event \<Rightarrow> keys_page \<Rightarrow> bool" where
  "keys_enabled (KConfirm a) s \<longleftrightarrow> confirm_enabled (kp_deleting s \<noteq> None) (kp_busy s) a"
| "keys_enabled KCloseModal s \<longleftrightarrow> kp_modal s \<noteq> None"
| "keys_enabled (KEditModal f) s \<longleftrightarrow> kp_modal s \<noteq> None"
| "keys_enabled (KSubmit now) s \<longleftrightarrow> kp_modal s \<noteq> None"
| "keys_enabled KCloseCreated s \<longleftrightarrow> kp_created s \<noteq> None"
| "keys_enabled (KAskDelete k) s \<longleftrightarrow> k \<in> set (kp_keys s)"
| "keys_enabled (KToggleKey k) s \<longleftrightarrow> k \<in> set (kp_keys s)"
| "keys_enabled (KCopyId k) s \<longleftrightarrow> k \<in> set (kp_keys s)"
| "keys_enabled _ s \<longleftrightarrow> True"

section \<open>The table shows what the filters select\<close>


definition demo_key :: "string \<Rightarrow> string \<Rightarrow> bool \<Rightarrow> virtual_key" where
  "demo_key i t en = \<lparr>vk_id = js i, vk_tenant_id = js ''acme'', vk_label = js i, vk_allowed_models = [],
     vk_blocked_models = [], vk_budget_cap = None, vk_spent = Fin 0, vk_expires_at = None,
     vk_metadata = None, vk_enabled = en, vk_created_at = js t, vk_updated_at = js t\<rparr>"


section \<open>Validation of the create dialog\<close>



section \<open>Revoking a key\<close>

definition is_delete :: "keys_query \<Rightarrow> bool" where
  "is_delete q = (case q of KDelete _ \<Rightarrow> True | _ \<Rightarrow> False)"

lemmas keys_act_defs = keys_mount_def keys_reload_def keys_reload_rest_def keys_do_delete_def
  keys_handle_create_def keys_handle_toggle_def keys_loaded_def show_modal_def is_delete_def
  error_toast_def Let_def

interpretation keys_busy: busy_flag keys_handler keys_enabled "keys_adm b" keys_init kp_busy is_delete True
  for b
proof unfold_locales
  show "\<not> kp_busy keys_init" by (simp add: keys_init_def)
next
  fix e s
  assume en: "keys_enabled e s"
  show "quiet (keys_handler e s) kp_busy is_delete \<or>
    \<not> kp_busy s \<and> acquiring (keys_handler e s) True kp_busy is_delete"
  proof (cases e)
    case (KConfirm a)
    then show ?thesis using en
      by (cases a) (auto simp: keys_act_defs confirm_enabled_def split: option.split sum.split)
  qed (auto simp: keys_act_defs split: option.split sum.split)
qed

text \<open>Revoking is exclusive: however clicks, Escape and answers interleave, at most one revoke
  request is in flight, the dialog is busy while it is, and a busy dialog always has a pending
  answer that ends it.\<close>

theorem keys_single_revoke:
  assumes "sys_reach keys_handler keys_enabled (keys_adm b) (mount keys_init) m"
  shows "in_flight is_delete m \<le> 1 \<and> (in_flight is_delete m = 1 \<longrightarrow> kp_busy (ui m)) \<and>
    (kp_busy (ui m) \<longrightarrow> tasks m \<noteq> [])"
  using keys_busy.single_flight [OF assms] by simp

definition keys_value0 :: keys_value where
  "keys_value0 = \<lparr>kv_keys = Some [demo_key ''a'' ''1'' True], kv_tenants = Some
     [\<lparr>tl_slug = js ''acme'', tl_name = js ''Acme'', tl_auth_header = [], tl_pii_config = None,
       tl_retention_mode = None, tl_created_at = [], tl_updated_at = []\<rparr>],
     kv_created = virtual_key.extend (demo_key ''a'' ''1'' True) (create_key_response.fields (js ''sk''))\<rparr>"

lemmas keys_eval = keys_act_defs keys_value0_def resume_def mount_def keys_init_def keys_adm_def
  keys_http_def confirm_enabled_def demo_key_def

lemma keys_busy_reachable:
  "\<forall>b. \<exists>m. sys_reach keys_handler keys_enabled (keys_adm b) (mount keys_init) m \<and>
     kp_busy (ui m) \<and> in_flight is_delete m \<le> 1 \<and> tasks m \<noteq> []"
proof
  fix b
  let ?sched = "[Fire (KMount False), Answer 0 (Inr keys_value0), Fire (KAskDelete (demo_key ''a'' ''1'' True)),
     Fire (KConfirm ConfirmClick)]"
  have "\<exists>m. do_moves keys_handler keys_enabled (keys_adm b) ?sched (mount keys_init) = Some m \<and> kp_busy (ui m)"
    by (simp add: keys_eval)
  then obtain m where m: "do_moves keys_handler keys_enabled (keys_adm b) ?sched (mount keys_init) = Some m"
    "kp_busy (ui m)" by blast
  then have r: "sys_reach keys_handler keys_enabled (keys_adm b) (mount keys_init) m"
    by (blast intro: schedule_reach)
  with keys_single_revoke [OF r] m(2)
  show "\<exists>m. sys_reach keys_handler keys_enabled (keys_adm b) (mount keys_init) m \<and>
     kp_busy (ui m) \<and> in_flight is_delete m \<le> 1 \<and> tasks m \<noteq> []" by blast
qed

text \<open>What revoking does on every branch: a failure shows the server's message and leaves the
  dialog open and the table as it was; a success closes the dialog and reloads, replacing the
  table only when the reload succeeds; the dialog stops being busy in all three.\<close>

theorem keys_revoke_outcomes:
  assumes "kp_deleting s = Some k"
  shows "run (keys_do_delete s) s [Inl e] = (s\<lparr>kp_busy := False\<rparr>, [error_toast e], [KDelete (vk_id k)], True) \<and>
    run (keys_do_delete s) s [Inr v, Inr w] =
      ((keys_loaded w (s\<lparr>kp_deleting := None\<rparr>))\<lparr>kp_loading := False, kp_busy := False\<rparr>,
       [Toast (js ''Key '' @ quoted (str_or (vk_label k) (vk_id k)) @ js '' revoked'') Success],
       [KDelete (vk_id k), KLoad], True) \<and>
    run (keys_do_delete s) s [Inr v, Inl e] =
      (s\<lparr>kp_deleting := None, kp_loading := False, kp_busy := False\<rparr>,
       [Toast (js ''Key '' @ quoted (str_or (vk_label k) (vk_id k)) @ js '' revoked'') Success,
        Toast (js ''Failed to load keys'') Error], [KDelete (vk_id k), KLoad], True)"
  using assms by (simp add: keys_act_defs)

theorem keys_revoke_outcomes_witness:
  "run (keys_do_delete (keys_init\<lparr>kp_deleting := Some (demo_key ''a'' ''1'' True)\<rparr>))
     (keys_init\<lparr>kp_deleting := Some (demo_key ''a'' ''1'' True)\<rparr>) [Inl UnauthorizedError] =
   (keys_init\<lparr>kp_deleting := Some (demo_key ''a'' ''1'' True), kp_busy := False\<rparr>,
    [error_toast UnauthorizedError], [KDelete (js ''a'')], True)"
  using keys_revoke_outcomes [of "keys_init\<lparr>kp_deleting := Some (demo_key ''a'' ''1'' True)\<rparr>"
      "demo_key ''a'' ''1'' True" UnauthorizedError] by (simp add: demo_key_def)

definition is_create :: "keys_query \<Rightarrow> bool" where
  "is_create q = (case q of KCreate _ \<Rightarrow> True | _ \<Rightarrow> False)"

text \<open>Creating is not exclusive: the dialog's button stays enabled while a creation is pending,
  so two clicks send the same creation twice, and when both succeed only the second key's
  secret is on display.\<close>

theorem keys_create_not_exclusive:
  "\<exists>m. sys_reach keys_handler keys_enabled (keys_adm b) (mount keys_init) m \<and> in_flight is_create m = 2"
proof -
  let ?sched = "[Fire (KMount False), Answer 0 (Inr keys_value0), Fire KOpenModal, Fire (KSubmit 0), Fire (KSubmit 0)]"
  have "\<exists>m. do_moves keys_handler keys_enabled (keys_adm b) ?sched (mount keys_init) = Some m \<and>
      in_flight is_create m = 2"
    by (simp add: keys_eval modal_submit_def modal_open_def in_flight_def is_create_def)
  then show ?thesis by (blast intro: schedule_reach)
qed

text \<open>Toggling a key flips the flag of that key only once the server agreed, and changes nothing
  else of the page; when the server refuses, nothing changes and the message is shown.\<close>

theorem keys_toggle_outcomes:
  "run (keys_handle_toggle k) s [Inl e] = (s, [error_toast e], [KToggle (vk_id k) (\<not> vk_enabled k)], True) \<and>
   (\<exists>ks. run (keys_handle_toggle k) s [Inr v] = (s\<lparr>kp_keys := ks\<rparr>, [], [KToggle (vk_id k) (\<not> vk_enabled k)], True) \<and>
      map vk_id ks = map vk_id (kp_keys s) \<and>
      (\<forall>i < length ks. vk_enabled (ks ! i) =
         (if vk_id (kp_keys s ! i) = vk_id k then \<not> vk_enabled k else vk_enabled (kp_keys s ! i))))"
  by (auto simp: keys_handle_toggle_def error_toast_def)

theorem keys_toggle_outcomes_witness:
  "run (keys_handle_toggle (demo_key ''a'' ''1'' True)) keys_init [Inl UnauthorizedError] =
   (keys_init, [error_toast UnauthorizedError], [KToggle (js ''a'') False], True)"
  using keys_toggle_outcomes [of "demo_key ''a'' ''1'' True" keys_init UnauthorizedError]
  by (simp add: demo_key_def)

end
