(* ===== verification/Ratio.thy ===== *)
theory Ratio
  imports JsNumber
begin

text \<open>
  Percentages as the console computes them, \<open>spent / limit * 100\<close> in binary64. Two roundings
  notwithstanding, the result reaches 100 exactly when the limit is reached: the quotient of a
  double by a larger one rounds to at most the double below 1, and a hundred times that double
  rounds below 100.
\<close>

definition percent_of :: "jsnum \<Rightarrow> jsnum \<Rightarrow> jsnum" where
  "percent_of spent limit = jmul (jdiv spent limit) (Fin 100)"

lemma below_one_double: "fl_raw (1 - pow2 (- 53)) = 1 - pow2 (- 53)"
  by code_simp

lemma below_hundred: "fl_raw ((1 - pow2 (- 53)) * 100) < 100"
  by code_simp

lemma fl_raw_1: "fl_raw 1 = 1"
  using fl_raw_int [of 1] by simp

lemma fl_raw_100: "fl_raw 100 = 100"
  using fl_raw_int [of 100] by simp

lemma is_double_int: "\<bar>n\<bar> \<le> 2 ^ 53 \<Longrightarrow> is_double (of_int n)"
proof -
  assume n: "\<bar>n\<bar> \<le> 2 ^ 53"
  have "fl64 (of_int n) = Fin (of_int n)" "fl_raw (of_int n) = of_int n"
    using fl64_int [OF n] fl_raw_int [OF n] by auto
  then show ?thesis by (auto simp: is_double_def fl64_def Let_def split: if_splits)
qed

lemma fl64_ge: "0 \<le> b \<Longrightarrow> b \<le> fl_raw y \<Longrightarrow> fl64 y = PInf \<or> (\<exists>x. fl64 y = Fin x \<and> b \<le> x)"
  using pow2_pos [of 1024] by (simp add: fl64_def Let_def)

lemma percent_reached:
  assumes "0 < h" "h \<le> s"
  shows "percent_of (Fin s) (Fin h) \<noteq> NaN \<and> jle (Fin 100) (percent_of (Fin s) (Fin h))"
proof -
  have q: "1 \<le> s / h" using assms by simp
  have "1 \<le> fl_raw (s / h)" using fl_raw_mono [OF q] fl_raw_1 by simp
  then consider x where "fl64 (s / h) = Fin x" "1 \<le> x" | "fl64 (s / h) = PInf"
    using fl64_ge [of 1 "s / h"] by auto
  then show ?thesis
  proof cases
    case (1 x)
    have "100 \<le> fl_raw (x * 100)" using fl_raw_mono [of 100 "x * 100"] fl_raw_100 1(2) by simp
    then have "\<not> fl64 (x * 100) = NaN \<and> jle (Fin 100) (fl64 (x * 100))"
      using fl64_ge [of 100 "x * 100"] by auto
    then show ?thesis using 1 assms by (simp add: percent_of_def)
  next
    case 2
    then show ?thesis using assms by (simp add: percent_of_def inf_of_sign_def)
  qed
qed

lemma percent_below:
  assumes "is_double s" "is_double h" "0 \<le> s" "s < h"
  shows "\<exists>p. percent_of (Fin s) (Fin h) = Fin p \<and> 0 \<le> p \<and> p < 100"
proof -
  have h0: "0 < h" using assms(3,4) by simp
  have "s \<le> h * (1 - pow2 (- 53))"
    using double_pred [of s h] assms h0 by (simp add: is_double_def)
  then have q: "0 \<le> s / h" "s / h \<le> 1 - pow2 (- 53)"
    using h0 assms(3) by (simp_all add: pos_divide_le_eq mult.commute)
  define x where "x = fl_raw (s / h)"
  have x: "0 \<le> x" "x \<le> 1 - pow2 (- 53)"
    using fl_raw_nonneg [OF q(1)] fl_raw_mono [OF q(2)] below_one_double by (simp_all add: x_def)
  have p53: "0 \<le> pow2 (- 53)" by (rule pow2_nonneg)
  have "\<bar>s / h\<bar> \<le> 1" unfolding abs_le_iff using q p53 by linarith
  then have sm1: "\<bar>s / h\<bar> \<le> 9007199254740992" by linarith
  have sm2: "\<bar>x * 100\<bar> \<le> 9007199254740992" unfolding abs_le_iff using x p53 by linarith
  have "fl_raw (x * 100) \<le> fl_raw ((1 - pow2 (- 53)) * 100)" using x(2) by (intro fl_raw_mono) simp
  then have "fl_raw (x * 100) < 100" using below_hundred by simp
  moreover have "0 \<le> fl_raw (x * 100)" using x(1) by (intro fl_raw_nonneg) simp
  moreover have "percent_of (Fin s) (Fin h) = Fin (fl_raw (x * 100))"
    using h0 fl64_small [OF sm1] fl64_small [OF sm2] by (simp add: percent_of_def x_def)
  ultimately show ?thesis by simp
qed

section \<open>Quotients of whole numbers\<close>

text \<open>A whole number of at most 53 bits times a power of two is a double.\<close>

lemma fl_raw_dyadic_pos:
  assumes "0 < n" "n < 2 ^ 53" "- 1074 \<le> e"
  shows "fl_raw (of_int n * pow2 e) = of_int n * pow2 e"
proof -
  define x where "x = of_int n * pow2 e"
  have x: "0 < x" using assms(1) by (simp add: x_def)
  have "(of_int n :: rat) < of_int (2 ^ 53)" using assms(2) by (simp only: of_int_less_iff)
  then have "of_int n * pow2 e < pow2 53 * pow2 e" using pow2_of_nat [of 53] by (intro mult_strict_right_mono) simp_all
  then have "x < pow2 (e + 53)" by (simp add: x_def pow2_add mult.commute)
  then have "pow2 (ilog2 x) < pow2 (e + 53)" using ilog2_bounds(1) [OF x] by linarith
  then have "ilog2 x - 52 \<le> e" by (simp add: pow2_less_iff)
  then have le: "ulp_exp x - 52 \<le> e" using x assms(3) by (simp add: ulp_exp_def)
  then have "pow2 e = of_int (2 ^ nat (e - (ulp_exp x - 52))) * pow2 (ulp_exp x - 52)"
    using pow2_of_nat [of "nat (e - (ulp_exp x - 52))"] pow2_add [of "e - (ulp_exp x - 52)" "ulp_exp x - 52"] by simp
  then have "x = of_int (n * 2 ^ nat (e - (ulp_exp x - 52))) * pow2 (ulp_exp x - 52)" by (simp add: x_def)
  from fl_raw_mult_ulp [OF x this] show ?thesis by (simp add: x_def)
qed

text \<open>Below a whole number by at least 2^-22, a quotient stays below it when it is rounded.\<close>

lemma fl_raw_below_int:
  assumes "x \<le> of_int k - pow2 (- 22)" "0 < k" "k \<le> 2 ^ 31"
  shows "fl_raw x < of_int k"
proof -
  define n where "n = k * 2 ^ 22 - 1"
  have n: "0 < n" "n < 2 ^ 53" using assms(2,3) by (simp_all add: n_def)
  have "of_int n * pow2 (- 22) = (of_int k - pow2 (- 22) :: rat)" by (simp add: n_def pow2_def field_simps)
  then have "fl_raw (of_int k - pow2 (- 22)) = of_int k - pow2 (- 22)" using fl_raw_dyadic_pos [OF n, of "- 22"] by simp
  moreover have "fl_raw x \<le> fl_raw (of_int k - pow2 (- 22))" by (rule fl_raw_mono [OF assms(1)])
  ultimately show ?thesis using pow2_pos [of "- 22"] by linarith
qed

lemma floor_quotient:
  assumes "0 \<le> n" "0 < d" "d \<le> 2 ^ 22" "n div d < 2 ^ 31"
  shows "jfloor (jdiv (Fin (of_int n)) (Fin (of_int d))) = Fin (of_int (n div d))"
proof -
  define k where "k = n div d"
  have k: "0 \<le> k" "k < 2 ^ 31" using assms by (simp_all add: k_def pos_imp_zdiv_nonneg_iff)
  have dr: "(0 :: rat) < of_int d" using assms(2) by simp
  have n: "n = k * d + n mod d" by (simp add: k_def)
  have "n mod d < d" "0 \<le> n mod d" using assms(2) by simp_all
  then have "n \<le> (k + 1) * d - 1" "k * d \<le> n" using n by (simp_all add: distrib_right)
  then have r: "(of_int n :: rat) \<le> of_int ((k + 1) * d - 1)" "of_int (k * d) \<le> (of_int n :: rat)" by (simp_all only: of_int_le_iff)
  have "of_int n / of_int d \<le> (of_int ((k + 1) * d - 1) :: rat) / of_int d" using r(1) dr by (intro divide_right_mono) simp_all
  also have "\<dots> = of_int (k + 1) - 1 / of_int d" using dr by (simp add: field_simps)
  also have "\<dots> \<le> of_int (k + 1) - pow2 (- 22)"
  proof -
    have "(of_int d :: rat) \<le> of_int (2 ^ 22)" using assms(3) by (simp only: of_int_le_iff)
    then show ?thesis using dr by (simp add: pow2_def field_simps)
  qed
  finally have up0: "of_int n / of_int d \<le> of_int (k + 1) - pow2 (- 22)" .
  then have up: "fl_raw (of_int n / of_int d) < of_int (k + 1)" using k by (intro fl_raw_below_int) simp_all
  have "of_int k \<le> (of_int n :: rat) / of_int d" using r(2) dr by (simp add: pos_le_divide_eq)
  then have "fl_raw (of_int k) \<le> fl_raw (of_int n / of_int d)" by (rule fl_raw_mono)
  then have lo: "of_int k \<le> fl_raw (of_int n / of_int d)" using fl_raw_int [of k] k by simp
  have "(of_int n :: rat) / of_int d \<le> of_int (k + 1)" using up0 pow2_pos [of "- 22"] by linarith
  moreover have "(of_int (k + 1) :: rat) \<le> of_int 9007199254740992" using k by (simp only: of_int_le_iff) simp
  ultimately have "\<bar>of_int n / of_int d\<bar> \<le> (9007199254740992 :: rat)" using assms(1) dr by simp
  moreover have "\<lfloor>fl_raw (of_int n / of_int d)\<rfloor> = k" using up lo by (intro floor_unique) simp_all
  ultimately show ?thesis using dr by (simp add: fl64_small jfloor_def jlift_def k_def)
qed

end
