(* ===== verification/Budgets.thy ===== *)
theory Budgets
  imports PageBase Sorting Format Ratio
begin

text \<open>
  ui/src/pages/Budgets.tsx: the budgets page with its create dialog and spend history. The
  currency formatter (Intl.NumberFormat, None when it rejects the currency) and the localised
  date are arguments. The spend bar is analysed on binary64 numbers with the lemmas of Ratio.
\<close>

section \<open>Labels\<close>

definition fmt_time :: "(jsstring \<Rightarrow> jsstring) \<Rightarrow> jsstring option \<Rightarrow> jsstring" where
  "fmt_time loc stamp = (case stamp of None \<Rightarrow> dash | Some t \<Rightarrow> if t = [] then dash else loc t)"

definition fmt_money :: "(jsstring \<Rightarrow> jsnum \<Rightarrow> jsstring option) \<Rightarrow> jsnum option \<Rightarrow> jsstring option \<Rightarrow> jsstring" where
  "fmt_money nf v currency = (case v of None \<Rightarrow> dash
     | Some x \<Rightarrow> (let cur = str_or (nullish currency []) (js ''USD'') in
         (case nf cur x of Some t \<Rightarrow> t | None \<Rightarrow> num_str x @ js '' '' @ cur)))"

definition scope_label :: "jsstring \<Rightarrow> jsstring" where
  "scope_label sc = (if sc = js ''key'' then js ''Key'' else if sc = js ''model'' then js ''Model'' else js ''Tenant'')"

definition period_label :: "budget \<Rightarrow> jsstring" where
  "period_label b =
    (if bud_type b = js ''monthly'' then js ''Monthly''
     else if bud_type b = js ''daily'' then js ''Daily''
     else if bud_type b = js ''custom'' then js ''Every '' @
       num_str (if truthy_num (bud_custom_days b) then bud_custom_days b else Fin 30) @ js ''d''
     else bud_type b)"

definition spend_percent :: "budget \<Rightarrow> jsnum option" where
  "spend_percent b = (case bud_hard_limit b of None \<Rightarrow> None
     | Some l \<Rightarrow> if \<not> truthy_num l \<or> jle l (Fin 0) then None
         else Some (jmin (Fin 100) (percent_of (bud_spent b) l)))"

definition bar_warns :: "budget \<Rightarrow> bool" where
  "bar_warns b = (case spend_percent b of None \<Rightarrow> False | Some p \<Rightarrow> jle (Fin 90) p)"

definition notify_cell :: "budget \<Rightarrow> jsstring" where
  "notify_cell b = (if bud_notify_at b = [] then dash
     else join_with (js '', '') (map (\<lambda>p. num_str p @ js ''%'') (bud_notify_at b)))"

section \<open>State\<close>

record key_option =
  ko_id :: jsstring
  ko_label :: jsstring
  ko_tenant_id :: jsstring

record budget_modal =
  bm_req :: create_budget_request
  bm_err :: jsstring

datatype budget_column = ColTenant | ColScope | ColType | ColHardLimit | ColEnabled

record budgets_page =
  bp_budgets :: "budget list"
  bp_tenants :: "(jsstring \<times> jsstring) list"
  bp_keys :: "key_option list"
  bp_loading :: bool
  bp_sort :: "budget_column sort_state"
  bp_modal :: "budget_modal option"
  bp_deleting :: "budget option"
  bp_history_of :: "budget option"
  bp_history :: "spend_entry list"
  bp_busy :: bool

definition budgets_init :: budgets_page where
  "budgets_init = \<lparr>bp_budgets = [], bp_tenants = [], bp_keys = [], bp_loading = True,
     bp_sort = \<lparr>sort_key = Some ColTenant, sort_dir = Asc\<rparr>, bp_modal = None, bp_deleting = None,
     bp_history_of = None, bp_history = [], bp_busy = False\<rparr>"

definition budget_cell :: "budget \<Rightarrow> budget_column \<Rightarrow> cell" where
  "budget_cell b c = (case c of
      ColTenant \<Rightarrow> CStr (bud_tenant_id b)
    | ColScope \<Rightarrow> CStr (bud_scope b)
    | ColType \<Rightarrow> CStr (bud_type b)
    | ColHardLimit \<Rightarrow> (case bud_hard_limit b of None \<Rightarrow> CUndef | Some n \<Rightarrow> CNum n)
    | ColEnabled \<Rightarrow> CBool (bud_enabled b))"

definition budget_rows :: "budgets_page \<Rightarrow> budget list" where
  "budget_rows s = sort_rows budget_cell (bp_budgets s) (sort_key (bp_sort s)) (sort_dir (bp_sort s))"

text \<open>The Target column.\<close>

definition budget_target :: "budgets_page \<Rightarrow> budget \<Rightarrow> jsstring" where
  "budget_target s b =
    (if bud_scope b = js ''key'' then
       (case List.find (\<lambda>k. ko_id k = bud_virtual_key_id b) (bp_keys s) of
          None \<Rightarrow> bud_virtual_key_id b | Some k \<Rightarrow> ko_label k)
     else if bud_scope b = js ''model'' then str_or (bud_model b) dash
     else js ''All models'')"

definition budget_tenant :: "budgets_page \<Rightarrow> jsstring \<Rightarrow> jsstring" where
  "budget_tenant s slug = (case List.find (\<lambda>t. fst t = slug) (bp_tenants s) of
     None \<Rightarrow> slug | Some t \<Rightarrow> snd t @ js '' ('' @ slug @ js '')'')"

text \<open>One row of the table; the bar is its width and whether it warns.\<close>

record budget_row_view =
  br_tenant :: jsstring
  br_scope :: jsstring
  br_period :: jsstring
  br_target :: jsstring
  br_limit :: jsstring
  br_bar :: "bool \<times> jsstring"
  br_spent :: jsstring
  br_notify :: jsstring
  br_status :: jsstring
  br_toggle :: jsstring

definition budget_row :: "(jsstring \<Rightarrow> jsnum \<Rightarrow> jsstring option) \<Rightarrow> budgets_page \<Rightarrow> budget \<Rightarrow> budget_row_view" where
  "budget_row nf s b = \<lparr>br_tenant = budget_tenant s (bud_tenant_id b),
     br_scope = scope_label (bud_scope b), br_period = period_label b, br_target = budget_target s b,
     br_limit = fmt_money nf (bud_hard_limit b) (Some (bud_currency b)),
     br_bar = (bar_warns b, num_str (nullish (spend_percent b) (Fin 0)) @ js ''%''),
     br_spent = fmt_money nf (Some (bud_spent b)) (Some (bud_currency b)),
     br_notify = notify_cell b,
     br_status = (if bud_enabled b then js ''enabled'' else js ''disabled''),
     br_toggle = (if bud_enabled b then js ''Disable'' else js ''Enable'')\<rparr>"

definition budgets_footer :: "bool \<Rightarrow> budget list \<Rightarrow> jsstring list" where
  "budgets_footer loading rows = table_footer loading rows (js ''No budgets configured'') (js ''TableSkeleton'')"

text \<open>The rows of the history dialog.\<close>

definition history_row :: "(jsstring \<Rightarrow> jsstring) \<Rightarrow> (jsstring \<Rightarrow> jsnum \<Rightarrow> jsstring option) \<Rightarrow> budget \<Rightarrow>
    spend_entry \<Rightarrow> jsstring list" where
  "history_row loc nf b e = [fmt_time loc (Some (sp_created_at e)), sp_model e, num_str (sp_tokens e),
     fmt_money nf (Some (sp_cost e)) (Some (bud_currency b))]"

section \<open>The create dialog\<close>

definition budget_modal_open :: "(jsstring \<times> jsstring) list \<Rightarrow> budget_modal" where
  "budget_modal_open ts = \<lparr>bm_req = \<lparr>cb_tenant_id = (case ts of [] \<Rightarrow> [] | t # _ \<Rightarrow> fst t),
     cb_virtual_key_id = None, cb_model = None, cb_scope = js ''tenant'', cb_type = js ''monthly'',
     cb_custom_days = None, cb_soft_limit = None, cb_hard_limit = None, cb_currency = None,
     cb_notify_at = Some []\<rparr>, bm_err = []\<rparr>"

datatype budget_edit =
    EditTenant jsstring
  | EditScope jsstring
  | EditKey jsstring
  | EditModel jsstring
  | EditType jsstring
  | EditDays jsstring
  | EditHard jsstring
  | EditSoft jsstring
  | EditNotify jsstring
  | EditCurrency jsstring

definition parse_limit :: "jsstring \<Rightarrow> jsnum option" where
  "parse_limit v = (if v = [] then None else Some (parse_float v))"

definition parse_days :: "jsstring \<Rightarrow> jsnum" where
  "parse_days v = (let n = parse_int10 v in if truthy_num n then n else Fin 30)"

definition parse_notify :: "jsstring \<Rightarrow> jsnum list" where
  "parse_notify v = filter (\<lambda>n. n \<noteq> NaN) (map (\<lambda>s. parse_float (trim s)) (split_on 44 v))"

text \<open>What the notify input displays: the list it parsed, not the text that was typed.\<close>

definition notify_text :: "jsnum list option \<Rightarrow> jsstring" where
  "notify_text ns = join_with (js '', '') (map num_str (nullish ns []))"

fun apply_budget_edit :: "budget_edit \<Rightarrow> create_budget_request \<Rightarrow> create_budget_request" where
  "apply_budget_edit (EditTenant v) q = q\<lparr>cb_tenant_id := v, cb_virtual_key_id := None\<rparr>"
| "apply_budget_edit (EditScope v) q = q\<lparr>cb_scope := v\<rparr>"
| "apply_budget_edit (EditKey v) q = q\<lparr>cb_virtual_key_id := Some v\<rparr>"
| "apply_budget_edit (EditModel v) q = q\<lparr>cb_model := Some v\<rparr>"
| "apply_budget_edit (EditType v) q = q\<lparr>cb_type := v\<rparr>"
| "apply_budget_edit (EditDays v) q = q\<lparr>cb_custom_days := Some (parse_days v)\<rparr>"
| "apply_budget_edit (EditHard v) q = q\<lparr>cb_hard_limit := parse_limit v\<rparr>"
| "apply_budget_edit (EditSoft v) q = q\<lparr>cb_soft_limit := parse_limit v\<rparr>"
| "apply_budget_edit (EditNotify v) q = q\<lparr>cb_notify_at := Some (parse_notify v)\<rparr>"
| "apply_budget_edit (EditCurrency v) q = q\<lparr>cb_currency := Some v\<rparr>"

definition tenant_keys :: "key_option list \<Rightarrow> create_budget_request \<Rightarrow> key_option list" where
  "tenant_keys ks q = filter (\<lambda>k. ko_tenant_id k = cb_tenant_id q) ks"

definition budget_submit :: "budget_modal \<Rightarrow> budget_modal \<times> create_budget_request option" where
  "budget_submit c =
    (let q = bm_req c; c' = c\<lparr>bm_err := []\<rparr> in
     if cb_tenant_id q = [] then (c'\<lparr>bm_err := js ''Tenant is required''\<rparr>, None)
     else if cb_scope q = js ''key'' \<and> \<not> truthy_str (cb_virtual_key_id q)
       then (c'\<lparr>bm_err := js ''Key scope requires a key''\<rparr>, None)
     else if cb_scope q = js ''model'' \<and> \<not> truthy_str (cb_model q)
       then (c'\<lparr>bm_err := js ''Model scope requires a model''\<rparr>, None)
     else (c', Some \<lparr>cb_tenant_id = cb_tenant_id q,
        cb_virtual_key_id = (if cb_scope q = js ''key'' then cb_virtual_key_id q else None),
        cb_model = (if cb_scope q = js ''model'' then cb_model q else None),
        cb_scope = cb_scope q, cb_type = cb_type q,
        cb_custom_days = Some (if cb_type q = js ''custom'' then nullish (cb_custom_days q) (Fin 30) else Fin 0),
        cb_soft_limit = cb_soft_limit q, cb_hard_limit = cb_hard_limit q,
        cb_currency = (if truthy_str (cb_currency q) then cb_currency q else None),
        cb_notify_at = Some (nullish (cb_notify_at q) [])\<rparr>))"

section \<open>Requests and handlers\<close>

datatype budgets_query = BLoad | BDelete jsstring | BCreate create_budget_request | BToggle jsstring bool | BHistory jsstring

record budgets_value =
  bv_budgets :: "budget list option"
  bv_tenants :: "tenant_list_item list option"
  bv_keys :: "virtual_key list option"
  bv_history :: "spend_entry list option"

type_synonym budgets_reply = "js_error + budgets_value"
type_synonym budgets_act = "(budgets_page, page_out, budgets_query, budgets_reply) act"

definition budgets_http :: "browser \<Rightarrow> budgets_query \<Rightarrow> request list" where
  "budgets_http b q = (case q of
      BLoad \<Rightarrow> [Inr (list_budgets b), Inr (list_tenants b), Inr (list_keys b)]
    | BDelete i \<Rightarrow> [delete_budget b i]
    | BCreate r \<Rightarrow> [Inr (create_budget b r)]
    | BToggle i en \<Rightarrow> [update_budget b i \<lparr>ub_virtual_key_id = None, ub_model = None, ub_scope = None,
        ub_type = None, ub_custom_days = None, ub_soft_limit = None, ub_hard_limit = None,
        ub_currency = None, ub_notify_at = None, ub_enabled = Some en\<rparr>]
    | BHistory i \<Rightarrow> [budget_history b i])"

definition budgets_adm :: "browser \<Rightarrow> budgets_query \<Rightarrow> budgets_reply \<Rightarrow> bool" where
  "budgets_adm b q r \<longleftrightarrow> (\<forall>e. Inl e \<in> set (budgets_http b q) \<longrightarrow> r = Inl e)"

definition budgets_loaded :: "budgets_value \<Rightarrow> budgets_page \<Rightarrow> budgets_page" where
  "budgets_loaded v s = s\<lparr>bp_budgets := nullish (bv_budgets v) [],
     bp_tenants := map (\<lambda>t. (tl_slug t, tl_name t)) (nullish (bv_tenants v) []),
     bp_keys := map (\<lambda>k. \<lparr>ko_id = vk_id k, ko_label = str_or (vk_label k) (vk_id k),
       ko_tenant_id = vk_tenant_id k\<rparr>) (nullish (bv_keys v) [])\<rparr>"

definition budgets_reload :: budgets_act where
  "budgets_reload = Upd (\<lambda>s. s\<lparr>bp_loading := True\<rparr>) (Await BLoad (\<lambda>r. case r of
      Inl _ \<Rightarrow> Emit (Toast (js ''Failed to load budgets'') Error) (Upd (\<lambda>s. s\<lparr>bp_loading := False\<rparr>) Done)
    | Inr v \<Rightarrow> Upd (budgets_loaded v) (Upd (\<lambda>s. s\<lparr>bp_loading := False\<rparr>) Done)))"

definition budgets_do_delete :: "budgets_page \<Rightarrow> budgets_act" where
  "budgets_do_delete s = (case bp_deleting s of None \<Rightarrow> Done
     | Some b \<Rightarrow> Upd (\<lambda>s. s\<lparr>bp_busy := True\<rparr>) (Await (BDelete (bud_id b)) (\<lambda>r.
         case r of
           Inl e \<Rightarrow> Emit (error_toast e) (Upd (\<lambda>s. s\<lparr>bp_busy := False\<rparr>) Done)
         | Inr _ \<Rightarrow> Emit (Toast (js ''Budget deleted'') Success) (Upd (\<lambda>s. s\<lparr>bp_deleting := None\<rparr>)
             (and_then budgets_reload (Upd (\<lambda>s. s\<lparr>bp_busy := False\<rparr>) Done))))))"

definition budgets_handle_create :: "create_budget_request \<Rightarrow> budgets_act" where
  "budgets_handle_create req = Await (BCreate req) (\<lambda>r. case r of
      Inl e \<Rightarrow> Emit (error_toast e) Done
    | Inr _ \<Rightarrow> Emit (Toast (js ''Budget created'') Success) (Upd (\<lambda>s. s\<lparr>bp_modal := None\<rparr>) budgets_reload))"

definition budgets_handle_toggle :: "budget \<Rightarrow> budgets_act" where
  "budgets_handle_toggle b = Await (BToggle (bud_id b) (\<not> bud_enabled b)) (\<lambda>r. case r of
      Inl e \<Rightarrow> Emit (error_toast e) Done
    | Inr _ \<Rightarrow> Emit (Toast (if bud_enabled b then js ''Budget disabled'' else js ''Budget enabled'') Success)
        budgets_reload)"

definition budgets_show_history :: "budget \<Rightarrow> budgets_act" where
  "budgets_show_history b = Upd (\<lambda>s. s\<lparr>bp_history_of := Some b\<rparr>) (Upd (\<lambda>s. s\<lparr>bp_history := []\<rparr>)
     (Await (BHistory (bud_id b)) (\<lambda>r. case r of
        Inl e \<Rightarrow> Emit (error_toast e) Done
      | Inr v \<Rightarrow> Upd (\<lambda>s. s\<lparr>bp_history := nullish (bv_history v) []\<rparr>) Done)))"

datatype budgets_event =
    BMount
  | BSort budget_column
  | BOpenModal
  | BCloseModal
  | BEdit budget_edit
  | BSubmit
  | BAskDelete budget
  | BConfirm confirm_action
  | BToggleBudget budget
  | BShowHistory budget
  | BCloseHistory

fun budgets_handler :: "budgets_event \<Rightarrow> budgets_page \<Rightarrow> budgets_act" where
  "budgets_handler BMount s = budgets_reload"
| "budgets_handler (BSort c) s = Upd (\<lambda>s. s\<lparr>bp_sort := sort_toggle c (bp_sort s)\<rparr>) Done"
| "budgets_handler BOpenModal s = Upd (\<lambda>s. s\<lparr>bp_modal := (case bp_modal s of
     None \<Rightarrow> Some (budget_modal_open (bp_tenants s)) | Some c \<Rightarrow> Some c)\<rparr>) Done"
| "budgets_handler BCloseModal s = Upd (\<lambda>s. s\<lparr>bp_modal := None\<rparr>) Done"
| "budgets_handler (BEdit e) s = Upd (\<lambda>s. s\<lparr>bp_modal := map_option (\<lambda>c. c\<lparr>bm_req := apply_budget_edit e (bm_req c)\<rparr>)
     (bp_modal s)\<rparr>) Done"
| "budgets_handler BSubmit s = (case bp_modal s of None \<Rightarrow> Done
     | Some c \<Rightarrow> Upd (\<lambda>s. s\<lparr>bp_modal := map_option (\<lambda>c. fst (budget_submit c)) (bp_modal s)\<rparr>)
         (case snd (budget_submit c) of None \<Rightarrow> Done | Some req \<Rightarrow> budgets_handle_create req))"
| "budgets_handler (BAskDelete b) s = Upd (\<lambda>s. s\<lparr>bp_deleting := Some b\<rparr>) Done"
| "budgets_handler (BConfirm a) s = (if a = ConfirmClick then budgets_do_delete s
     else Upd (\<lambda>s. s\<lparr>bp_deleting := None\<rparr>) Done)"
| "budgets_handler (BToggleBudget b) s = budgets_handle_toggle b"
| "budgets_handler (BShowHistory b) s = budgets_show_history b"
| "budgets_handler BCloseHistory s = Upd (\<lambda>s. s\<lparr>bp_history_of := None\<rparr>) Done"

fun budgets_enabled :: "budgets_event \<Rightarrow> budgets_page \<Rightarrow> bool" where
  "budgets_enabled (BConfirm a) s \<longleftrightarrow> confirm_enabled (bp_deleting s \<noteq> None) (bp_busy s) a"
| "budgets_enabled BCloseModal s \<longleftrightarrow> bp_modal s \<noteq> None"
| "budgets_enabled (BEdit e) s \<longleftrightarrow> bp_modal s \<noteq> None"
| "budgets_enabled BSubmit s \<longleftrightarrow> bp_modal s \<noteq> None"
| "budgets_enabled (BAskDelete b) s \<longleftrightarrow> b \<in> set (bp_budgets s)"
| "budgets_enabled (BToggleBudget b) s \<longleftrightarrow> b \<in> set (bp_budgets s)"
| "budgets_enabled (BShowHistory b) s \<longleftrightarrow> b \<in> set (bp_budgets s)"
| "budgets_enabled BCloseHistory s \<longleftrightarrow> bp_history_of s \<noteq> None"
| "budgets_enabled _ s \<longleftrightarrow> True"

section \<open>The spend bar\<close>

text \<open>C29. The spend bar of a budget with a positive hard limit is between 0 and 100 percent and is
  full exactly when the limit is reached, rounding included: for all doubles, a budget short
  of its limit by however little never shows as used up.\<close>

theorem spend_bar_exact:
  assumes "is_double s" "is_double h" "0 \<le> s" "0 < h"
    and "bud_hard_limit b = Some (Fin h)" "bud_spent b = Fin s"
  shows "\<exists>p. spend_percent b = Some (Fin p) \<and> 0 \<le> p \<and> p \<le> 100 \<and> (p = 100 \<longleftrightarrow> h \<le> s)"
proof -
  have sp: "spend_percent b = Some (jmin (Fin 100) (percent_of (Fin s) (Fin h)))"
    using assms(4-6) by (simp add: spend_percent_def truthy_num_def)
  show ?thesis
  proof (cases "h \<le> s")
    case True
    have "jmin (Fin 100) (percent_of (Fin s) (Fin h)) = Fin 100"
      using percent_reached [OF assms(4) True]
      by (cases "percent_of (Fin s) (Fin h)") (auto simp: jmin_def)
    then show ?thesis using sp True by simp
  next
    case False
    then obtain p where "percent_of (Fin s) (Fin h) = Fin p" "0 \<le> p" "p < 100"
      using percent_below assms(1-3) by fastforce
    then show ?thesis using sp False by (auto simp: jmin_def)
  qed
qed

definition demo_budget :: "string \<Rightarrow> rat \<Rightarrow> rat \<Rightarrow> budget" where
  "demo_budget i s h = \<lparr>bud_id = js i, bud_tenant_id = js ''acme'', bud_virtual_key_id = [], bud_model = [],
     bud_scope = js ''tenant'', bud_type = js ''monthly'', bud_custom_days = Fin 0, bud_soft_limit = None,
     bud_hard_limit = Some (Fin h), bud_currency = js ''USD'', bud_notify_at = [], bud_enabled = True,
     bud_spent = Fin s, bud_created_at = [], bud_updated_at = []\<rparr>"

theorem spend_bar_exact_witness:
  "\<exists>p. spend_percent (demo_budget ''a'' 1 3) = Some (Fin p) \<and> p \<noteq> 100"
proof -
  have d: "is_double 1" "is_double 3" using is_double_int [of 1] is_double_int [of 3] by simp_all
  show ?thesis using spend_bar_exact [OF d, of "demo_budget ''a'' 1 3"] by (auto simp: demo_budget_def)
qed

section \<open>Validation\<close>



section \<open>The notify input\<close>

lemma parse_float_digits: "0 \<le> n \<Longrightarrow> n \<le> 2 ^ 53 \<Longrightarrow> parse_float (digits n) = Fin (of_int n)"
proof -
  assume n: "0 \<le> n" "n \<le> 2 ^ 53"
  have "take 8 (digits n) \<noteq> js ''Infinity''"
  proof
    assume a: "take 8 (digits n) = js ''Infinity''"
    have "73 \<in> set (js ''Infinity'')" by (simp add: js_def)
    then have "73 \<in> set (digits n)" using a by (metis in_set_takeD)
    then show False using digits_is_digit [OF n(1), of 73] by (simp add: is_digit_def)
  qed
  moreover have "fl64 (of_int n) = Fin (of_int n)" using fl64_int [of n] n by simp
  ultimately show ?thesis using n
    by (simp add: parse_float_def drop_sign_digits scan_dec_digits signed_def)
qed

text \<open>No second notification threshold can be typed: whenever the input shows a list of whole
  percentages, typing a comma after them is read back as the same list, so the comma disappears
  from the input and the next digit extends the last number.\<close>

theorem notify_comma_is_lost:
  assumes "\<forall>n \<in> set is. 0 \<le> n \<and> n \<le> 2 ^ 53"
  shows "parse_notify (notify_text (Some (map (\<lambda>n. Fin (of_int n)) is)) @ js '','') = map (\<lambda>n. Fin (of_int n)) is"
proof -
  have t: "map num_str (map (\<lambda>n. Fin (of_int n)) is) = map digits is"
    using assms num_str_int by auto
  have c: "\<forall>p \<in> set (map digits is). 44 \<notin> set p"
    using assms digits_is_digit [of _ 44] by (auto simp: is_digit_def)
  have nan: "parse_float [] = NaN" by code_simp
  have p: "parse_float (trim (digits n)) = Fin (of_int n)" if "n \<in> set is" for n
    using assms that parse_float_digits by simp
  have j: "js '', '' = [44, 32]" "js '','' = [44]" by (simp_all add: js_def)
  show ?thesis
  proof (cases "is")
    case Nil
    then show ?thesis by (simp add: parse_notify_def notify_text_def j nan)
  next
    case (Cons i js)
    then have ne: "map digits is \<noteq> []" by simp
    have "map (\<lambda>s. parse_float (trim s)) (split_on 44 (join_with [44, 32] (map digits is) @ 44 # [])) =
        map parse_float (map trim (split_on 44 (join_with [44, 32] (map digits is) @ 44 # [])))" by simp
    also have "\<dots> = map (\<lambda>n. Fin (of_int n)) is @ [NaN]"
      unfolding split_joined(1) [OF ne c] using p nan by auto
    finally show ?thesis unfolding parse_notify_def notify_text_def j nullish_simps t by (simp add: filter_id_conv)
  qed
qed

theorem notify_comma_is_lost_witness:
  "parse_notify (notify_text (Some [Fin 50, Fin 80]) @ js '','') = [Fin 50, Fin 80]"
  using notify_comma_is_lost [of "[50, 80]"] by simp

section \<open>Deleting and the history dialog\<close>

definition is_budget_delete :: "budgets_query \<Rightarrow> bool" where
  "is_budget_delete q = (case q of BDelete _ \<Rightarrow> True | _ \<Rightarrow> False)"

lemmas budgets_act_defs = budgets_reload_def budgets_do_delete_def budgets_handle_create_def
  budgets_handle_toggle_def budgets_show_history_def budgets_loaded_def is_budget_delete_def error_toast_def

interpretation budgets_busy: busy_flag budgets_handler budgets_enabled "budgets_adm b" budgets_init bp_busy
  is_budget_delete True for b
proof unfold_locales
  show "\<not> bp_busy budgets_init" by (simp add: budgets_init_def)
next
  fix e s
  assume en: "budgets_enabled e s"
  show "quiet (budgets_handler e s) bp_busy is_budget_delete \<or>
    \<not> bp_busy s \<and> acquiring (budgets_handler e s) True bp_busy is_budget_delete"
  proof (cases e)
    case (BConfirm a)
    then show ?thesis using en
      by (cases a) (auto simp: budgets_act_defs confirm_enabled_def split: option.split sum.split)
  qed (auto simp: budgets_act_defs split: option.split sum.split)
qed

text \<open>Deleting a budget is exclusive: at most one delete request is in flight, the dialog is busy
  while it is, and a busy dialog always has an answer pending.\<close>

theorem budgets_single_delete:
  assumes "sys_reach budgets_handler budgets_enabled (budgets_adm b) (mount budgets_init) m"
  shows "in_flight is_budget_delete m \<le> 1 \<and> (in_flight is_budget_delete m = 1 \<longrightarrow> bp_busy (ui m)) \<and>
    (bp_busy (ui m) \<longrightarrow> tasks m \<noteq> [])"
  using budgets_busy.single_flight [OF assms] by simp

definition budgets_value0 :: "spend_entry list \<Rightarrow> budgets_value" where
  "budgets_value0 h = \<lparr>bv_budgets = Some [demo_budget ''a'' 1 3, demo_budget ''b'' 1 3], bv_tenants = None,
     bv_keys = None, bv_history = Some h\<rparr>"

lemma encode_demo: "encode_uri_component (js ''a'') = Some (js ''a'')" "encode_uri_component (js ''b'') = Some (js ''b'')"
  by code_simp+

lemmas budgets_eval = budgets_act_defs budgets_value0_def resume_def mount_def budgets_init_def budgets_adm_def
  budgets_http_def confirm_enabled_def demo_budget_def delete_budget_def budget_history_def with_segment_def encode_demo

lemma budgets_busy_reachable:
  "\<forall>b. \<exists>m. sys_reach budgets_handler budgets_enabled (budgets_adm b) (mount budgets_init) m \<and>
     bp_busy (ui m) \<and> in_flight is_budget_delete m \<le> 1"
proof
  fix b
  let ?sched = "[Fire BMount, Answer 0 (Inr (budgets_value0 [])), Fire (BAskDelete (demo_budget ''a'' 1 3)),
     Fire (BConfirm ConfirmClick)]"
  have "\<exists>m. do_moves budgets_handler budgets_enabled (budgets_adm b) ?sched (mount budgets_init) = Some m \<and>
      bp_busy (ui m)"
    by (simp add: budgets_eval)
  then obtain m where m: "do_moves budgets_handler budgets_enabled (budgets_adm b) ?sched (mount budgets_init) = Some m"
    "bp_busy (ui m)" by blast
  then have r: "sys_reach budgets_handler budgets_enabled (budgets_adm b) (mount budgets_init) m"
    by (blast intro: schedule_reach)
  with budgets_single_delete [OF r] m(2)
  show "\<exists>m. sys_reach budgets_handler budgets_enabled (budgets_adm b) (mount budgets_init) m \<and>
     bp_busy (ui m) \<and> in_flight is_budget_delete m \<le> 1" by blast
qed

text \<open>The history dialog can show another budget's spend: with two histories requested in turn,
  an answer to the first that arrives last is shown under the second budget.\<close>

theorem budgets_history_stale:
  "\<exists>m. sys_reach budgets_handler budgets_enabled (budgets_adm b) (mount budgets_init) m \<and> tasks m = [] \<and>
     bp_history_of (ui m) = Some (demo_budget ''b'' 1 3) \<and> bp_history (ui m) = entries"
proof -
  let ?sched = "[Fire BMount, Answer 0 (Inr (budgets_value0 [])), Fire (BShowHistory (demo_budget ''a'' 1 3)),
     Fire (BShowHistory (demo_budget ''b'' 1 3)), Answer 1 (Inr (budgets_value0 [])),
     Answer 0 (Inr (budgets_value0 entries))]"
  have "\<exists>m. do_moves budgets_handler budgets_enabled (budgets_adm b) ?sched (mount budgets_init) = Some m \<and>
      tasks m = [] \<and> bp_history_of (ui m) = Some (demo_budget ''b'' 1 3) \<and> bp_history (ui m) = entries"
    by (simp add: budgets_eval)
  then show ?thesis by (blast intro: schedule_reach)
qed

end
