(* ===== verification/Routing.thy ===== *)
theory Routing
  imports PageBase Sorting Format
begin

text \<open>
  ui/src/pages/Routing.tsx: providers, routing rules and cost rates. The page's state with the
  one dialog that edits all three kinds (CrudModal, remounted when its React key changes), the
  provider cards, and the handlers that load, save and delete. \<open>upper\<close> is
  String.prototype.toUpperCase and \<open>srt\<close> the engine's Array.prototype.sort.
\<close>

section \<open>Cards and cells\<close>

definition tone_for_status :: "jsstring option \<Rightarrow> jsstring" where
  "tone_for_status st = (if st = Some (js ''up'') then js ''green''
     else if st = Some (js ''down'') then js ''red''
     else if st = Some (js ''degraded'') then js ''amber'' else js ''gray'')"

text \<open>\<open>(a, b) => (a.name < b.name ? -1 : 1)\<close>: an absent name compares as NaN does.\<close>

definition card_cmp :: "provider \<Rightarrow> provider \<Rightarrow> int" where
  "card_cmp a b = (case (pv_name a, pv_name b) of (Some x, Some y) \<Rightarrow> if x < y then - 1 else 1 | _ \<Rightarrow> 1)"

definition provider_cards :: "((provider \<Rightarrow> provider \<Rightarrow> int) \<Rightarrow> provider list \<Rightarrow> provider list) \<Rightarrow>
    provider list \<Rightarrow> provider list" where
  "provider_cards srt ps = srt card_cmp ps"

text \<open>\<open>providers.find((p) => p.name === name)?.status\<close>; None is undefined.\<close>

definition status_of :: "provider list \<Rightarrow> jsstring option \<Rightarrow> jsstring option" where
  "status_of ps n = (case List.find (\<lambda>p. pv_name p = n) ps of None \<Rightarrow> None | Some p \<Rightarrow> pv_status p)"

definition rule_health :: "provider list \<Rightarrow> route \<Rightarrow> jsstring option" where
  "rule_health ps r = status_of ps (case rt_providers r of [] \<Rightarrow> None | n # _ \<Rightarrow> Some n)"

definition active_routes :: "route list \<Rightarrow> jsstring \<Rightarrow> route list" where
  "active_routes rs n = filter (\<lambda>r. n \<in> set (rt_providers r)) rs"

definition fallback_rules :: "route list \<Rightarrow> jsstring \<Rightarrow> route list" where
  "fallback_rules rs n = filter (\<lambda>r. case rt_providers r of [] \<Rightarrow> False | p # ps \<Rightarrow> p \<noteq> n \<and> n \<in> set ps) rs"

text \<open>\<open>new Date(x)\<close>: the time value, None where it is NaN, on which toISOString throws.\<close>

fun time_clip :: "jsnum \<Rightarrow> int option" where
  "time_clip (Fin r) = (let t = (if 0 \<le> r then \<lfloor>r\<rfloor> else \<lceil>r\<rceil>) in if \<bar>t\<bar> \<le> 8640000000000000 then Some t else None)"
| "time_clip _ = None"

definition last_check_text :: "date_reader \<Rightarrow> time_zone \<Rightarrow> int \<Rightarrow> provider \<Rightarrow> jsstring option" where
  "last_check_text rd tz now p = (case pv_last_check p of None \<Rightarrow> Some dash
     | Some c \<Rightarrow> if \<not> truthy_num c then Some dash
         else map_option (\<lambda>t. relative_time rd tz (iso_string t) now) (time_clip (jmul c (Fin 1000))))"

definition route_chip :: "route \<Rightarrow> jsstring" where
  "route_chip r = rt_model r @ js ''@'' @ str_or (rt_tenant r) (js ''default'')"

record provider_card_view =
  pc_name :: jsstring
  pc_sub :: "jsstring \<times> jsstring"
  pc_pill :: "jsstring \<times> jsstring"
  pc_latency :: jsstring
  pc_last_check :: "jsstring option"
  pc_routes :: jsstring
  pc_chips :: "jsstring list"
  pc_fallback :: "jsstring option"

text \<open>One card; an absent name, type or URL renders as nothing.\<close>

definition provider_card :: "date_reader \<Rightarrow> time_zone \<Rightarrow> int \<Rightarrow> route list \<Rightarrow> provider \<Rightarrow> provider_card_view" where
  "provider_card rd tz now rules p =
    (let n = nullish (pv_name p) []; routes = active_routes rules n; fb = fallback_rules rules n in
     \<lparr>pc_name = n, pc_sub = (nullish (pv_api_type p) [], nullish (pv_base_url p) []),
      pc_pill = (tone_for_status (pv_status p), nullish (pv_status p) (js ''unknown'')),
      pc_latency = (case pv_latency_ms p of None \<Rightarrow> dash | Some l \<Rightarrow> num_str l @ js ''ms''),
      pc_last_check = last_check_text rd tz now p,
      pc_routes = int_str (int (length routes)),
      pc_chips = map route_chip (take 3 routes) @
        (if length routes > 3 then [js ''+'' @ int_str (int (length routes) - 3)] else []) @
        (if routes = [] then [js ''no active routes''] else []),
      pc_fallback = (if fb = [] then None else Some (js ''used as fallback for '' @
        int_str (int (length fb)) @ js '' rule'' @ (if length fb > 1 then js ''s'' else [])))\<rparr>)"

text \<open>The two tables: a rule's cells with its providers and its health, a rate's cells.\<close>

definition rule_row :: "provider list \<Rightarrow> route \<Rightarrow> jsstring \<times> jsstring \<times> jsstring list \<times> (jsstring \<times> jsstring) \<times> jsstring" where
  "rule_row ps r = (rt_model r, str_or (rt_tenant r) (js ''default''), rt_providers r,
     (tone_for_status (rule_health ps r), nullish (rule_health ps r) (js ''unknown'')), nullish (rt_source r) dash)"

definition rate_row :: "cost_rate \<Rightarrow> jsstring list" where
  "rate_row c = [rate_model c, num_str (rate_input c), num_str (rate_output c),
     str_or (rate_currency c) (js ''USD''), nullish (rate_source c) dash]"

section \<open>The edit dialog\<close>

datatype crud_kind = ProviderKind | RouteKind | RateKind

datatype crud_payload = SaveProvider provider | SaveRoute route | SaveRate cost_rate

record crud_form =
  cf_p :: provider
  cf_r :: route
  cf_c :: cost_rate
  cf_err :: jsstring

text \<open>\<open>{} as ProviderDto\<close>, and the defaults of the form, which an empty object does not get.\<close>

definition empty_provider :: provider where
  "empty_provider = \<lparr>pv_name = None, pv_api_type = None, pv_base_url = None, pv_health_endpoint = None,
     pv_timeout = None, pv_priority = None, pv_api_keys = None, pv_auth_scheme = None, pv_auth_header = None,
     pv_auth_prefix = None, pv_additional_headers = None, pv_proxy_url = None, pv_aws_region = None,
     pv_aws_access_key_id = None, pv_aws_secret_access_key = None, pv_source = None, pv_status = None,
     pv_latency_ms = None, pv_last_check = None\<rparr>"

definition default_provider :: provider where
  "default_provider = empty_provider\<lparr>pv_name := Some [], pv_api_type := Some (js ''openai''),
     pv_base_url := Some [], pv_api_keys := Some []\<rparr>"

definition crud_open :: "provider option \<Rightarrow> route option \<Rightarrow> cost_rate option \<Rightarrow> crud_form" where
  "crud_open p r c = (let base = nullish p default_provider in
     \<lparr>cf_p = base\<lparr>pv_api_keys := Some (nullish (pv_api_keys base) [])\<rparr>,
      cf_r = nullish r \<lparr>rt_tenant = [], rt_model = [], rt_providers = [], rt_source = None\<rparr>,
      cf_c = nullish c \<lparr>rate_model = [], rate_input = Fin 0, rate_output = Fin 0,
        rate_currency = js ''USD'', rate_source = None\<rparr>,
      cf_err = []\<rparr>)"

datatype crud_edit =
    SetPName jsstring
  | SetPType jsstring
  | SetPUrl jsstring
  | SetPHealth jsstring
  | SetPKeys jsstring
  | SetPScheme jsstring
  | SetPHeader jsstring
  | SetPTimeout jsstring
  | SetPPriority jsstring
  | SetRModel jsstring
  | SetRTenant jsstring
  | SetRProviders jsstring
  | SetCModel jsstring
  | SetCInput jsstring
  | SetCOutput jsstring
  | SetCCurrency jsstring

fun apply_crud_edit :: "(jsstring \<Rightarrow> jsstring) \<Rightarrow> crud_edit \<Rightarrow> crud_form \<Rightarrow> crud_form" where
  "apply_crud_edit upper (SetPName v) f = f\<lparr>cf_p := (cf_p f)\<lparr>pv_name := Some v\<rparr>\<rparr>"
| "apply_crud_edit upper (SetPType v) f = f\<lparr>cf_p := (cf_p f)\<lparr>pv_api_type := Some v\<rparr>\<rparr>"
| "apply_crud_edit upper (SetPUrl v) f = f\<lparr>cf_p := (cf_p f)\<lparr>pv_base_url := Some v\<rparr>\<rparr>"
| "apply_crud_edit upper (SetPHealth v) f = f\<lparr>cf_p := (cf_p f)\<lparr>pv_health_endpoint := Some v\<rparr>\<rparr>"
| "apply_crud_edit upper (SetPKeys v) f = f\<lparr>cf_p := (cf_p f)\<lparr>pv_api_keys := Some (parse_comma v)\<rparr>\<rparr>"
| "apply_crud_edit upper (SetPScheme v) f = f\<lparr>cf_p := (cf_p f)\<lparr>pv_auth_scheme := Some v\<rparr>\<rparr>"
| "apply_crud_edit upper (SetPHeader v) f = f\<lparr>cf_p := (cf_p f)\<lparr>pv_auth_header := Some v\<rparr>\<rparr>"
| "apply_crud_edit upper (SetPTimeout v) f = f\<lparr>cf_p := (cf_p f)\<lparr>pv_timeout := Some v\<rparr>\<rparr>"
| "apply_crud_edit upper (SetPPriority v) f = f\<lparr>cf_p := (cf_p f)\<lparr>pv_priority := Some (js_number v)\<rparr>\<rparr>"
| "apply_crud_edit upper (SetRModel v) f = f\<lparr>cf_r := (cf_r f)\<lparr>rt_model := v\<rparr>\<rparr>"
| "apply_crud_edit upper (SetRTenant v) f = f\<lparr>cf_r := (cf_r f)\<lparr>rt_tenant := v\<rparr>\<rparr>"
| "apply_crud_edit upper (SetRProviders v) f = f\<lparr>cf_r := (cf_r f)\<lparr>rt_providers := parse_comma v\<rparr>\<rparr>"
| "apply_crud_edit upper (SetCModel v) f = f\<lparr>cf_c := (cf_c f)\<lparr>rate_model := v\<rparr>\<rparr>"
| "apply_crud_edit upper (SetCInput v) f = f\<lparr>cf_c := (cf_c f)\<lparr>rate_input := js_number v\<rparr>\<rparr>"
| "apply_crud_edit upper (SetCOutput v) f = f\<lparr>cf_c := (cf_c f)\<lparr>rate_output := js_number v\<rparr>\<rparr>"
| "apply_crud_edit upper (SetCCurrency v) f = f\<lparr>cf_c := (cf_c f)\<lparr>rate_currency := upper v\<rparr>\<rparr>"

text \<open>What the two list inputs display.\<close>

definition keys_text :: "crud_form \<Rightarrow> jsstring" where
  "keys_text f = (case pv_api_keys (cf_p f) of None \<Rightarrow> [] | Some ks \<Rightarrow> show_comma ks)"

definition providers_text :: "crud_form \<Rightarrow> jsstring" where
  "providers_text f = show_comma (rt_providers (cf_r f))"

definition usable_secret :: "jsstring option \<Rightarrow> bool" where
  "usable_secret v \<longleftrightarrow> truthy_str v \<and> \<not> is_masked_key v"

definition has_editable_key :: "provider \<Rightarrow> bool" where
  "has_editable_key p \<longleftrightarrow> (\<exists>k \<in> set (nullish (pv_api_keys p) []). usable_secret (Some k))"

definition has_aws_creds :: "provider \<Rightarrow> bool" where
  "has_aws_creds p \<longleftrightarrow> usable_secret (pv_aws_access_key_id p) \<and> usable_secret (pv_aws_secret_access_key p)"

definition crud_submit :: "crud_kind \<Rightarrow> crud_form \<Rightarrow> crud_form \<times> crud_payload option" where
  "crud_submit kind f = (let f' = f\<lparr>cf_err := []\<rparr>; p = cf_p f; r = cf_r f; c = cf_c f in
     case kind of
       ProviderKind \<Rightarrow>
         if \<not> truthy_str (pv_name p) \<or> \<not> truthy_str (pv_base_url p)
           then (f'\<lparr>cf_err := js ''Name and Base URL are required''\<rparr>, None)
         else if \<not> has_editable_key p \<and> \<not> has_aws_creds p
           then (f'\<lparr>cf_err := js ''Add at least one API key or AWS access key''\<rparr>, None)
         else (f', Some (SaveProvider p))
     | RouteKind \<Rightarrow>
         if rt_model r = [] \<or> rt_providers r = []
           then (f'\<lparr>cf_err := js ''Model and at least one provider are required''\<rparr>, None)
         else (f', Some (SaveRoute r))
     | RateKind \<Rightarrow>
         if rate_model c = [] then (f'\<lparr>cf_err := js ''Model is required''\<rparr>, None)
         else (f', Some (SaveRate \<lparr>rate_model = rate_model c, rate_input = rate_input c,
           rate_output = rate_output c, rate_currency = rate_currency c, rate_source = None\<rparr>)))"

section \<open>State, requests and handlers\<close>

datatype routing_target = ProviderTarget jsstring | RouteTarget jsstring route | RateTarget jsstring

record routing_page =
  rp_providers :: "provider list"
  rp_rules :: "route list"
  rp_rates :: "cost_rate list"
  rp_loading :: bool
  rp_edit_provider :: "provider option"
  rp_edit_route :: "route option"
  rp_edit_rate :: "cost_rate option"
  rp_form :: "crud_form option"
  rp_deleting :: "routing_target option"
  rp_busy :: bool

definition routing_init :: routing_page where
  "routing_init = \<lparr>rp_providers = [], rp_rules = [], rp_rates = [], rp_loading = True,
     rp_edit_provider = None, rp_edit_route = None, rp_edit_rate = None, rp_form = None,
     rp_deleting = None, rp_busy = False\<rparr>"

definition crud_shown :: "routing_page \<Rightarrow> bool" where
  "crud_shown s \<longleftrightarrow> rp_edit_provider s \<noteq> None \<or> rp_edit_route s \<noteq> None \<or> rp_edit_rate s \<noteq> None"

definition shown_kind :: "routing_page \<Rightarrow> crud_kind" where
  "shown_kind s = (if rp_edit_provider s \<noteq> None then ProviderKind
     else if rp_edit_route s \<noteq> None then RouteKind else RateKind)"

definition react_key :: "routing_page \<Rightarrow> jsstring" where
  "react_key s =
     (case rp_edit_provider s of None \<Rightarrow> [] | Some p \<Rightarrow> nullish (pv_name p) []) @ js ''-'' @
     (case rp_edit_route s of None \<Rightarrow> [] | Some r \<Rightarrow> rt_model r) @ js ''-'' @
     (case rp_edit_rate s of None \<Rightarrow> [] | Some c \<Rightarrow> rate_model c)"

text \<open>The render after s became s': the dialog's own state survives under the same key, is made
  afresh under a new one, and is dropped with the dialog.\<close>

definition remount :: "routing_page \<Rightarrow> routing_page \<Rightarrow> routing_page" where
  "remount s s' = s'\<lparr>rp_form :=
     (if \<not> crud_shown s' then None
      else if crud_shown s \<and> react_key s = react_key s' then rp_form s'
      else Some (crud_open (rp_edit_provider s') (rp_edit_route s') (rp_edit_rate s')))\<rparr>"

definition close_crud :: "routing_page \<Rightarrow> routing_page" where
  "close_crud s = remount s (s\<lparr>rp_edit_provider := None, rp_edit_route := None, rp_edit_rate := None\<rparr>)"

text \<open>The headings of the two dialogs.\<close>

definition crud_title :: "routing_page \<Rightarrow> jsstring" where
  "crud_title s = (case shown_kind s of
      ProviderKind \<Rightarrow> if rp_edit_provider s \<noteq> None then js ''Edit Provider'' else js ''Add Provider''
    | RouteKind \<Rightarrow> if rp_edit_route s \<noteq> None then js ''Edit Rule'' else js ''Add Rule''
    | RateKind \<Rightarrow> if rp_edit_rate s \<noteq> None then js ''Edit Cost Rate'' else js ''Add Cost Rate'')"

definition target_name :: "routing_target \<Rightarrow> jsstring" where
  "target_name t = (case t of ProviderTarget n \<Rightarrow> n | RouteTarget n _ \<Rightarrow> n | RateTarget n \<Rightarrow> n)"

definition delete_title :: "routing_target option \<Rightarrow> jsstring" where
  "delete_title d = (case d of Some (ProviderTarget _) \<Rightarrow> js ''Delete provider''
     | Some (RouteTarget _ _) \<Rightarrow> js ''Delete rule'' | _ \<Rightarrow> js ''Delete cost rate'')"

definition delete_text :: "routing_target option \<Rightarrow> jsstring" where
  "delete_text d = js ''Delete '' @ quoted (case d of None \<Rightarrow> js ''undefined'' | Some t \<Rightarrow> target_name t) @
     js ''? This cannot be undone.''"

datatype routing_query = RLoad | RDelete routing_target | RSave crud_payload

record routing_value =
  rv_providers :: "provider list option"
  rv_rules :: "route list option"
  rv_rates :: "cost_rate list option"

type_synonym routing_reply = "js_error + routing_value"
type_synonym routing_act = "(routing_page, page_out, routing_query, routing_reply) act"

definition routing_http :: "browser \<Rightarrow> routing_query \<Rightarrow> request list" where
  "routing_http b q = (case q of
      RLoad \<Rightarrow> [Inr (list_providers b), Inr (list_routes b), Inr (list_cost_rates b)]
    | RDelete t \<Rightarrow> (case t of ProviderTarget n \<Rightarrow> [delete_provider b n]
        | RouteTarget _ r \<Rightarrow> [Inr (delete_route b r)] | RateTarget m \<Rightarrow> [delete_cost_rate b m])
    | RSave p \<Rightarrow> (case p of SaveProvider x \<Rightarrow> [Inr (upsert_provider b x)]
        | SaveRoute x \<Rightarrow> [Inr (upsert_route b x)] | SaveRate x \<Rightarrow> [Inr (upsert_cost_rate b x)]))"

definition routing_adm :: "browser \<Rightarrow> routing_query \<Rightarrow> routing_reply \<Rightarrow> bool" where
  "routing_adm b q r \<longleftrightarrow> (\<forall>e. Inl e \<in> set (routing_http b q) \<longrightarrow> r = Inl e)"

definition routing_loaded :: "routing_value \<Rightarrow> routing_page \<Rightarrow> routing_page" where
  "routing_loaded v s = s\<lparr>rp_providers := nullish (rv_providers v) [], rp_rules := nullish (rv_rules v) [],
     rp_rates := nullish (rv_rates v) []\<rparr>"

definition routing_reload :: routing_act where
  "routing_reload = Upd (\<lambda>s. s\<lparr>rp_loading := True\<rparr>) (Await RLoad (\<lambda>r. case r of
      Inl _ \<Rightarrow> Emit (Toast (js ''Failed to load routing data'') Error) (Upd (\<lambda>s. s\<lparr>rp_loading := False\<rparr>) Done)
    | Inr v \<Rightarrow> Upd (routing_loaded v) (Upd (\<lambda>s. s\<lparr>rp_loading := False\<rparr>) Done)))"

definition deleted_message :: "routing_target \<Rightarrow> jsstring" where
  "deleted_message t = (case t of
      ProviderTarget n \<Rightarrow> js ''Provider '' @ quoted n @ js '' deleted''
    | RouteTarget n _ \<Rightarrow> js ''Route '' @ quoted n @ js '' deleted''
    | RateTarget n \<Rightarrow> js ''Cost rate '' @ quoted n @ js '' deleted'')"

definition routing_do_delete :: "routing_page \<Rightarrow> routing_act" where
  "routing_do_delete s = (case rp_deleting s of None \<Rightarrow> Done
     | Some t \<Rightarrow> Upd (\<lambda>s. s\<lparr>rp_busy := True\<rparr>) (Await (RDelete t) (\<lambda>r.
         case r of
           Inl e \<Rightarrow> Emit (error_toast e) (Upd (\<lambda>s. s\<lparr>rp_busy := False\<rparr>) Done)
         | Inr _ \<Rightarrow> Emit (Toast (deleted_message t) Success) (Upd (\<lambda>s. s\<lparr>rp_deleting := None\<rparr>)
             (and_then routing_reload (Upd (\<lambda>s. s\<lparr>rp_busy := False\<rparr>) Done))))))"

definition saved_message :: "crud_payload \<Rightarrow> jsstring" where
  "saved_message p = (case p of SaveProvider _ \<Rightarrow> js ''Provider saved'' | SaveRoute _ \<Rightarrow> js ''Rule saved''
     | SaveRate _ \<Rightarrow> js ''Cost rate saved'')"

definition routing_on_saved :: "crud_payload \<Rightarrow> routing_act" where
  "routing_on_saved p = Await (RSave p) (\<lambda>r. case r of
      Inl e \<Rightarrow> Emit (error_toast e) Done
    | Inr _ \<Rightarrow> Emit (Toast (saved_message p) Success) (Upd close_crud routing_reload))"

datatype routing_event =
    RMount
  | RAddProvider
  | REditProvider provider
  | REditRoute route
  | REditRate cost_rate
  | RCloseModal
  | RFormEdit crud_edit
  | RSubmit
  | RAskDelete routing_target
  | RConfirm confirm_action

fun routing_handler :: "(jsstring \<Rightarrow> jsstring) \<Rightarrow> routing_event \<Rightarrow> routing_page \<Rightarrow> routing_act" where
  "routing_handler upper RMount s = routing_reload"
| "routing_handler upper RAddProvider s = Upd (\<lambda>s. remount s (s\<lparr>rp_edit_provider := Some empty_provider\<rparr>)) Done"
| "routing_handler upper (REditProvider p) s = Upd (\<lambda>s. remount s (s\<lparr>rp_edit_provider := Some p\<rparr>)) Done"
| "routing_handler upper (REditRoute r) s = Upd (\<lambda>s. remount s (s\<lparr>rp_edit_route := Some r\<rparr>)) Done"
| "routing_handler upper (REditRate c) s = Upd (\<lambda>s. remount s (s\<lparr>rp_edit_rate := Some c\<rparr>)) Done"
| "routing_handler upper RCloseModal s = Upd close_crud Done"
| "routing_handler upper (RFormEdit e) s = Upd (\<lambda>s. s\<lparr>rp_form := map_option (apply_crud_edit upper e) (rp_form s)\<rparr>) Done"
| "routing_handler upper RSubmit s = (case rp_form s of None \<Rightarrow> Done
     | Some f \<Rightarrow> Upd (\<lambda>t. t\<lparr>rp_form := map_option (\<lambda>f. fst (crud_submit (shown_kind s) f)) (rp_form t)\<rparr>)
         (case snd (crud_submit (shown_kind s) f) of None \<Rightarrow> Done | Some p \<Rightarrow> routing_on_saved p))"
| "routing_handler upper (RAskDelete t) s = Upd (\<lambda>s. s\<lparr>rp_deleting := Some t\<rparr>) Done"
| "routing_handler upper (RConfirm a) s = (if a = ConfirmClick then routing_do_delete s
     else Upd (\<lambda>s. s\<lparr>rp_deleting := None\<rparr>) Done)"

fun offered_target :: "routing_page \<Rightarrow> routing_target \<Rightarrow> bool" where
  "offered_target s (ProviderTarget n) \<longleftrightarrow> (\<exists>p \<in> set (rp_providers s). pv_name p = Some n)"
| "offered_target s (RouteTarget n r) \<longleftrightarrow> r \<in> set (rp_rules s) \<and> n = rt_tenant r @ js ''/'' @ rt_model r"
| "offered_target s (RateTarget m) \<longleftrightarrow> (\<exists>c \<in> set (rp_rates s). rate_model c = m)"

fun routing_enabled :: "routing_event \<Rightarrow> routing_page \<Rightarrow> bool" where
  "routing_enabled (REditProvider p) s \<longleftrightarrow> p \<in> set (rp_providers s)"
| "routing_enabled (REditRoute r) s \<longleftrightarrow> r \<in> set (rp_rules s)"
| "routing_enabled (REditRate c) s \<longleftrightarrow> c \<in> set (rp_rates s)"
| "routing_enabled RCloseModal s \<longleftrightarrow> crud_shown s"
| "routing_enabled (RFormEdit e) s \<longleftrightarrow> crud_shown s"
| "routing_enabled RSubmit s \<longleftrightarrow> crud_shown s"
| "routing_enabled (RAskDelete t) s \<longleftrightarrow> offered_target s t"
| "routing_enabled (RConfirm a) s \<longleftrightarrow> confirm_enabled (rp_deleting s \<noteq> None) (rp_busy s) a"
| "routing_enabled _ s \<longleftrightarrow> True"

section \<open>The provider cards\<close>

text \<open>The cards are the providers, each once, and when their names are distinct they stand in
  name order, whatever algorithm the engine sorts with; each card counts the rules that name its
  provider, and its fallback count never exceeds that.\<close>

theorem provider_cards_correct:
  assumes "engine_sort srt"
  shows "mset (provider_cards srt ps) = mset ps \<and>
    (distinct (map pv_name ps) \<and> None \<notin> pv_name ` set ps \<longrightarrow>
       sorted_wrt (<) (map (\<lambda>p. the (pv_name p)) (provider_cards srt ps))) \<and>
    pc_routes (provider_card rd tz now rules p) =
      int_str (int (length (filter (\<lambda>r. nullish (pv_name p) [] \<in> set (rt_providers r)) rules))) \<and>
    length (fallback_rules rules (nullish (pv_name p) [])) \<le> length (active_routes rules (nullish (pv_name p) []))"
proof -
  have "mset (provider_cards srt ps) = mset ps"
    using assms by (simp add: engine_sort_def provider_cards_def)
  moreover have "sorted_wrt (<) (map (\<lambda>p. the (pv_name p)) (provider_cards srt ps))"
    if d: "distinct (map pv_name ps)" "None \<notin> pv_name ` set ps"
  proof -
    have n: "\<exists>n. pv_name p = Some n" if "p \<in> set ps" for p using d(2) that by (cases "pv_name p") force+
    have "distinct (map (\<lambda>p. the (pv_name p)) ps)"
      using d n by (auto simp: distinct_map inj_on_def) (metis option.sel)
    moreover have "sgn (card_cmp x y) = sgn (three_way (\<lambda>p. the (pv_name p)) (- 1) x y)"
      if "x \<in> set ps" "y \<in> set ps" "the (pv_name x) \<noteq> the (pv_name y)" for x y
      using n [OF that(1)] n [OF that(2)] that(3) by (auto simp: card_cmp_def three_way_def)
    ultimately show ?thesis
      using agreeing_sort(2) [OF assms, of "\<lambda>p. the (pv_name p)" ps "- 1" card_cmp]
      by (simp add: provider_cards_def sorted_wrt_map)
  qed
  moreover have "length (fallback_rules rules n) \<le> length (active_routes rules n)" for n
  proof (induction rules)
    case (Cons r rs)
    then show ?case by (auto simp: fallback_rules_def active_routes_def split: list.splits)
  qed (simp add: fallback_rules_def active_routes_def)
  ultimately show ?thesis by (simp add: provider_card_def active_routes_def Let_def)
qed

definition named_provider :: "string \<Rightarrow> provider" where
  "named_provider n = empty_provider\<lparr>pv_name := Some (js n)\<rparr>"

theorem provider_cards_correct_witness:
  "sorted_wrt (<) (map (\<lambda>p. the (pv_name p)) (provider_cards array_sort [named_provider ''b'', named_provider ''a'']))"
proof -
  have "js ''b'' \<noteq> js ''a''" by code_simp
  then show ?thesis
    using provider_cards_correct [OF engine_sort_array_sort, of "[named_provider ''b'', named_provider ''a'']"]
    by (simp add: named_provider_def)
qed

section \<open>Validation of the dialog\<close>


text \<open>The empty object is not null: the heading says "Edit", and the default type of the form is not
  sent unless the operator touches the select that displays it.\<close>

lemma add_provider_has_no_type:
  assumes "\<not> crud_shown s" "\<forall>v. SetPType v \<notin> set es"
  shows "crud_title (remount s (s\<lparr>rp_edit_provider := Some empty_provider\<rparr>)) = js ''Edit Provider'' \<and>
    (\<forall>f. rp_form (remount s (s\<lparr>rp_edit_provider := Some empty_provider\<rparr>)) = Some f \<longrightarrow>
      pv_api_type (cf_p (fold (apply_crud_edit upper) es f)) = None)"
proof -
  have "pv_api_type (cf_p (fold (apply_crud_edit upper) es f)) = pv_api_type (cf_p f)" for f
    using assms(2)
  proof (induction es arbitrary: f)
    case (Cons e es)
    then show ?case by (cases e) auto
  qed simp
  then show ?thesis using assms(1)
    by (auto simp: remount_def crud_shown_def crud_title_def shown_kind_def crud_open_def empty_provider_def Let_def)
qed

lemma edits_keep_secrets:
  "\<forall>v. SetPKeys v \<notin> set es \<Longrightarrow>
   pv_api_keys (cf_p (fold (apply_crud_edit upper) es f)) = pv_api_keys (cf_p f) \<and>
   pv_aws_access_key_id (cf_p (fold (apply_crud_edit upper) es f)) = pv_aws_access_key_id (cf_p f)"
proof (induction es arbitrary: f)
  case (Cons e es)
  then show ?case by (cases e) auto
qed simp



text \<open>The list inputs of the dialog (keys, providers) display what they parsed: leaving such an
  input as it is changes nothing, and so does typing a comma at its end, so a second item cannot be
  typed after the first.\<close>

theorem list_inputs_lose_comma:
  assumes "pv_api_keys (cf_p f) = Some ks" "comma_items ks" "comma_items (rt_providers (cf_r f))"
  shows "apply_crud_edit upper (SetPKeys (keys_text f)) f = f \<and>
    apply_crud_edit upper (SetPKeys (keys_text f @ js '','')) f = f \<and>
    apply_crud_edit upper (SetRProviders (providers_text f)) f = f \<and>
    apply_crud_edit upper (SetRProviders (providers_text f @ js '','')) f = f"
  using assms by (simp add: keys_text_def providers_text_def parse_show_comma)

theorem list_inputs_lose_comma_witness:
  "parse_comma (js ''sk-1,'') = [js ''sk-1'']"
proof -
  let ?f = "crud_open (Some (empty_provider\<lparr>pv_api_keys := Some [js ''sk-1'']\<rparr>)) None None"
  have t: "comma_items [js ''sk-1'']" "comma_items []" by code_simp+
  have k: "pv_api_keys (cf_p ?f) = Some [js ''sk-1'']" "rt_providers (cf_r ?f) = []"
    by (simp_all add: crud_open_def)
  have "keys_text ?f @ js '','' = js ''sk-1,''" by code_simp
  then have "apply_crud_edit id (SetPKeys (js ''sk-1,'')) ?f = ?f"
    using list_inputs_lose_comma [OF k(1) t(1), of id] k(2) t(2) by simp
  then have "pv_api_keys (cf_p (apply_crud_edit id (SetPKeys (js ''sk-1,'')) ?f)) = Some [js ''sk-1'']"
    using k(1) by simp
  then show ?thesis by simp
qed

section \<open>Saving and deleting\<close>

definition is_routing_delete :: "routing_query \<Rightarrow> bool" where
  "is_routing_delete q = (case q of RDelete _ \<Rightarrow> True | _ \<Rightarrow> False)"

lemmas routing_act_defs = routing_reload_def routing_do_delete_def routing_on_saved_def routing_loaded_def
  is_routing_delete_def error_toast_def close_crud_def remount_def

interpretation routing_busy: busy_flag "routing_handler upper" routing_enabled "routing_adm b" routing_init rp_busy
  is_routing_delete True for b upper
proof unfold_locales
  show "\<not> rp_busy routing_init" by (simp add: routing_init_def)
next
  fix e s
  assume en: "routing_enabled e s"
  show "quiet (routing_handler upper e s) rp_busy is_routing_delete \<or>
    \<not> rp_busy s \<and> acquiring (routing_handler upper e s) True rp_busy is_routing_delete"
  proof (cases e)
    case (RConfirm a)
    then show ?thesis using en
      by (cases a) (auto simp: routing_act_defs confirm_enabled_def split: option.split sum.split)
  qed (auto simp: routing_act_defs split: option.split sum.split)
qed

text \<open>Deleting a provider, a rule or a rate is exclusive: at most one delete request is in flight
  over the three kinds together, and a busy dialog always has an answer pending.\<close>

theorem routing_single_delete:
  assumes "sys_reach (routing_handler upper) routing_enabled (routing_adm b) (mount routing_init) m"
  shows "in_flight is_routing_delete m \<le> 1 \<and> (in_flight is_routing_delete m = 1 \<longrightarrow> rp_busy (ui m)) \<and>
    (rp_busy (ui m) \<longrightarrow> tasks m \<noteq> [])"
  using routing_busy.single_flight [OF assms] by simp

definition demo_route :: route where
  "demo_route = \<lparr>rt_tenant = js ''acme'', rt_model = js ''gpt-4o'', rt_providers = [js ''openai''], rt_source = None\<rparr>"

lemma routing_busy_reachable:
  "\<forall>b. \<exists>m. sys_reach (routing_handler id) routing_enabled (routing_adm b) (mount routing_init) m \<and>
     rp_busy (ui m) \<and> in_flight is_routing_delete m \<le> 1"
proof
  fix b
  let ?t = "RouteTarget (js ''acme'' @ js ''/'' @ js ''gpt-4o'') demo_route"
  let ?sched = "[Fire RMount, Answer 0 (Inr \<lparr>rv_providers = None, rv_rules = Some [demo_route], rv_rates = None\<rparr>),
     Fire (RAskDelete ?t), Fire (RConfirm ConfirmClick)]"
  have "\<exists>m. do_moves (routing_handler id) routing_enabled (routing_adm b) ?sched (mount routing_init) = Some m \<and>
      rp_busy (ui m)"
    by (simp add: routing_act_defs resume_def mount_def routing_init_def routing_adm_def routing_http_def
        confirm_enabled_def demo_route_def)
  then obtain m where m: "do_moves (routing_handler id) routing_enabled (routing_adm b) ?sched (mount routing_init) = Some m"
    "rp_busy (ui m)" by blast
  then have r: "sys_reach (routing_handler id) routing_enabled (routing_adm b) (mount routing_init) m"
    by (blast intro: schedule_reach)
  with routing_single_delete [OF r] m(2)
  show "\<exists>m. sys_reach (routing_handler id) routing_enabled (routing_adm b) (mount routing_init) m \<and>
     rp_busy (ui m) \<and> in_flight is_routing_delete m \<le> 1" by blast
qed

text \<open>Saving: on success the dialog closes and the lists are read again; when the reload fails
  the lists stay as they were; when the save fails the dialog stays open with what was typed and
  the message is shown.\<close>

theorem routing_save_outcomes:
  "run (routing_on_saved p) s [Inl e] = (s, [error_toast e], [RSave p], True) \<and>
   run (routing_on_saved p) s [Inr v, Inr w] =
     ((routing_loaded w (close_crud s))\<lparr>rp_loading := False\<rparr>, [Toast (saved_message p) Success], [RSave p, RLoad], True) \<and>
   run (routing_on_saved p) s [Inr v, Inl e] =
     ((close_crud s)\<lparr>rp_loading := False\<rparr>, [Toast (saved_message p) Success,
        Toast (js ''Failed to load routing data'') Error], [RSave p, RLoad], True) \<and>
   \<not> crud_shown (close_crud s) \<and> rp_form (close_crud s) = None"
  by (simp add: routing_act_defs crud_shown_def)

end
