(* ===== verification/AsyncPage.thy ===== *)
theory AsyncPage
  imports PageBase
begin

text \<open>
  Pages that read their data through useAsyncData: the page keeps the hook's cells next to its
  own, a change of the dependencies starts a new run, and settling a run is an event of the
  environment. What such a page shows belongs to the run for its current dependencies.
\<close>

definition ad_current :: "'p \<Rightarrow> ('p, 'd, 'e) async_data \<Rightarrow> bool" where
  "ad_current p s \<longleftrightarrow> (\<exists>i. ad_live s = Some i \<and> i < length (ad_runs s) \<and> run_deps (ad_runs s ! i) = p) \<and>
     shows_live s \<and> only_live s"

lemma ad_current_effect: "shows_live s \<Longrightarrow> only_live s \<Longrightarrow> ad_current p (ad_effect True p s)"
  using ad_step_inv [of s "Effect True p"]
  by (auto simp: ad_current_def ad_effect_def ad_cleanup_def Let_def nth_append split: option.split)

lemma ad_current_init: "ad_current p (ad_effect True p (ad_init True d))"
  by (rule ad_current_effect) (auto simp: ad_init_def shows_live_def only_live_def)

lemma ad_settle_live: "ad_live (ad_settle i r s) = ad_live s"
  by (auto simp: ad_settle_def ad_callbacks_def Let_def split: promise.split)

lemma ad_settle_runs: "length (ad_runs (ad_settle i r s)) = length (ad_runs s) \<and>
    map run_deps (ad_runs (ad_settle i r s)) = map run_deps (ad_runs s)"
  by (auto simp: ad_settle_def ad_callbacks_def Let_def map_update list_update_id split: promise.split)
    (auto simp: list_eq_iff_nth_eq nth_list_update)

lemma ad_current_settle:
  assumes "ad_current p s"
  shows "ad_current p (ad_settle i r s)"
proof -
  obtain j where j: "ad_live s = Some j" "j < length (ad_runs s)" "run_deps (ad_runs s ! j) = p"
    using assms by (auto simp: ad_current_def)
  have "run_deps (ad_runs (ad_settle i r s) ! j) = p"
    using ad_settle_runs [of i r s] j by (metis nth_map)
  moreover have "shows_live (ad_settle i r s) \<and> only_live (ad_settle i r s)"
    using ad_step_inv [of s "Settle i r"] assms by (simp add: ad_current_def)
  ultimately show ?thesis using j ad_settle_runs [of i r s]
    by (auto simp: ad_current_def ad_settle_live)
qed

text \<open>What a page with current data shows: its data are the answer for the dependencies once the
  live run is fulfilled.\<close>

lemma ad_current_data:
  assumes "ad_current p s"
  obtains i where "ad_live s = Some i" "run_deps (ad_runs s ! i) = p"
    "promise (ad_runs s ! i) = Pending \<Longrightarrow> ad_loading s"
    "\<And>v. promise (ad_runs s ! i) = Fulfilled v \<Longrightarrow> \<not> ad_loading s \<and> ad_data s = Some v"
    "\<And>e. promise (ad_runs s ! i) = Rejected e \<Longrightarrow> \<not> ad_loading s \<and> ad_error s = Some e"
  using assms by (auto simp: ad_current_def shows_live_def split: promise.splits)

section \<open>Loaded once\<close>

text \<open>A page whose dependencies are empty has one run: the data as they are mounted, and once it has
  resolved. From then on no settlement changes them.\<close>

definition mounted_data :: "(unit, 'd, 'e) async_data" where
  "mounted_data = ad_effect True () (ad_init True None)"

definition loaded_once :: "'d \<Rightarrow> (unit, 'd, 'e) async_data" where
  "loaded_once v = ad_settle 0 (Fulfilled v) mounted_data"

lemmas loaded_once_defs = loaded_once_def mounted_data_def ad_effect_def ad_init_def ad_cleanup_def ad_settle_def ad_callbacks_def

lemma mounted_data_cells [simp]: "ad_data mounted_data = None" "ad_loading mounted_data" "ad_error mounted_data = None"
  by (simp_all add: loaded_once_defs)

lemma loaded_once_cells [simp]: "ad_data (loaded_once v) = Some v" "\<not> ad_loading (loaded_once v)"
  by (simp_all add: loaded_once_defs)

lemma loaded_once_runs: "ad_runs (loaded_once v) = [\<lparr>run_deps = (), cancelled = False, promise = Fulfilled v\<rparr>]"
  by (simp add: loaded_once_defs)

lemma loaded_once_fixed [simp]: "ad_settle i p (loaded_once v) = loaded_once v"
  by (cases "i = 0") (simp_all add: ad_settle_def loaded_once_runs)

end
