(* ===== verification/Conversations.thy ===== *)
theory Conversations
  imports AsyncPage Sorting Format Base64 Widgets
begin

text \<open>
  ui/src/pages/Conversations.tsx: the list of logged conversations with its filters and pages,
  read through useAsyncData, and the decoded detail. \<open>parse\<close> is JSON.parse (None where it
  throws); the date reader and the time zone are arguments as elsewhere.
\<close>

section \<open>groupMasking\<close>

text \<open>\<open>for (const e of entries)\<close>: an array gives its elements, a string pieces that have none of
  the properties read here, any other value is not iterable and throws outside the try.\<close>

fun mask_entries :: "json \<Rightarrow> js_error + json list" where
  "mask_entries (JArr xs) = Inr xs"
| "mask_entries (JStr s) = Inr []"
| "mask_entries _ = Inl (TypeErr (js ''entries is not iterable''))"

text \<open>Keys of a Map: equal strings, numbers and booleans are one key, objects never.\<close>

fun same_key :: "json \<Rightarrow> json \<Rightarrow> bool" where
  "same_key (JStr a) (JStr b) \<longleftrightarrow> a = b"
| "same_key (JNum a) (JNum b) \<longleftrightarrow> a = b"
| "same_key (JBool a) (JBool b) \<longleftrightarrow> a = b"
| "same_key _ _ \<longleftrightarrow> False"

type_synonym mask_groups = "(json \<times> json option list) list"

primrec add_placeholder :: "json \<Rightarrow> json option \<Rightarrow> mask_groups \<Rightarrow> mask_groups" where
  "add_placeholder k p [] = [(k, [p])]"
| "add_placeholder k p (g # gs) = (if same_key (fst g) k then (fst g, snd g @ [p]) # gs
     else g # add_placeholder k p gs)"

fun group_entries :: "json list \<Rightarrow> mask_groups \<Rightarrow> js_error + mask_groups" where
  "group_entries [] gs = Inr gs"
| "group_entries (e # es) gs = (case get_prop (js ''original'') e of
      Inl err \<Rightarrow> Inl err
    | Inr v \<Rightarrow> if (case v of None \<Rightarrow> True | Some x \<Rightarrow> \<not> truthy_json x) then group_entries es gs
        else (case get_prop (js ''placeholder'') e of
            Inl err \<Rightarrow> Inl err
          | Inr p \<Rightarrow> group_entries es (add_placeholder (the v) p gs)))"

definition group_masking :: "(jsstring \<Rightarrow> json option) \<Rightarrow> jsstring option \<Rightarrow> js_error + mask_groups" where
  "group_masking parse b64 = (if \<not> truthy_str b64 then Inr []
     else (case Option.bind (decode_base64_utf8 (the b64)) parse of
        None \<Rightarrow> Inr []
      | Some entries \<Rightarrow> (case mask_entries entries of Inl e \<Rightarrow> Inl e | Inr es \<Rightarrow> group_entries es [])))"

section \<open>State\<close>

record conv_data =
  cd_items :: "conversation_item list"
  cd_total :: "jsnum option"

datatype conv_column = CvId | CvTenant | CvModel | CvStatus | CvMasked | CvStreamed | CvCreated

record conv_page =
  cp_page :: int
  cp_filters :: conversation_filters
  cp_data :: "(int \<times> conversation_filters, conv_data, js_error) async_data"
  cp_detail :: "conversation_detail option"
  cp_detail_error :: bool
  cp_sort :: "conv_column sort_state"

definition per_page :: int where "per_page = 20"

definition no_filters :: conversation_filters where
  "no_filters = \<lparr>cf_tenant_id = None, cf_status = None, cf_model = None, cf_masked = None\<rparr>"

definition filter_key :: "conversation_filters \<Rightarrow> jsstring" where
  "filter_key f = nullish (cf_tenant_id f) [] @ js ''|'' @ nullish (cf_status f) [] @ js ''|'' @
     nullish (cf_model f) [] @ js ''|'' @ nullish (cf_masked f) []"

text \<open>The page after its first render: the effect has started the first run.\<close>

definition conv_init :: conv_page where
  "conv_init = \<lparr>cp_page = 1, cp_filters = no_filters,
     cp_data = ad_effect True (1, no_filters) (ad_init True None), cp_detail = None,
     cp_detail_error = False, cp_sort = \<lparr>sort_key = Some CvCreated, sort_dir = Desc\<rparr>\<rparr>"

text \<open>The render after the page s became s': the effect runs again when the page or the filter key
  changed.\<close>

definition conv_render :: "conv_page \<Rightarrow> conv_page \<Rightarrow> conv_page" where
  "conv_render s s' =
     (if cp_page s = cp_page s' \<and> filter_key (cp_filters s) = filter_key (cp_filters s') then s'
      else s'\<lparr>cp_data := ad_effect True (cp_page s', cp_filters s') (cp_data s')\<rparr>)"

definition conv_items :: "conv_page \<Rightarrow> conversation_item list" where
  "conv_items s = (case ad_data (cp_data s) of None \<Rightarrow> [] | Some d \<Rightarrow> cd_items d)"

definition conv_total :: "conv_page \<Rightarrow> jsnum" where
  "conv_total s = (case ad_data (cp_data s) of None \<Rightarrow> Fin 0 | Some d \<Rightarrow> nullish (cd_total d) (Fin 0))"

definition total_pages :: "conv_page \<Rightarrow> jsnum" where
  "total_pages s = jmax (Fin 1) (jceil (jdiv (conv_total s) (Fin (of_int per_page))))"

definition shows_pagination :: "conv_page \<Rightarrow> bool" where
  "shows_pagination s \<longleftrightarrow> jlt (Fin (of_int per_page)) (conv_total s)"

text \<open>\<open>Array.from(new Set(xs)).sort()\<close>\<close>

definition options_of :: "(conversation_item \<Rightarrow> jsstring) \<Rightarrow> conv_page \<Rightarrow> jsstring list" where
  "options_of f s = sort (remdups (map f (conv_items s)))"

fun conv_cell :: "conversation_item \<Rightarrow> conv_column \<Rightarrow> cell" where
  "conv_cell c CvId = CStr (cv_id c)"
| "conv_cell c CvTenant = CStr (cv_tenant_id c)"
| "conv_cell c CvModel = CStr (cv_model c)"
| "conv_cell c CvStatus = CStr (cv_status c)"
| "conv_cell c CvMasked = CBool (cv_masked c)"
| "conv_cell c CvStreamed = CBool (cv_streamed c)"
| "conv_cell c CvCreated = CStr (cv_created_at c)"

definition conv_rows :: "conv_page \<Rightarrow> conversation_item list" where
  "conv_rows s = sort_rows conv_cell (conv_items s) (sort_key (cp_sort s)) (sort_dir (cp_sort s))"

definition conv_time :: "date_reader \<Rightarrow> time_zone \<Rightarrow> jsstring \<Rightarrow> jsstring" where
  "conv_time rd tz t = (if t = [] then dash else (case rd t of None \<Rightarrow> dash
     | Some d \<Rightarrow> pad (local_hours tz d) @ js '':'' @ pad (local_minutes tz d) @ js '' '' @
         pad (day (local_date tz d)) @ js ''.'' @ pad (month (local_date tz d)) @ js ''.'' @
         drop 2 (int_str (year (local_date tz d)))))"

definition status_class :: "jsstring \<Rightarrow> jsstring" where
  "status_class st = js ''badge '' @ (if st = js ''blocked'' then js ''badge-down''
     else if st = js ''error'' then js ''badge-warn'' else js ''badge-up'')"

definition yes_no :: "bool \<Rightarrow> jsstring" where
  "yes_no b = (if b then js ''yes'' else js ''no'')"

definition conv_row :: "date_reader \<Rightarrow> time_zone \<Rightarrow> conv_page \<Rightarrow> conversation_item \<Rightarrow> bool \<times> jsstring list" where
  "conv_row rd tz s c =
     ((case cp_detail s of None \<Rightarrow> False | Some d \<Rightarrow> cv_id d = cv_id c),
      [take 8 (cv_id c) @ js ''...'', cv_tenant_id c, cv_model c, status_class (cv_status c), cv_status c,
       yes_no (cv_masked c), yes_no (cv_streamed c), conv_time rd tz (cv_created_at c)])"

section \<open>The detail\<close>

record detail_view =
  dv_heading :: jsstring
  dv_mask_id :: "jsstring option"
  dv_masking :: mask_groups
  dv_request :: jsstring
  dv_response :: "(jsstring \<times> jsstring) option"

definition invalid_base64 :: js_error where
  "invalid_base64 = GenErr (js ''The string to be decoded is not correctly encoded.'')"

text \<open>Rendering the detail; a base64 text that does not decode throws during the render.\<close>

definition detail_render :: "(jsstring \<Rightarrow> json option) \<Rightarrow> conversation_detail \<Rightarrow> js_error + detail_view" where
  "detail_render parse d = (case group_masking parse (pl_masking (cv_payload d)) of Inl e \<Rightarrow> Inl e
     | Inr gs \<Rightarrow> (case decode_base64_utf8 (pl_request (cv_payload d)) of None \<Rightarrow> Inl invalid_base64
        | Some req \<Rightarrow>
           let view = \<lparr>dv_heading = js ''Conversation '' @ cv_id d,
             dv_mask_id = (if truthy_str (cv_mask_id d) then cv_mask_id d else None),
             dv_masking = gs, dv_request = req, dv_response = None\<rparr>
           in if \<not> truthy_str (pl_response (cv_payload d)) then Inr view
              else (case decode_base64_utf8 (the (pl_response (cv_payload d))) of
                  None \<Rightarrow> Inl invalid_base64
                | Some resp \<Rightarrow> Inr (view\<lparr>dv_response := Some
                    (js ''Response '' @ (if cv_streamed d then js ''(stream)'' else []), resp)\<rparr>))))"

section \<open>Handlers\<close>

datatype filter_field = TenantFilter | StatusFilter | ModelFilter | MaskedFilter

fun put_filter :: "filter_field \<Rightarrow> jsstring option \<Rightarrow> conversation_filters \<Rightarrow> conversation_filters" where
  "put_filter TenantFilter v f = f\<lparr>cf_tenant_id := v\<rparr>"
| "put_filter StatusFilter v f = f\<lparr>cf_status := v\<rparr>"
| "put_filter ModelFilter v f = f\<lparr>cf_model := v\<rparr>"
| "put_filter MaskedFilter v f = f\<lparr>cf_masked := v\<rparr>"

definition set_filter :: "filter_field \<Rightarrow> jsstring \<Rightarrow> conv_page \<Rightarrow> conv_page" where
  "set_filter k v s = conv_render s (s\<lparr>cp_filters := put_filter k (or_undefined v) (cp_filters s), cp_page := 1\<rparr>)"

datatype conv_query = CDetail jsstring

type_synonym conv_reply = "js_error + conversation_detail"
type_synonym conv_act = "(conv_page, page_out, conv_query, conv_reply) act"

definition conv_adm :: "conv_query \<Rightarrow> conv_reply \<Rightarrow> bool" where
  "conv_adm q r \<longleftrightarrow> (case q of CDetail i \<Rightarrow> (\<forall>e. get_conversation i = Inl e \<longrightarrow> r = Inl e))"

definition open_detail :: "jsstring \<Rightarrow> conv_page \<Rightarrow> conv_act" where
  "open_detail i s =
    (if (case cp_detail s of None \<Rightarrow> False | Some d \<Rightarrow> cv_id d = i)
     then Upd (\<lambda>s. s\<lparr>cp_detail := None\<rparr>) Done
     else Upd (\<lambda>s. s\<lparr>cp_detail_error := False\<rparr>) (Await (CDetail i) (\<lambda>r. case r of
         Inl _ \<Rightarrow> Upd (\<lambda>s. s\<lparr>cp_detail_error := True\<rparr>) (Upd (\<lambda>s. s\<lparr>cp_detail := None\<rparr>) Done)
       | Inr d \<Rightarrow> Upd (\<lambda>s. s\<lparr>cp_detail := Some d\<rparr>) Done)))"

text \<open>The list request settles as an event of the environment.\<close>

datatype conv_event =
    CvSettle nat "(conv_data, js_error) promise"
  | CvFilter filter_field jsstring
  | CvPage int
  | CvSort conv_column
  | CvOpen jsstring
  | CvCollapse

fun conv_handler :: "conv_event \<Rightarrow> conv_page \<Rightarrow> conv_act" where
  "conv_handler (CvSettle i p) s = Upd (\<lambda>s. s\<lparr>cp_data := ad_settle i p (cp_data s)\<rparr>) Done"
| "conv_handler (CvFilter k v) s = Upd (set_filter k v) Done"
| "conv_handler (CvPage p) s = Upd (\<lambda>s. conv_render s (s\<lparr>cp_page := p\<rparr>)) Done"
| "conv_handler (CvSort c) s = Upd (\<lambda>s. s\<lparr>cp_sort := sort_toggle c (cp_sort s)\<rparr>) Done"
| "conv_handler (CvOpen i) s = open_detail i s"
| "conv_handler CvCollapse s = Upd (\<lambda>s. s\<lparr>cp_detail := None\<rparr>) Done"

fun conv_enabled :: "conv_event \<Rightarrow> conv_page \<Rightarrow> bool" where
  "conv_enabled (CvOpen i) s \<longleftrightarrow> i \<in> cv_id ` set (conv_items s)"
| "conv_enabled CvCollapse s \<longleftrightarrow> cp_detail s \<noteq> None"
| "conv_enabled (CvFilter StatusFilter v) s \<longleftrightarrow> v \<in> {[], js ''ok'', js ''error'', js ''blocked''}"
| "conv_enabled (CvFilter MaskedFilter v) s \<longleftrightarrow> v \<in> {[], js ''true'', js ''false''}"
| "conv_enabled (CvFilter TenantFilter v) s \<longleftrightarrow> v \<in> set ([] # options_of cv_tenant_id s)"
| "conv_enabled (CvFilter ModelFilter v) s \<longleftrightarrow> v \<in> set ([] # options_of cv_model s)"
| "conv_enabled (CvPage p) s \<longleftrightarrow> shows_pagination s \<and>
     (p = cp_page s - 1 \<and> 1 < cp_page s \<or> p = cp_page s + 1 \<and> jlt (Fin (of_int (cp_page s))) (total_pages s))"
| "conv_enabled _ s \<longleftrightarrow> True"

section \<open>The table belongs to the filters on display\<close>

lemma count_join: "count_list (join_with [c] ps) c = sum_list (map (\<lambda>p. count_list p c) ps) + (length ps - 1)"
proof (induction ps)
  case (Cons p ps)
  then show ?case by (cases ps) auto
qed simp

lemma split_join_with: "ps \<noteq> [] \<Longrightarrow> \<forall>p \<in> set ps. c \<notin> set p \<Longrightarrow> split_on c (join_with [c] ps) = ps"
proof (induction ps rule: list_nonempty_induct)
  case (cons p ps)
  then obtain q qs where "ps = q # qs" by (cases ps) auto
  with cons show ?case by (simp add: split_on_append_sep)
qed (simp add: split_on_no_sep)

lemma join_with_inj:
  assumes "join_with [c] ps = join_with [c] qs" "length ps = length qs" "\<forall>p \<in> set ps. c \<notin> set p"
  shows "ps = qs"
proof (cases "ps = []")
  case False
  have "count_list (join_with [c] ps) c = length ps - 1"
    using assms(3) by (simp add: count_join count_list_0_iff sum_list_eq_0_iff cong: map_cong)
  then have "sum_list (map (\<lambda>p. count_list p c) qs) = 0"
    using assms(1,2) count_join [of c qs] by simp
  then have "\<forall>q \<in> set qs. c \<notin> set q" by (auto simp: sum_list_eq_0_iff count_list_0_iff)
  then have "split_on c (join_with [c] qs) = qs" using False assms(2) by (intro split_join_with) auto
  moreover have "split_on c (join_with [c] ps) = ps" using False assms(3) by (intro split_join_with) auto
  ultimately show ?thesis using assms(1) by metis
qed (use assms(2) in simp)

definition filter_texts :: "conversation_filters \<Rightarrow> jsstring list" where
  "filter_texts f = [nullish (cf_tenant_id f) [], nullish (cf_status f) [], nullish (cf_model f) [], nullish (cf_masked f) []]"

lemma filter_key_join: "filter_key f = join_with [124] (filter_texts f)"
  by (simp add: filter_key_def filter_texts_def js_def)

lemma set_if_text: "nullish v [] = nullish w [] \<Longrightarrow> set_if k v ps = set_if k w ps"
  by (cases v; cases w) (auto simp: set_if_def)

text \<open>Filters with the same texts ask the same question.\<close>

lemma list_conversations_text: "filter_texts f = filter_texts g \<Longrightarrow> list_conversations pg per f = list_conversations pg per g"
  unfolding list_conversations_def conversation_params_def filter_texts_def
  using set_if_text [of "cf_tenant_id f" "cf_tenant_id g"] set_if_text [of "cf_status f" "cf_status g"]
    set_if_text [of "cf_model f" "cf_model g"] set_if_text [of "cf_masked f" "cf_masked g"] by simp

definition conv_ok :: "conv_page \<Rightarrow> bool" where
  "conv_ok s \<longleftrightarrow> (\<exists>f. ad_current (cp_page s, f) (cp_data s) \<and> filter_key f = filter_key (cp_filters s))"

lemma conv_render_ok: "conv_ok s \<Longrightarrow> cp_data s' = cp_data s \<Longrightarrow> conv_ok (conv_render s s')"
proof -
  assume a: "conv_ok s" "cp_data s' = cp_data s"
  then have "shows_live (cp_data s')" "only_live (cp_data s')" by (auto simp: conv_ok_def ad_current_def)
  then have "ad_current (cp_page s', cp_filters s') (ad_effect True (cp_page s', cp_filters s') (cp_data s'))"
    by (rule ad_current_effect)
  with a show ?thesis by (auto simp: conv_ok_def conv_render_def)
qed

lemma conv_ok_cells [simp]:
  "conv_ok (s\<lparr>cp_detail := d\<rparr>) = conv_ok s" "conv_ok (s\<lparr>cp_detail_error := e\<rparr>) = conv_ok s"
  "conv_ok (s\<lparr>cp_sort := c\<rparr>) = conv_ok s"
  by (simp_all add: conv_ok_def)

interpretation conv: page_invariant conv_handler conv_enabled conv_adm conv_init conv_ok
proof unfold_locales
  show "conv_ok conv_init" using ad_current_init [of "(1, no_filters)" None] by (auto simp: conv_ok_def conv_init_def)
next
  fix e s
  have "conv_ok (s\<lparr>cp_data := ad_settle i p (cp_data s)\<rparr>)" if "conv_ok s" for s i p
    using that unfolding conv_ok_def by simp (blast intro: ad_current_settle)
  then show "keeps (conv_handler e s) conv_ok conv_adm (\<lambda>s. s)"
    by (cases e) (auto simp: set_filter_def open_detail_def conv_render_ok split: option.split sum.split)
qed


definition demo_item :: conversation_item where
  "demo_item = \<lparr>cv_id = js ''c1'', cv_tenant_id = js ''acme'', cv_model = js ''gpt'', cv_status = js ''ok'',
     cv_masked = False, cv_streamed = False, cv_mask_id = None, cv_created_at = []\<rparr>"


section \<open>The masking groups\<close>

definition mask_entry :: "jsstring \<times> jsstring \<Rightarrow> json" where
  "mask_entry e = JObj [(js ''placeholder'', JStr (fst e)), (js ''original'', JStr (snd e))]"

text \<open>Values in the order of their first occurrence.\<close>

definition firsts :: "'a list \<Rightarrow> 'a list" where
  "firsts xs = rev (remdups (rev xs))"

lemma firsts_snoc: "firsts (xs @ [x]) = (if x \<in> set xs then firsts xs else firsts xs @ [x])"
  by (simp add: firsts_def)

lemma set_firsts [simp]: "set (firsts xs) = set xs" and distinct_firsts [simp]: "distinct (firsts xs)"
  by (simp_all add: firsts_def)

definition groups_of :: "(jsstring \<times> jsstring) list \<Rightarrow> mask_groups" where
  "groups_of es = map (\<lambda>orig. (JStr orig, map (\<lambda>e. Some (JStr (fst e))) (filter (\<lambda>e. snd e = orig) es)))
     (firsts (map snd es))"

lemma add_placeholder_present:
  assumes "x \<in> set os" "distinct os"
  shows "add_placeholder (JStr x) p (map (\<lambda>orig. (JStr orig, f orig)) os) =
    map (\<lambda>orig. (JStr orig, if orig = x then f orig @ [p] else f orig)) os"
  using assms by (induction os) (auto intro!: map_cong)

lemma add_placeholder_absent:
  assumes "x \<notin> set os"
  shows "add_placeholder (JStr x) p (map (\<lambda>orig. (JStr orig, f orig)) os) =
    map (\<lambda>orig. (JStr orig, f orig)) os @ [(JStr x, [p])]"
  using assms by (induction os) auto

lemma groups_of_snoc: "groups_of (es @ [e]) = add_placeholder (JStr (snd e)) (Some (JStr (fst e))) (groups_of es)"
proof (cases "snd e \<in> set (map snd es)")
  case True
  then show ?thesis unfolding groups_of_def
    by (subst add_placeholder_present) (auto simp: firsts_snoc intro!: map_cong)
next
  case False
  then have "filter (\<lambda>e'. snd e' = snd e) es = []" by (auto simp: filter_empty_conv) (metis image_eqI snd_conv)
  with False show ?thesis unfolding groups_of_def
    by (subst add_placeholder_absent) (auto simp: firsts_snoc intro!: map_cong)
qed

lemma group_entries_groups:
  "group_entries (map mask_entry es) (groups_of done) = Inr (groups_of (done @ filter (\<lambda>e. snd e \<noteq> []) es))"
proof (induction es arbitrary: "done")
  case (Cons e es)
  have p: "get_prop (js ''original'') (mask_entry e) = Inr (Some (JStr (snd e)))"
    "get_prop (js ''placeholder'') (mask_entry e) = Inr (Some (JStr (fst e)))"
    by (simp_all add: mask_entry_def js_def)
  show ?case using Cons.IH [of "done @ [e]"] Cons.IH [of "done"] by (simp add: p groups_of_snoc)
qed simp

text \<open>C28. The masking table groups what the gateway logged: for a well-formed list of entries it has
  one line per original text, in the order of first appearance, with exactly the placeholders
  that stand for it, in order; entries without an original are skipped.\<close>

theorem group_masking_groups:
  assumes "decode_base64_utf8 b64 = Some t" "parse t = Some (JArr (map mask_entry es))" "b64 \<noteq> []"
  shows "group_masking parse (Some b64) = Inr (groups_of (filter (\<lambda>e. snd e \<noteq> []) es)) \<and>
    distinct (map fst (groups_of (filter (\<lambda>e. snd e \<noteq> []) es))) \<and>
    sum_list (map (\<lambda>g. length (snd g)) (groups_of (filter (\<lambda>e. snd e \<noteq> []) es))) = length (filter (\<lambda>e. snd e \<noteq> []) es)"
proof -
  have n: "groups_of [] = []" by (simp add: groups_of_def firsts_def)
  have "group_entries (map mask_entry es) [] = Inr (groups_of (filter (\<lambda>e. snd e \<noteq> []) es))"
    using group_entries_groups [of es "[]"] by (simp add: n)
  moreover have "distinct (map fst (groups_of xs))" for xs
    by (simp add: groups_of_def comp_def distinct_map inj_on_def)
  moreover have "sum_list (map (\<lambda>g. length (snd g)) (groups_of xs)) = length xs" for xs
  proof -
    have "sum_list (map (\<lambda>g. length (snd g)) (groups_of xs)) =
        (\<Sum>x \<in> set (map snd xs). length (filter (\<lambda>e. snd e = x) xs))"
      unfolding groups_of_def by (simp add: comp_def sum_list_distinct_conv_sum_set)
    also have "\<dots> = (\<Sum>x \<in> set (map snd xs). count_list (map snd xs) x)"
      by (simp add: count_list_eq_length_filter filter_map comp_def eq_commute)
    also have "\<dots> = length (map snd xs)" by (rule sum_count_set) auto
    finally show ?thesis by simp
  qed
  ultimately show ?thesis using assms by (simp add: group_masking_def truthy_str_def)
qed

theorem group_masking_groups_witness:
  "group_masking (\<lambda>_. Some (JArr (map mask_entry [(js ''P1'', js ''x''), (js ''P2'', js ''x'')]))) (Some (js ''YQ=='')) =
   Inr [(JStr (js ''x''), [Some (JStr (js ''P1'')), Some (JStr (js ''P2''))])]"
proof -
  obtain t where t: "decode_base64_utf8 (js ''YQ=='') = Some t" by (cases "decode_base64_utf8 (js ''YQ=='')") (code_simp, blast)
  have "groups_of (filter (\<lambda>e. snd e \<noteq> []) [(js ''P1'', js ''x''), (js ''P2'', js ''x'')]) =
      [(JStr (js ''x''), [Some (JStr (js ''P1'')), Some (JStr (js ''P2''))])]" by code_simp
  then show ?thesis
    using group_masking_groups [OF t, of "\<lambda>_. Some (JArr (map mask_entry [(js ''P1'', js ''x''), (js ''P2'', js ''x'')]))"
        "[(js ''P1'', js ''x''), (js ''P2'', js ''x'')]"] by simp
qed

section \<open>What the page does not guard\<close>

text \<open>A conversation opened last can be replaced by an earlier one whose answer comes later.\<close>

lemma conv_detail_stale:
  fixes items :: "conversation_item list"
  assumes "i \<noteq> j" "conv_adm (CDetail i) (Inr d)" "conv_adm (CDetail j) (Inr e)"
    "i \<in> cv_id ` set items" "j \<in> cv_id ` set items"
  shows "\<exists>m. sys_reach conv_handler conv_enabled conv_adm (mount conv_init) m \<and> tasks m = [] \<and>
    cp_detail (ui m) = Some d"
proof -
  let ?sched = "[Fire (CvSettle 0 (Fulfilled \<lparr>cd_items = items, cd_total = None\<rparr>)), Fire (CvOpen i), Fire (CvOpen j),
     Answer 1 (Inr e), Answer 0 (Inr d)] :: (conv_event, conv_reply) move list"
  have "\<exists>m. do_moves conv_handler conv_enabled conv_adm ?sched (mount conv_init) = Some m \<and> tasks m = [] \<and>
      cp_detail (ui m) = Some d"
    using assms by (simp add: resume_def mount_def conv_init_def open_detail_def conv_items_def ad_effect_def
      ad_cleanup_def ad_init_def ad_settle_def ad_callbacks_def Let_def)
  then show ?thesis by (blast intro: schedule_reach)
qed

text \<open>When the request for new filters fails, the page keeps the rows of the old ones without any
  message: it never reads the hook's error.\<close>

lemma failed_filter_keeps_rows:
  assumes "ad_current p (cp_data s)" "ad_live (cp_data s) = Some i" "promise (ad_runs (cp_data s) ! i) = Pending"
  shows "conv_rows (s\<lparr>cp_data := ad_settle i (Rejected e) (cp_data s)\<rparr>) = conv_rows s"
  using assms by (auto simp: conv_rows_def conv_items_def ad_settle_def ad_callbacks_def Let_def)

end
