(* ===== verification/Ranges.thy ===== *)
theory Ranges
  imports Format Client
begin

text \<open>
  ui/src/components/TimeRangePicker.tsx: the presets, the custom range with its two local
  date-time inputs, and the range persisted in localStorage. The time zone is given by its
  offset \<open>tz\<close> at an instant and by \<open>utc\<close>, the instant of a local time; \<open>rd\<close> reads a date
  string; \<open>ser\<close> and \<open>parse\<close> are JSON.stringify on ranges and JSON.parse (None where it throws).
\<close>

record range_value =
  rg_mode :: jsstring
  rg_from :: "jsstring option"
  rg_to :: "jsstring option"

definition default_range :: range_value where
  "default_range = \<lparr>rg_mode = js ''7d'', rg_from = Some [], rg_to = Some []\<rparr>"

datatype preset = Today | Yesterday | Week | Month | AllTime

definition preset_mode :: "preset \<Rightarrow> jsstring" where
  "preset_mode p = (case p of Today \<Rightarrow> js ''today'' | Yesterday \<Rightarrow> js ''yesterday'' | Week \<Rightarrow> js ''7d''
     | Month \<Rightarrow> js ''30d'' | AllTime \<Rightarrow> js ''all'')"

text \<open>\<open>new Date(now.getFullYear(), now.getMonth(), now.getDate() + k)\<close>: the day may leave the month.\<close>

definition local_midnight :: "time_zone \<Rightarrow> (int \<Rightarrow> int) \<Rightarrow> int \<Rightarrow> int \<Rightarrow> int" where
  "local_midnight tz utc now k =
     (let d = local_date tz now in utc ((days_of_civil (d\<lparr>day := 1\<rparr>) + (day d + k - 1)) * ms_per_day))"

text \<open>2024-01-01T00:00:00Z\<close>

definition all_from :: int where "all_from = 1704067200000"

definition preset_range :: "time_zone \<Rightarrow> (int \<Rightarrow> int) \<Rightarrow> int \<Rightarrow> preset \<Rightarrow> int \<times> int" where
  "preset_range tz utc now p = (case p of
      Today \<Rightarrow> (local_midnight tz utc now 0, now)
    | Yesterday \<Rightarrow> (local_midnight tz utc now (- 1), local_midnight tz utc now 0)
    | Week \<Rightarrow> (now - 7 * 86400000, now)
    | Month \<Rightarrow> (now - 30 * 86400000, now)
    | AllTime \<Rightarrow> (all_from, now))"

definition fmt_local :: "time_zone \<Rightarrow> int \<Rightarrow> jsstring" where
  "fmt_local tz t = int_str (year (local_date tz t)) @ js ''-'' @ pad (month (local_date tz t)) @ js ''-'' @
     pad (day (local_date tz t)) @ js ''T'' @ pad (local_hours tz t) @ js '':'' @ pad (local_minutes tz t)"

definition parse_local :: "date_reader \<Rightarrow> int \<Rightarrow> jsstring \<Rightarrow> int" where
  "parse_local rd now v = (case rd v of Some t \<Rightarrow> t | None \<Rightarrow> now)"

section \<open>The picker\<close>

text \<open>The two inputs of the custom range; the range itself belongs to the parent.\<close>

record range_picker =
  custom_from :: jsstring
  custom_to :: jsstring

definition picker_init :: "time_zone \<Rightarrow> int \<Rightarrow> range_picker" where
  "picker_init tz now = \<lparr>custom_from = fmt_local tz (now - 7 * 86400000), custom_to = fmt_local tz now\<rparr>"

definition ms_range :: "jsstring \<Rightarrow> int \<times> int \<Rightarrow> range_value" where
  "ms_range md r = \<lparr>rg_mode = md, rg_from = Some (iso_string (fst r)), rg_to = Some (iso_string (snd r))\<rparr>"

definition handle_preset :: "time_zone \<Rightarrow> (int \<Rightarrow> int) \<Rightarrow> int \<Rightarrow> preset \<Rightarrow> range_value" where
  "handle_preset tz utc now p = ms_range (preset_mode p) (preset_range tz utc now p)"

definition enter_custom :: "date_reader \<Rightarrow> time_zone \<Rightarrow> int \<Rightarrow> range_picker \<times> range_value" where
  "enter_custom rd tz now = (let f = fmt_local tz (now - 7 * 86400000); t = fmt_local tz now in
     (\<lparr>custom_from = f, custom_to = t\<rparr>, ms_range (js ''custom'') (parse_local rd now f, parse_local rd now t)))"

definition apply_custom :: "date_reader \<Rightarrow> int \<Rightarrow> range_picker \<Rightarrow> range_value" where
  "apply_custom rd now p = ms_range (js ''custom'') (parse_local rd now (custom_from p), parse_local rd now (custom_to p))"

text \<open>A click on the last button enters the custom mode or applies its inputs.\<close>

definition custom_click :: "date_reader \<Rightarrow> time_zone \<Rightarrow> int \<Rightarrow> range_value \<Rightarrow> range_picker \<Rightarrow> range_picker \<times> range_value" where
  "custom_click rd tz now v p = (if rg_mode v = js ''custom'' then (p, apply_custom rd now p) else enter_custom rd tz now)"

lemma local_midnight_day:
  "local_midnight tz utc now k = utc ((local_ms tz now div ms_per_day + k) * ms_per_day)"
proof -
  have "days_of_civil (d\<lparr>day := 1\<rparr>) + (day d - 1) = days_of_civil d" for d
    by (simp add: days_of_civil_def Let_def)
  moreover have "days_of_civil (local_date tz now) = local_ms tz now div ms_per_day"
    using days_of_civil_of_days(1) [of "local_ms tz now div ms_per_day"] by (simp add: local_date_def)
  ultimately have "days_of_civil ((local_date tz now)\<lparr>day := 1\<rparr>) + (day (local_date tz now) + k - 1) =
      local_ms tz now div ms_per_day + k"
    by (metis add.assoc add_diff_eq add.commute)
  then show ?thesis by (simp only: local_midnight_def Let_def)
qed

text \<open>Yesterday ends where today begins, and is the local day before.\<close>

lemma yesterday_meets_today:
  "snd (preset_range tz utc now Yesterday) = fst (preset_range tz utc now Today) \<and>
   fst (preset_range tz utc now Yesterday) = utc ((local_ms tz now div ms_per_day - 1) * ms_per_day)"
  using local_midnight_day [of tz utc now "- 1"] by (simp add: preset_range_def)

section \<open>Rows within a range\<close>

text \<open>\<open>ts >= f && ts <= t\<close> for the time of a row, with f and t from the range, 0 and Infinity where it has
  none; NaN satisfies neither.\<close>

definition time_in_range :: "date_reader \<Rightarrow> range_value \<Rightarrow> jsstring \<Rightarrow> bool" where
  "time_in_range rd v x \<longleftrightarrow> (case rd x of None \<Rightarrow> False
     | Some ts \<Rightarrow>
         (if truthy_str (rg_from v) then (case rd (the (rg_from v)) of None \<Rightarrow> False | Some f \<Rightarrow> f \<le> ts) else 0 \<le> ts) \<and>
         (if truthy_str (rg_to v) then (case rd (the (rg_to v)) of None \<Rightarrow> False | Some t \<Rightarrow> ts \<le> t) else True))"

section \<open>The persisted range\<close>

text \<open>A stored value is used when its mode is a string; its other fields are taken as they are, and
  are undefined (None) when they are not strings.\<close>

definition string_prop :: "jsstring \<Rightarrow> json \<Rightarrow> jsstring option" where
  "string_prop k j = (case get_prop k j of Inr (Some (JStr s)) \<Rightarrow> Some s | _ \<Rightarrow> None)"

definition stored_range :: "(jsstring \<Rightarrow> json option) \<Rightarrow> jsstring option \<Rightarrow> range_value" where
  "stored_range parse raw = (case raw of None \<Rightarrow> default_range
     | Some r \<Rightarrow> if r = [] then default_range else (case parse r of None \<Rightarrow> default_range
         | Some v \<Rightarrow> (case string_prop (js ''mode'') v of None \<Rightarrow> default_range
             | Some md \<Rightarrow> \<lparr>rg_mode = md, rg_from = string_prop (js ''from'') v, rg_to = string_prop (js ''to'') v\<rparr>)))"

record range_state =
  rs_range :: range_value
  rs_store :: "jsstring option"

definition range_mount :: "(jsstring \<Rightarrow> json option) \<Rightarrow> jsstring option \<Rightarrow> range_state" where
  "range_mount parse raw = \<lparr>rs_range = stored_range parse raw, rs_store = raw\<rparr>"

text \<open>\<open>persist\<close>; with \<open>ok\<close> False localStorage throws.\<close>

definition persist :: "(range_value \<Rightarrow> jsstring) \<Rightarrow> bool \<Rightarrow> range_value \<Rightarrow> range_state \<Rightarrow> range_state" where
  "persist ser ok v s = s\<lparr>rs_range := v, rs_store := (if ok then Some (ser v) else rs_store s)\<rparr>"

text \<open>What JSON promises for a range: its text is not empty and parses to the object.\<close>

definition json_round :: "(range_value \<Rightarrow> jsstring) \<Rightarrow> (jsstring \<Rightarrow> json option) \<Rightarrow> range_value \<Rightarrow> bool" where
  "json_round ser parse v \<longleftrightarrow> ser v \<noteq> [] \<and> parse (ser v) = Some (json_obj
     [(js ''mode'', Some (JStr (rg_mode v))), (js ''from'', map_option JStr (rg_from v)), (js ''to'', map_option JStr (rg_to v))])"



end
