(* ===== verification/Sessions.thy ===== *)
theory Sessions
  imports AsyncPage Ranges Sorting
begin

text \<open>
  ui/src/pages/Sessions.tsx: the active sessions, read through useAsyncData with a periodic
  refresh, filtered by time, selected and closed in bulk. The requests of this page use fetch
  directly, with the cookie only. \<open>rd\<close> reads a date string (None is NaN).
\<close>

section \<open>Requests\<close>

record session_row =
  ss_id :: jsstring
  ss_tenant_id :: jsstring
  ss_model :: jsstring
  ss_status :: jsstring
  ss_created_at :: jsstring
  ss_expires_at :: jsstring
  ss_token_count :: "jsnum option"

definition sessions_url :: jsstring where
  "sessions_url = js ''/api/v1/sessions''"

definition sessions_request :: http_request where
  "sessions_request = plain_get sessions_url True"

definition is_array :: "json option \<Rightarrow> json list option" where
  "is_array v = (case v of Some (JArr xs) \<Rightarrow> Some xs | _ \<Rightarrow> None)"

definition sessions_result :: "outcome \<Rightarrow> js_error + json list" where
  "sessions_result out = (case out of
      NetFail \<Rightarrow> Inl fetch_failed
    | Resp r \<Rightarrow> if \<not> resp_ok r then Inl (GenErr (js ''fetch failed''))
        else (case read_json r of Inl e \<Rightarrow> Inl e
          | Inr b \<Rightarrow> (case unwrap_data b of Inl e \<Rightarrow> Inl e
              | Inr d \<Rightarrow> (case get_prop (js ''items'') d of Inl e \<Rightarrow> Inl e
                  | Inr i \<Rightarrow> Inr (case is_array i of Some xs \<Rightarrow> xs
                      | None \<Rightarrow> (case is_array (Some d) of Some xs \<Rightarrow> xs | None \<Rightarrow> []))))))"

text \<open>The session id is interpolated into the URL as it is.\<close>

definition close_request :: "jsstring \<Rightarrow> http_request" where
  "close_request i = \<lparr>verb = js ''DELETE'', url = sessions_url @ js ''/'' @ i, headers = [], body = None,
     credentials = True\<rparr>"

definition extend_request :: "jsstring \<Rightarrow> http_request" where
  "extend_request i = \<lparr>verb = js ''PATCH'', url = sessions_url @ js ''/'' @ i @ js ''/extend'',
     headers = [(js ''Content-Type'', js ''application/json'')],
     body = Some (JObj [(js ''ttl_seconds'', JNum (Fin 1800))]), credentials = True\<rparr>"

section \<open>State\<close>

datatype session_column = SsId | SsTenant | SsModel | SsStatus | SsCreated | SsTokens

text \<open>What the confirmation dialog is about: '__bulk__' or a session.\<close>

datatype close_target = Bulk | One jsstring

record sessions_page =
  sp_data :: "(unit, session_row list, js_error) async_data"
  sp_sort :: "session_column sort_state"
  sp_refresh :: int
  sp_as_of :: "int option"
  sp_selected :: "jsstring list"
  sp_confirm :: "close_target option"
  sp_closing :: bool
  sp_range :: range_value

definition sessions_init :: "int \<Rightarrow> sessions_page" where
  "sessions_init now = \<lparr>sp_data = ad_effect True () (ad_init True None),
     sp_sort = \<lparr>sort_key = Some SsCreated, sort_dir = Desc\<rparr>, sp_refresh = 10, sp_as_of = None,
     sp_selected = [], sp_confirm = None, sp_closing = False,
     sp_range = ms_range (js ''7d'') (now - 7 * 86400000, now)\<rparr>"

definition in_range :: "date_reader \<Rightarrow> range_value \<Rightarrow> session_row \<Rightarrow> bool" where
  "in_range rd v r \<longleftrightarrow> time_in_range rd v (ss_created_at r)"

definition sessions_loaded :: "sessions_page \<Rightarrow> session_row list" where
  "sessions_loaded s = nullish (ad_data (sp_data s)) []"

definition sessions_in_range :: "date_reader \<Rightarrow> sessions_page \<Rightarrow> session_row list" where
  "sessions_in_range rd s = (if rg_mode (sp_range s) = js ''all'' then sessions_loaded s
     else filter (in_range rd (sp_range s)) (sessions_loaded s))"

fun session_cell :: "session_row \<Rightarrow> session_column \<Rightarrow> cell" where
  "session_cell r SsId = CStr (ss_id r)"
| "session_cell r SsTenant = CStr (ss_tenant_id r)"
| "session_cell r SsModel = CStr (ss_model r)"
| "session_cell r SsStatus = CStr (ss_status r)"
| "session_cell r SsCreated = CStr (ss_created_at r)"
| "session_cell r SsTokens = (case ss_token_count r of None \<Rightarrow> CUndef | Some n \<Rightarrow> CNum n)"

definition session_rows :: "date_reader \<Rightarrow> sessions_page \<Rightarrow> session_row list" where
  "session_rows rd s = sort_rows session_cell (sessions_in_range rd s) (sort_key (sp_sort s)) (sort_dir (sp_sort s))"

text \<open>One row: whether it is selected, its cells (time and count formatted by the locale) and whether
  it offers Extend and Close.\<close>

definition session_cells :: "(jsstring \<Rightarrow> jsstring) \<Rightarrow> (jsnum \<Rightarrow> jsstring) \<Rightarrow> sessions_page \<Rightarrow> session_row \<Rightarrow>
    bool \<times> jsstring list \<times> bool" where
  "session_cells loc num s r =
    (let tm = (\<lambda>t. if t = [] then dash else loc t) in
     (ss_id r \<in> set (sp_selected s),
      [take 12 (ss_id r) @ js ''...'', ss_tenant_id r, ss_model r, ss_status r, tm (ss_created_at r), tm (ss_expires_at r),
       (case ss_token_count r of None \<Rightarrow> dash | Some n \<Rightarrow> num n)],
      ss_status r = js ''active''))"

definition refresh_label :: "(int \<Rightarrow> jsstring) \<Rightarrow> sessions_page \<Rightarrow> jsstring" where
  "refresh_label loc s =
     (if sp_refresh s > 0 then js ''Auto-refresh '' @ int_str (sp_refresh s) @ js ''s'' else js ''Auto-refresh off'') @
     (case sp_as_of s of None \<Rightarrow> [] | Some t \<Rightarrow> if sp_refresh s > 0 then [32, 0xB7, 32] @ loc t else [])"

section \<open>The selection\<close>

text \<open>A Set, as the list of its values in insertion order.\<close>

definition toggle_select :: "jsstring \<Rightarrow> jsstring list \<Rightarrow> jsstring list" where
  "toggle_select i xs = (if i \<in> set xs then filter (\<lambda>x. x \<noteq> i) xs else xs @ [i])"

definition set_of_rows :: "session_row list \<Rightarrow> jsstring list" where
  "set_of_rows rows = rev (remdups (rev (map ss_id rows)))"

definition toggle_select_all :: "session_row list \<Rightarrow> jsstring list \<Rightarrow> jsstring list" where
  "toggle_select_all rows xs = (if length xs = length rows then [] else set_of_rows rows)"

definition all_checked :: "session_row list \<Rightarrow> jsstring list \<Rightarrow> bool" where
  "all_checked rows xs \<longleftrightarrow> xs \<noteq> [] \<and> length xs = length rows"

definition unselect :: "jsstring list \<Rightarrow> jsstring list \<Rightarrow> jsstring list" where
  "unselect ids xs = filter (\<lambda>x. x \<notin> set ids) xs"

section \<open>Handlers\<close>

datatype sessions_query = SClose "jsstring list" | SExtend jsstring

text \<open>The requests of one await; a fetch rejects only when the network fails, and the page does
  not look at the statuses of the responses.\<close>

fun sessions_http :: "sessions_query \<Rightarrow> http_request list" where
  "sessions_http (SClose ids) = map close_request ids"
| "sessions_http (SExtend i) = [extend_request i]"

type_synonym sessions_reply = "js_error + int list"
type_synonym sessions_act = "(sessions_page, page_out, sessions_query, sessions_reply) act"

definition sessions_adm :: "sessions_query \<Rightarrow> sessions_reply \<Rightarrow> bool" where
  "sessions_adm q r \<longleftrightarrow> (case r of Inl e \<Rightarrow> e = fetch_failed | Inr st \<Rightarrow> length st = length (sessions_http q))"

definition refetch :: "sessions_page \<Rightarrow> sessions_page" where
  "refetch s = s\<lparr>sp_data := ad_effect True () (sp_data s)\<rparr>"

text \<open>\<open>execClose\<close>, followed by what its caller does before the first answer.\<close>

definition exec_close :: "jsstring list \<Rightarrow> (sessions_page \<Rightarrow> sessions_page) \<Rightarrow> sessions_act" where
  "exec_close ids rest = Upd (\<lambda>s. s\<lparr>sp_closing := True\<rparr>) (Upd rest (Await (SClose ids) (\<lambda>r. case r of
      Inl _ \<Rightarrow> Emit (Toast (js ''Failed to close session(s)'') Error) (Upd (\<lambda>s. s\<lparr>sp_closing := False\<rparr>) Done)
    | Inr _ \<Rightarrow> Emit (Toast (if length ids = 1 then js ''Session closed''
            else int_str (int (length ids)) @ js '' sessions closed'') Success)
        (Upd (\<lambda>s. s\<lparr>sp_selected := unselect ids (sp_selected s)\<rparr>)
          (Upd refetch (Upd (\<lambda>s. s\<lparr>sp_closing := False\<rparr>) Done))))))"

definition sessions_confirm :: "sessions_page \<Rightarrow> sessions_act" where
  "sessions_confirm s = (let hide = (\<lambda>s. s\<lparr>sp_confirm := None\<rparr>) in
     case sp_confirm s of None \<Rightarrow> Upd hide Done
     | Some Bulk \<Rightarrow> exec_close (sp_selected s) hide
     | Some (One i) \<Rightarrow> if i = [] then Upd hide Done else exec_close [i] hide)"

definition handle_extend :: "jsstring \<Rightarrow> sessions_act" where
  "handle_extend i = Await (SExtend i) (\<lambda>r. case r of
      Inl _ \<Rightarrow> Emit (Toast (js ''Failed to extend session'') Error) Done
    | Inr _ \<Rightarrow> Emit (Toast (js ''Session extended by 30m'') Success) (Upd refetch Done))"

datatype sessions_event =
    SsSettle nat "(session_row list, js_error) promise"
  | SsTick int
  | SsRefresh
  | SsSetRefresh int
  | SsRange range_value
  | SsSort session_column
  | SsToggle jsstring
  | SsToggleAll
  | SsAskClose jsstring
  | SsAskBulk
  | SsConfirm confirm_action
  | SsExtend jsstring

fun sessions_handler :: "date_reader \<Rightarrow> sessions_event \<Rightarrow> sessions_page \<Rightarrow> sessions_act" where
  "sessions_handler rd (SsSettle i p) s = Upd (\<lambda>s. s\<lparr>sp_data := ad_settle i p (sp_data s)\<rparr>) Done"
| "sessions_handler rd (SsTick now) s = Upd (\<lambda>s. (refetch s)\<lparr>sp_as_of := Some now\<rparr>) Done"
| "sessions_handler rd SsRefresh s = Upd refetch Done"
| "sessions_handler rd (SsSetRefresh n) s = Upd (\<lambda>s. s\<lparr>sp_refresh := n\<rparr>) Done"
| "sessions_handler rd (SsRange v) s = Upd (\<lambda>s. s\<lparr>sp_range := v\<rparr>) Done"
| "sessions_handler rd (SsSort c) s = Upd (\<lambda>s. s\<lparr>sp_sort := sort_toggle c (sp_sort s)\<rparr>) Done"
| "sessions_handler rd (SsToggle i) s = Upd (\<lambda>s. s\<lparr>sp_selected := toggle_select i (sp_selected s)\<rparr>) Done"
| "sessions_handler rd SsToggleAll s = Upd (\<lambda>t. t\<lparr>sp_selected := toggle_select_all (session_rows rd s) (sp_selected t)\<rparr>) Done"
| "sessions_handler rd (SsAskClose i) s = Upd (\<lambda>s. s\<lparr>sp_confirm := Some (if i = js ''__bulk__'' then Bulk else One i)\<rparr>) Done"
| "sessions_handler rd SsAskBulk s = Upd (\<lambda>s. s\<lparr>sp_confirm := Some Bulk\<rparr>) Done"
| "sessions_handler rd (SsConfirm a) s = (if a = ConfirmClick then sessions_confirm s
     else Upd (\<lambda>s. s\<lparr>sp_confirm := None\<rparr>) Done)"
| "sessions_handler rd (SsExtend i) s = handle_extend i"

fun sessions_enabled :: "date_reader \<Rightarrow> sessions_event \<Rightarrow> sessions_page \<Rightarrow> bool" where
  "sessions_enabled rd (SsTick now) s \<longleftrightarrow> 0 < sp_refresh s"
| "sessions_enabled rd (SsSetRefresh n) s \<longleftrightarrow> n \<in> {0, 5, 10, 30}"
| "sessions_enabled rd (SsToggle i) s \<longleftrightarrow> i \<in> ss_id ` set (session_rows rd s)"
| "sessions_enabled rd SsToggleAll s \<longleftrightarrow> session_rows rd s \<noteq> []"
| "sessions_enabled rd (SsAskClose i) s \<longleftrightarrow> (\<exists>r \<in> set (session_rows rd s). ss_id r = i \<and> ss_status r = js ''active'')"
| "sessions_enabled rd (SsExtend i) s \<longleftrightarrow> (\<exists>r \<in> set (session_rows rd s). ss_id r = i \<and> ss_status r = js ''active'')"
| "sessions_enabled rd SsAskBulk s \<longleftrightarrow> sp_selected s \<noteq> []"
| "sessions_enabled rd (SsConfirm a) s \<longleftrightarrow> confirm_enabled (sp_confirm s \<noteq> None) (sp_closing s) a"
| "sessions_enabled rd _ s \<longleftrightarrow> True"

section \<open>Closing sessions\<close>

definition is_close :: "sessions_query \<Rightarrow> bool" where
  "is_close q = (case q of SClose _ \<Rightarrow> True | _ \<Rightarrow> False)"

lemmas sessions_act_defs = exec_close_def sessions_confirm_def handle_extend_def refetch_def is_close_def Let_def

interpretation sessions_busy: busy_flag "sessions_handler rd" "sessions_enabled rd" sessions_adm "sessions_init now" sp_closing
  is_close True for rd now
proof unfold_locales
  show "\<not> sp_closing (sessions_init now)" by (simp add: sessions_init_def)
next
  fix e s
  assume en: "sessions_enabled rd e s"
  show "quiet (sessions_handler rd e s) sp_closing is_close \<or>
    \<not> sp_closing s \<and> acquiring (sessions_handler rd e s) True sp_closing is_close"
  proof (cases e)
    case (SsConfirm a)
    then show ?thesis using en
      by (cases a) (auto simp: sessions_act_defs confirm_enabled_def split: option.split sum.split close_target.split)
  qed (auto simp: sessions_act_defs split: option.split sum.split)
qed

lemma sessions_single_close:
  assumes "sys_reach (sessions_handler rd) (sessions_enabled rd) sessions_adm (mount (sessions_init now)) m"
  shows "in_flight is_close m \<le> 1 \<and> (in_flight is_close m = 1 \<longrightarrow> sp_closing (ui m)) \<and>
    (sp_closing (ui m) \<longrightarrow> tasks m \<noteq> [])"
  using sessions_busy.single_flight [OF assms] by simp

text \<open>What closing reports: whatever statuses the server answers, the page announces success,
  drops the ids from the selection and reads the list again; only a request that never got an
  answer is reported as a failure, and then the selection stays.\<close>

theorem sessions_close_outcomes:
  "run (exec_close ids rest) s [Inr statuses] =
     (refetch ((rest (s\<lparr>sp_closing := True\<rparr>))\<lparr>sp_selected := unselect ids (sp_selected (rest (s\<lparr>sp_closing := True\<rparr>)))\<rparr>)
        \<lparr>sp_closing := False\<rparr>,
      [Toast (if length ids = 1 then js ''Session closed'' else int_str (int (length ids)) @ js '' sessions closed'') Success],
      [SClose ids], True) \<and>
   run (exec_close ids rest) s [Inl e] = ((rest (s\<lparr>sp_closing := True\<rparr>))\<lparr>sp_closing := False\<rparr>,
      [Toast (js ''Failed to close session(s)'') Error], [SClose ids], True)"
  by (simp add: sessions_act_defs)

section \<open>The selection and the rows\<close>

text \<open>The selection is a set, and the header checkbox works as long as the selection is among
  the rows shown: it is checked exactly when every row is selected, and clicking it then selects
  nothing, otherwise everything.\<close>

theorem select_all_laws:
  assumes "distinct xs" "distinct (map ss_id rows)" "set xs \<subseteq> ss_id ` set rows"
  shows "distinct (toggle_select i xs) \<and> distinct (toggle_select_all rows xs) \<and>
    (rows \<noteq> [] \<longrightarrow> (all_checked rows xs \<longleftrightarrow> set xs = ss_id ` set rows) \<and>
       set (toggle_select_all rows xs) = (if all_checked rows xs then {} else ss_id ` set rows)) \<and>
    toggle_select i (toggle_select i xs) = (if i \<in> set xs then filter (\<lambda>x. x \<noteq> i) xs @ [i] else xs)"
proof -
  have c: "length xs = card (set xs)" "length rows = card (ss_id ` set rows)"
    using assms(1,2) distinct_card [of xs] distinct_card [of "map ss_id rows"] by simp_all
  have "length xs = length rows \<longleftrightarrow> set xs = ss_id ` set rows"
    using c card_subset_eq [OF _ assms(3)] by auto
  moreover have "filter (\<lambda>x. x \<noteq> i) xs = xs" if "i \<notin> set xs" using that by (auto simp: filter_id_conv)
  ultimately show ?thesis using assms(1)
    by (auto simp: toggle_select_def toggle_select_all_def all_checked_def set_of_rows_def)
qed

definition demo_session :: "string \<Rightarrow> session_row" where
  "demo_session i = \<lparr>ss_id = js i, ss_tenant_id = [], ss_model = [], ss_status = js ''active'', ss_created_at = js ''t'',
     ss_expires_at = [], ss_token_count = None\<rparr>"

theorem select_all_laws_witness:
  "set (toggle_select_all [demo_session ''a'', demo_session ''b''] [js ''a'']) = {js ''a'', js ''b''}"
proof -
  have d: "distinct [js ''a'']" "distinct (map ss_id [demo_session ''a'', demo_session ''b''])"
    "set [js ''a''] \<subseteq> ss_id ` set [demo_session ''a'', demo_session ''b'']"
    by (simp_all add: demo_session_def)
  show ?thesis using select_all_laws [OF d, of "js ''a''"] by (simp add: demo_session_def all_checked_def)
qed

text \<open>A selection survives a change of the range: sessions that are no longer shown stay selected
  and are closed with the others.\<close>

lemma bulk_closes_hidden:
  assumes "rg_mode v \<noteq> js ''all''" "rd (ss_created_at r) = None" "ss_id r \<in> set (sp_selected s)"
  shows "r \<notin> set (session_rows rd (s\<lparr>sp_range := v\<rparr>)) \<and>
    (\<exists>ids. snd (snd (advance (sessions_confirm (s\<lparr>sp_range := v, sp_confirm := Some Bulk\<rparr>)) s)) \<noteq> [] \<and>
       fst (hd (snd (snd (advance (sessions_confirm (s\<lparr>sp_range := v, sp_confirm := Some Bulk\<rparr>)) s)))) = SClose ids \<and>
       ss_id r \<in> set ids)"
  using assms by (simp add: session_rows_def sessions_in_range_def in_range_def time_in_range_def sort_rows_def sessions_act_defs
    set_mset_mset [symmetric] del: set_mset_mset split: option.split)

end
