(* ===== verification/TenantForm.thy ===== *)
theory TenantForm
  imports PageBase Editors
begin

text \<open>
  ui/src/pages/Tenants/TenantForm.tsx: the form that creates or edits a tenant. \<open>tslug\<close> is the
  route's slug (None on the creation route), \<open>lower\<close> String.prototype.toLowerCase. Server errors
  are kept as the JSON values the form puts on display, since rendering them can throw.
\<close>

section \<open>State\<close>

record form_data =
  fd_name :: jsstring
  fd_slug :: jsstring
  fd_auth_header :: jsstring
  fd_dictionaries :: "dictionary_item list"
  fd_pii_enabled :: bool
  fd_pii_action :: jsstring
  fd_pii_rules :: "pii_rule list"
  fd_retention :: retention_mode

record form_errors =
  fe_name :: "json option"
  fe_slug :: "json option"
  fe_server :: "json option"

record tenant_form =
  tf_form :: form_data
  tf_errors :: form_errors
  tf_submitting :: bool
  tf_loading :: bool

definition no_errors :: form_errors where
  "no_errors = \<lparr>fe_name = None, fe_slug = None, fe_server = None\<rparr>"

definition empty_pii_rule :: pii_rule where
  "empty_pii_rule = \<lparr>rule_label = [], rule_type = js ''regex'', rule_pattern = [], rule_action = js ''block''\<rparr>"

definition empty_form :: form_data where
  "empty_form = \<lparr>fd_name = [], fd_slug = [], fd_auth_header = js ''Authorization'', fd_dictionaries = [],
     fd_pii_enabled = False, fd_pii_action = js ''mask'', fd_pii_rules = [], fd_retention = RetFull\<rparr>"

definition tenant_form_init :: "jsstring option \<Rightarrow> tenant_form" where
  "tenant_form_init tslug = \<lparr>tf_form = empty_form, tf_errors = no_errors, tf_submitting = False,
     tf_loading = truthy_str tslug\<rparr>"

definition form_of :: "tenant_response \<Rightarrow> form_data" where
  "form_of t = \<lparr>fd_name = tr_name t, fd_slug = tr_slug t, fd_auth_header = tr_auth_header t,
     fd_dictionaries = nullish (tr_dictionaries t) [],
     fd_pii_enabled = (case tr_pii_config t of None \<Rightarrow> False | Some c \<Rightarrow> pii_enabled c),
     fd_pii_action = (case tr_pii_config t of None \<Rightarrow> js ''mask'' | Some c \<Rightarrow> pii_default_action c),
     fd_pii_rules = (case tr_pii_config t of None \<Rightarrow> [] | Some c \<Rightarrow> pii_rules c),
     fd_retention = nullish (tr_retention_mode t) RetFull\<rparr>"

section \<open>Validation\<close>

text \<open>\<open>/^[a-z0-9]+(-[a-z0-9]+)*$/\<close>: the first run of letters and digits, then groups of a hyphen and
  a run. No match needs backtracking, since a hyphen is in no run.\<close>

definition slug_char :: "unit16 \<Rightarrow> bool" where
  "slug_char c \<longleftrightarrow> (97 \<le> c \<and> c \<le> 122) \<or> (48 \<le> c \<and> c \<le> 57)"

function slug_groups :: "jsstring \<Rightarrow> bool" where
  "slug_groups [] = True"
| "slug_groups (c # cs) = (c = 45 \<and> takeWhile slug_char cs \<noteq> [] \<and> slug_groups (dropWhile slug_char cs))"
  by pat_completeness auto
termination
  by (relation "measure length") (auto simp: le_imp_less_Suc length_dropWhile_le)

definition slug_matches :: "jsstring \<Rightarrow> bool" where
  "slug_matches s \<longleftrightarrow> takeWhile slug_char s \<noteq> [] \<and> slug_groups (dropWhile slug_char s)"

definition form_validate :: "bool \<Rightarrow> form_data \<Rightarrow> form_errors" where
  "form_validate is_edit f =
    (let e = (if trim (fd_name f) = [] then no_errors\<lparr>fe_name := Some (JStr (js ''Name is required''))\<rparr> else no_errors) in
     if is_edit then e
     else if trim (fd_slug f) = [] then e\<lparr>fe_slug := Some (JStr (js ''Slug is required''))\<rparr>
     else if \<not> slug_matches (fd_slug f)
       then e\<lparr>fe_slug := Some (JStr (js ''Slug must be lowercase alphanumeric with hyphens''))\<rparr>
     else e)"

section \<open>Requests\<close>

datatype tenant_form_query =
    TFLoad jsstring
  | TFUpdate jsstring update_tenant_request
  | TFCreate create_tenant_request

type_synonym tenant_form_reply = "js_error + tenant_response"
type_synonym tenant_form_act = "(tenant_form, page_out, tenant_form_query, tenant_form_reply) act"

definition tenant_form_http :: "browser \<Rightarrow> tenant_form_query \<Rightarrow> request" where
  "tenant_form_http b q = (case q of TFLoad s \<Rightarrow> get_tenant b s | TFUpdate s r \<Rightarrow> update_tenant b s r
     | TFCreate r \<Rightarrow> Inr (create_tenant b r))"

definition tenant_form_adm :: "browser \<Rightarrow> tenant_form_query \<Rightarrow> tenant_form_reply \<Rightarrow> bool" where
  "tenant_form_adm b q r \<longleftrightarrow> (\<forall>e. tenant_form_http b q = Inl e \<longrightarrow> r = Inl e)"

definition pii_of_form :: "form_data \<Rightarrow> pii_config option" where
  "pii_of_form f = (if fd_pii_enabled f \<or> fd_pii_rules f \<noteq> []
     then Some \<lparr>pii_enabled = fd_pii_enabled f, pii_default_action = fd_pii_action f, pii_rules = fd_pii_rules f\<rparr>
     else None)"

definition submit_query :: "jsstring option \<Rightarrow> form_data \<Rightarrow> tenant_form_query" where
  "submit_query tslug f = (if truthy_str tslug
     then TFUpdate (the tslug) \<lparr>ut_name = fd_name f, ut_auth_header = or_undefined (fd_auth_header f),
       ut_dictionaries = Some (fd_dictionaries f), ut_pii_config = pii_of_form f, ut_retention_mode = Some (fd_retention f)\<rparr>
     else TFCreate \<lparr>ct_slug = fd_slug f, ct_name = fd_name f, ct_auth_header = or_undefined (fd_auth_header f),
       ct_dictionaries = Some (fd_dictionaries f), ct_pii_config = pii_of_form f, ct_retention_mode = Some (fd_retention f)\<rparr>)"

section \<open>Server errors\<close>

text \<open>\<open>d.field.toLowerCase()\<close>: anything but a string throws.\<close>

definition detail_field :: "(jsstring \<Rightarrow> jsstring) \<Rightarrow> json \<Rightarrow> js_error + jsstring" where
  "detail_field lower d = (case get_prop (js ''field'') d of
      Inl e \<Rightarrow> Inl e
    | Inr (Some (JStr s)) \<Rightarrow> Inr (lower s)
    | Inr _ \<Rightarrow> Inl (TypeErr (js ''d.field.toLowerCase is not a function'')))"

fun detail_errors :: "(jsstring \<Rightarrow> jsstring) \<Rightarrow> json list \<Rightarrow> form_errors \<Rightarrow> js_error + form_errors" where
  "detail_errors lower [] e = Inr e"
| "detail_errors lower (d # ds) e = (case detail_field lower d of Inl x \<Rightarrow> Inl x
     | Inr field \<Rightarrow> (case get_prop (js ''message'') d of Inl x \<Rightarrow> Inl x
         | Inr msg \<Rightarrow>
             let e1 = (if field = js ''name'' then e\<lparr>fe_name := msg\<rparr> else e);
                 e2 = (if field = js ''slug'' then e1\<lparr>fe_slug := msg\<rparr> else e1)
             in detail_errors lower ds e2))"

text \<open>\<open>for (const d of details)\<close>; details is truthy. The pieces of a string have no field.\<close>

definition iterate_details :: "json \<Rightarrow> js_error + json list" where
  "iterate_details v = (case v of JArr xs \<Rightarrow> Inr xs | JStr s \<Rightarrow> Inr (map (\<lambda>c. JStr [c]) s)
     | _ \<Rightarrow> Inl (TypeErr (js ''details is not iterable'')))"

text \<open>The catch block: the errors it sets, or the exception it throws itself.\<close>

definition server_errors :: "(jsstring \<Rightarrow> jsstring) \<Rightarrow> js_error \<Rightarrow> js_error + form_errors" where
  "server_errors lower err = (case err of
      ApiError code b \<Rightarrow>
        if \<not> truthy_json b then Inr (no_errors\<lparr>fe_server := Some (JStr (js ''Failed to save tenant. Please try again.''))\<rparr>)
        else if code = 409 then Inr (no_errors\<lparr>fe_server := Some (JStr (js ''A tenant with this slug already exists.''))\<rparr>)
        else (case get_prop (js ''details'') b of
            Inl e \<Rightarrow> Inl e
          | Inr d \<Rightarrow>
              if (case d of None \<Rightarrow> False | Some x \<Rightarrow> truthy_json x)
              then (case iterate_details (the d) of Inl e \<Rightarrow> Inl e | Inr ds \<Rightarrow> detail_errors lower ds no_errors)
              else (case get_prop (js ''error'') b of Inl e \<Rightarrow> Inl e
                  | Inr m \<Rightarrow> Inr (no_errors\<lparr>fe_server := m\<rparr>)))
    | _ \<Rightarrow> Inr (no_errors\<lparr>fe_server := Some (JStr (js ''Failed to save tenant. Please try again.''))\<rparr>))"

text \<open>React's rendering of a child expression: an object throws.\<close>

fun render_child :: "json \<Rightarrow> js_error + jsstring" and render_children :: "json list \<Rightarrow> js_error + jsstring" where
  "render_child (JStr s) = Inr s"
| "render_child (JNum n) = Inr (num_str n)"
| "render_child (JBool b) = Inr []"
| "render_child JNull = Inr []"
| "render_child (JObj kvs) = Inl (GenErr (js ''Objects are not valid as a React child''))"
| "render_child (JArr xs) = render_children xs"
| "render_children [] = Inr []"
| "render_children (x # xs) = (case render_child x of Inl e \<Rightarrow> Inl e
     | Inr s \<Rightarrow> map_sum id ((@) s) (render_children xs))"

text \<open>\<open>errors.server && <div>{errors.server}</div>\<close>\<close>

definition error_banner :: "form_errors \<Rightarrow> js_error + jsstring option" where
  "error_banner e = (case fe_server e of None \<Rightarrow> Inr None
     | Some v \<Rightarrow> if \<not> truthy_json v then Inr None else map_sum id Some (render_child v))"

section \<open>Handlers\<close>

definition tenant_form_load :: "jsstring option \<Rightarrow> tenant_form_act" where
  "tenant_form_load tslug = (if \<not> truthy_str tslug then Done
     else Upd (\<lambda>s. s\<lparr>tf_loading := True\<rparr>) (Await (TFLoad (the tslug)) (\<lambda>r.
       and_then (case r of Inl _ \<Rightarrow> Emit (Navigate (js ''/tenants'')) Done
                   | Inr t \<Rightarrow> Upd (\<lambda>s. s\<lparr>tf_form := form_of t\<rparr>) Done)
         (Upd (\<lambda>s. s\<lparr>tf_loading := False\<rparr>) Done))))"

definition tenant_path :: "jsstring \<Rightarrow> jsstring" where
  "tenant_path s = js ''/tenants/'' @ s"

definition handle_tenant_submit :: "(jsstring \<Rightarrow> jsstring) \<Rightarrow> jsstring option \<Rightarrow> tenant_form \<Rightarrow> tenant_form_act" where
  "handle_tenant_submit lower tslug s =
    (let e = form_validate (truthy_str tslug) (tf_form s); fin = Upd (\<lambda>s. s\<lparr>tf_submitting := False\<rparr>) Done in
     Upd (\<lambda>s. s\<lparr>tf_errors := e\<rparr>) (if e \<noteq> no_errors then Done
       else Upd (\<lambda>s. s\<lparr>tf_submitting := True\<rparr>) (Upd (\<lambda>s. s\<lparr>tf_errors := no_errors\<rparr>)
         (Await (submit_query tslug (tf_form s)) (\<lambda>r. case r of
             Inr t \<Rightarrow> if truthy_str tslug
               then Emit (Toast (js ''Tenant updated'') Success) (Emit (Navigate (tenant_path (the tslug))) fin)
               else Emit (Toast (js ''Tenant '' @ quoted (tr_slug t) @ js '' created'') Success)
                 (Emit (Navigate (tenant_path (tr_slug t))) fin)
           | Inl err \<Rightarrow> (case server_errors lower err of
               Inl _ \<Rightarrow> fin
             | Inr es \<Rightarrow> Upd (\<lambda>s. s\<lparr>tf_errors := es\<rparr>) fin))))))"

definition update_pii_rule :: "nat \<Rightarrow> (pii_rule \<Rightarrow> pii_rule) \<Rightarrow> pii_rule list \<Rightarrow> pii_rule list" where
  "update_pii_rule i f rs = map_index i f rs"

definition add_pii_rule :: "pii_rule list \<Rightarrow> pii_rule list" where
  "add_pii_rule rs = rs @ [empty_pii_rule]"

definition remove_pii_rule :: "nat \<Rightarrow> pii_rule list \<Rightarrow> pii_rule list" where
  "remove_pii_rule i rs = filter_index_not i rs"

datatype form_edit =
    SetName jsstring
  | SetSlug jsstring
  | SetAuth jsstring
  | SetRetention retention_mode
  | SetPii bool
  | SetAction jsstring
  | RuleLabel nat jsstring
  | RuleType nat jsstring
  | RulePattern nat jsstring
  | RuleAction nat jsstring
  | AddRule
  | RemoveRule nat

fun apply_form_edit :: "form_edit \<Rightarrow> form_data \<Rightarrow> form_data" where
  "apply_form_edit (SetName v) f = f\<lparr>fd_name := v\<rparr>"
| "apply_form_edit (SetSlug v) f = f\<lparr>fd_slug := v\<rparr>"
| "apply_form_edit (SetAuth v) f = f\<lparr>fd_auth_header := v\<rparr>"
| "apply_form_edit (SetRetention v) f = f\<lparr>fd_retention := v\<rparr>"
| "apply_form_edit (SetPii v) f = f\<lparr>fd_pii_enabled := v\<rparr>"
| "apply_form_edit (SetAction v) f = f\<lparr>fd_pii_action := v\<rparr>"
| "apply_form_edit (RuleLabel i v) f = f\<lparr>fd_pii_rules := update_pii_rule i (\<lambda>r. r\<lparr>rule_label := v\<rparr>) (fd_pii_rules f)\<rparr>"
| "apply_form_edit (RuleType i v) f = f\<lparr>fd_pii_rules := update_pii_rule i (\<lambda>r. r\<lparr>rule_type := v\<rparr>) (fd_pii_rules f)\<rparr>"
| "apply_form_edit (RulePattern i v) f = f\<lparr>fd_pii_rules := update_pii_rule i (\<lambda>r. r\<lparr>rule_pattern := v\<rparr>) (fd_pii_rules f)\<rparr>"
| "apply_form_edit (RuleAction i v) f = f\<lparr>fd_pii_rules := update_pii_rule i (\<lambda>r. r\<lparr>rule_action := v\<rparr>) (fd_pii_rules f)\<rparr>"
| "apply_form_edit AddRule f = f\<lparr>fd_pii_rules := add_pii_rule (fd_pii_rules f)\<rparr>"
| "apply_form_edit (RemoveRule i) f = f\<lparr>fd_pii_rules := remove_pii_rule i (fd_pii_rules f)\<rparr>"

datatype tenant_form_event = TFMount | TFEdit form_edit | TFSubmit | TFCancel

fun tenant_form_handler :: "(jsstring \<Rightarrow> jsstring) \<Rightarrow> jsstring option \<Rightarrow> tenant_form_event \<Rightarrow> tenant_form \<Rightarrow> tenant_form_act" where
  "tenant_form_handler lower tslug TFMount s = tenant_form_load tslug"
| "tenant_form_handler lower tslug (TFEdit e) s = Upd (\<lambda>s. s\<lparr>tf_form := apply_form_edit e (tf_form s)\<rparr>) Done"
| "tenant_form_handler lower tslug TFSubmit s = handle_tenant_submit lower tslug s"
| "tenant_form_handler lower tslug TFCancel s = Emit (Navigate (js ''/tenants'')) Done"

text \<open>Nothing but the spinner while loading; the slug has no input when editing.\<close>

fun tenant_form_enabled :: "jsstring option \<Rightarrow> tenant_form_event \<Rightarrow> tenant_form \<Rightarrow> bool" where
  "tenant_form_enabled tslug TFMount s \<longleftrightarrow> True"
| "tenant_form_enabled tslug TFSubmit s \<longleftrightarrow> \<not> tf_loading s \<and> \<not> tf_submitting s"
| "tenant_form_enabled tslug (TFEdit (SetSlug v)) s \<longleftrightarrow> \<not> tf_loading s \<and> \<not> truthy_str tslug"
| "tenant_form_enabled tslug _ s \<longleftrightarrow> \<not> tf_loading s"

section \<open>The slug\<close>

definition slug_parts :: "jsstring list \<Rightarrow> bool" where
  "slug_parts ps \<longleftrightarrow> (\<forall>p \<in> set ps. p \<noteq> [] \<and> (\<forall>c \<in> set p. slug_char c))"

lemma hyphen_no_slug_char [simp]: "\<not> slug_char 45"
  by (simp add: slug_char_def)

lemma takeWhile_run:
  "\<forall>c \<in> set p. P c \<Longrightarrow> r = [] \<or> \<not> P (hd r) \<Longrightarrow> takeWhile P (p @ r) = p \<and> dropWhile P (p @ r) = r"
  by (induction p) (auto simp: takeWhile_eq_Nil_iff dropWhile_hd_id)

lemma hyphened_head: "concat (map (\<lambda>q. 45 # q) ps) = [] \<or> \<not> slug_char (hd (concat (map (\<lambda>q. 45 # q) ps)))"
  by (cases ps) simp_all

lemma slug_groups_iff: "slug_groups s \<longleftrightarrow> (\<exists>ps. slug_parts ps \<and> s = concat (map (\<lambda>q. 45 # q) ps))"
proof (induction s rule: slug_groups.induct)
  case 1
  then show ?case by (auto simp: slug_parts_def intro: exI [of _ "[]"])
next
  case (2 c cs)
  show ?case
  proof
    assume g: "slug_groups (c # cs)"
    then obtain ps where ps: "slug_parts ps" "dropWhile slug_char cs = concat (map (\<lambda>q. 45 # q) ps)"
      using 2 by auto
    have "slug_parts (takeWhile slug_char cs # ps)"
      using ps(1) g by (auto simp: slug_parts_def dest: set_takeWhileD)
    moreover have "c # cs = concat (map (\<lambda>q. 45 # q) (takeWhile slug_char cs # ps))"
      using g by (simp flip: ps(2))
    ultimately show "\<exists>ps. slug_parts ps \<and> c # cs = concat (map (\<lambda>q. 45 # q) ps)" by blast
  next
    assume "\<exists>ps. slug_parts ps \<and> c # cs = concat (map (\<lambda>q. 45 # q) ps)"
    then obtain ps where ps: "slug_parts ps" "c # cs = concat (map (\<lambda>q. 45 # q) ps)" by blast
    then obtain p qs where p: "ps = p # qs" "slug_parts qs" "p \<noteq> []" "\<forall>c \<in> set p. slug_char c"
      by (cases ps) (auto simp: slug_parts_def)
    have c: "c = 45" "cs = p @ concat (map (\<lambda>q. 45 # q) qs)" using ps(2) p(1) by simp_all
    have "takeWhile slug_char cs = p" "dropWhile slug_char cs = concat (map (\<lambda>q. 45 # q) qs)"
      using takeWhile_run [OF p(4) hyphened_head [of qs]] c(2) by simp_all
    then show "slug_groups (c # cs)" using 2 c(1) p(2,3) by auto
  qed
qed

lemma join_hyphens: "join_with [45] (p # ps) = p @ concat (map (\<lambda>q. 45 # q) ps)"
  by (induction ps arbitrary: p) auto

lemma slug_char_plain: "slug_char c \<Longrightarrow> c \<in> set uri_unreserved"
proof -
  assume c: "slug_char c"
  have "list_all (\<lambda>n. word_of_nat n \<in> set uri_unreserved) ([97..<123] @ [48..<58])" by code_simp
  moreover have "97 \<le> unat c \<and> unat c < 123 \<or> 48 \<le> unat c \<and> unat c < 58"
    using c unfolding slug_char_def by (auto simp: word_le_nat_alt)
  then have "unat c \<in> set ([97..<123] @ [48..<58])" by (simp only: set_append set_upt Un_iff atLeastLessThan_iff)
  ultimately have "word_of_nat (unat c) \<in> set uri_unreserved" unfolding list_all_iff by blast
  then show ?thesis by simp
qed

lemma slug_groups_chars: "slug_groups s \<Longrightarrow> list_all (\<lambda>u. u \<in> set uri_unreserved) s"
proof (induction s rule: slug_groups.induct)
  case (2 c cs)
  have h: "(45 :: unit16) \<in> set uri_unreserved" by code_simp
  have "list_all (\<lambda>u. u \<in> set uri_unreserved) (takeWhile slug_char cs)"
    using slug_char_plain by (auto simp: list_all_iff dest: set_takeWhileD)
  moreover have "cs = takeWhile slug_char cs @ dropWhile slug_char cs" by simp
  ultimately have "list_all (\<lambda>u. u \<in> set uri_unreserved) cs" using 2 by (metis list_all_append slug_groups.simps(2))
  then show ?case using 2 h by simp
qed simp

lemma slug_matches_trim: "slug_matches s \<Longrightarrow> trim s \<noteq> []"
proof -
  assume m: "slug_matches s"
  then obtain c cs where s: "s = c # cs" "slug_char c"
    by (cases s) (auto simp: slug_matches_def split: if_splits)
  have "\<not> is_ws c"
  proof
    assume "is_ws c"
    then have "c \<in> set (filter slug_char ws_units)" using s(2) by (simp add: is_ws_def)
    moreover have "filter slug_char ws_units = []" by code_simp
    ultimately show False by simp
  qed
  then show "trim s \<noteq> []" using s(1) by (auto simp: trim_def dropWhile_eq_Nil_conv)
qed

text \<open>C39. The form's pattern accepts exactly the lowercase words joined by single hyphens, and an
  accepted slug is its own URL segment: no request about the tenant ever needs to encode it.\<close>

theorem tenant_slug_pattern:
  "(slug_matches s \<longleftrightarrow> (\<exists>ps. ps \<noteq> [] \<and> (\<forall>p \<in> set ps. p \<noteq> [] \<and> (\<forall>c \<in> set p. slug_char c)) \<and> s = join_with [45] ps)) \<and>
   (slug_matches s \<longrightarrow> encode_uri_component s = Some s \<and> trim s \<noteq> [])"
proof
  show "slug_matches s \<longleftrightarrow> (\<exists>ps. ps \<noteq> [] \<and> (\<forall>p \<in> set ps. p \<noteq> [] \<and> (\<forall>c \<in> set p. slug_char c)) \<and> s = join_with [45] ps)"
  proof
    assume m: "slug_matches s"
    then obtain ps where ps: "slug_parts ps" "dropWhile slug_char s = concat (map (\<lambda>q. 45 # q) ps)"
      by (auto simp: slug_matches_def slug_groups_iff)
    have "s = join_with [45] (takeWhile slug_char s # ps)" by (simp add: join_hyphens flip: ps(2))
    moreover have "slug_parts (takeWhile slug_char s # ps)"
      using m ps(1) by (auto simp: slug_parts_def slug_matches_def dest: set_takeWhileD)
    ultimately show "\<exists>ps. ps \<noteq> [] \<and> (\<forall>p \<in> set ps. p \<noteq> [] \<and> (\<forall>c \<in> set p. slug_char c)) \<and> s = join_with [45] ps"
      unfolding slug_parts_def by blast
  next
    assume "\<exists>ps. ps \<noteq> [] \<and> (\<forall>p \<in> set ps. p \<noteq> [] \<and> (\<forall>c \<in> set p. slug_char c)) \<and> s = join_with [45] ps"
    then obtain ps where ps: "ps \<noteq> []" "slug_parts ps" "s = join_with [45] ps" by (auto simp: slug_parts_def)
    then obtain p qs where p: "ps = p # qs" "p \<noteq> []" "\<forall>c \<in> set p. slug_char c" "slug_parts qs"
      by (cases ps) (auto simp: slug_parts_def)
    have s: "s = p @ concat (map (\<lambda>q. 45 # q) qs)" using ps(3) p(1) join_hyphens by simp
    then show "slug_matches s"
      using takeWhile_run [OF p(3) hyphened_head [of qs]] p(2,4) by (auto simp: slug_matches_def slug_groups_iff)
  qed
next
  show "slug_matches s \<longrightarrow> encode_uri_component s = Some s \<and> trim s \<noteq> []"
  proof
    assume m: "slug_matches s"
    have "list_all (\<lambda>u. u \<in> set uri_unreserved) (takeWhile slug_char s)"
      using slug_char_plain by (auto simp: list_all_iff dest: set_takeWhileD)
    moreover have "list_all (\<lambda>u. u \<in> set uri_unreserved) (dropWhile slug_char s)"
      using m slug_groups_chars by (simp add: slug_matches_def)
    ultimately have "list_all (\<lambda>u. u \<in> set uri_unreserved) s" by (metis list_all_append takeWhile_dropWhile_id)
    then have e: "encode_uri_component s = Some s" by (rule encode_js_plain)
    have "trim s \<noteq> []" using m by (rule slug_matches_trim)
    with e show "encode_uri_component s = Some s \<and> trim s \<noteq> []" by blast
  qed
qed

theorem tenant_slug_pattern_witness:
  "slug_matches (js ''my-tenant'') \<and> \<not> slug_matches (js ''my--tenant'') \<and>
   encode_uri_component (js ''my-tenant'') = Some (js ''my-tenant'')"
proof -
  have m: "slug_matches (js ''my-tenant'')" "\<not> slug_matches (js ''my--tenant'')" by code_simp+
  then show ?thesis using conjunct2 [OF tenant_slug_pattern, of "js ''my-tenant''"] by blast
qed

section \<open>Submitting\<close>

lemma form_validate_ok:
  "form_validate is_edit f = no_errors \<longleftrightarrow> trim (fd_name f) \<noteq> [] \<and> (is_edit \<or> slug_matches (fd_slug f))"
  using slug_matches_trim [of "fd_slug f"] by (auto simp: form_validate_def no_errors_def Let_def)



text \<open>C11. Editing a tenant without touching the form sends back what was loaded: its name, its
  dictionaries, its retention mode and its PII configuration, except that a configuration that is
  off and without rules is not sent (its default action is lost).\<close>

theorem tenant_edit_round_trip:
  assumes "tslug = Some (tr_slug t)" "tr_slug t \<noteq> []"
  shows "submit_query tslug (tf_form (fst (run (tenant_form_load tslug) s [Inr t]))) =
    TFUpdate (tr_slug t) \<lparr>ut_name = tr_name t, ut_auth_header = or_undefined (tr_auth_header t),
      ut_dictionaries = Some (nullish (tr_dictionaries t) []),
      ut_pii_config = (case tr_pii_config t of None \<Rightarrow> None
        | Some c \<Rightarrow> if pii_enabled c \<or> pii_rules c \<noteq> [] then Some c else None),
      ut_retention_mode = Some (nullish (tr_retention_mode t) RetFull)\<rparr> \<and>
    \<not> tf_loading (fst (run (tenant_form_load tslug) s [Inr t]))"
  using assms by (auto simp: tenant_form_load_def form_of_def submit_query_def pii_of_form_def split: option.split)

definition demo_tenant :: tenant_response where
  "demo_tenant = \<lparr>tr_slug = js ''acme'', tr_name = js ''Acme'', tr_auth_header = [], tr_dictionaries = None,
     tr_pii_config = Some \<lparr>pii_enabled = False, pii_default_action = js ''block'', pii_rules = []\<rparr>,
     tr_retention_mode = None, tr_created_at = [], tr_updated_at = []\<rparr>"

theorem tenant_edit_round_trip_witness:
  "\<exists>r. submit_query (Some (js ''acme'')) (tf_form (fst (run (tenant_form_load (Some (js ''acme'')))
     (tenant_form_init None) [Inr demo_tenant]))) = TFUpdate (js ''acme'') r \<and> ut_pii_config r = None"
  using tenant_edit_round_trip [of "Some (js ''acme'')" demo_tenant "tenant_form_init None"]
  by (simp add: demo_tenant_def)

section \<open>Server errors\<close>

definition field_detail :: "jsstring \<times> jsstring \<Rightarrow> json" where
  "field_detail d = JObj [(js ''field'', JStr (fst d)), (js ''message'', JStr (snd d))]"

text \<open>The last message for a field.\<close>

definition last_message :: "jsstring \<Rightarrow> (jsstring \<times> jsstring) list \<Rightarrow> json option" where
  "last_message f ds = map_option JStr (map_of (rev ds) f)"

lemma get_field_detail [simp]:
  "get_prop (js ''field'') (field_detail d) = Inr (Some (JStr (fst d)))"
  "get_prop (js ''message'') (field_detail d) = Inr (Some (JStr (snd d)))"
  by (simp_all add: field_detail_def js_def)

lemma detail_errors_fields:
  "detail_errors lower (map field_detail ds) e =
     Inr (e\<lparr>fe_name := (case last_message (js ''name'') (map (map_prod lower id) ds) of None \<Rightarrow> fe_name e | Some m \<Rightarrow> Some m),
            fe_slug := (case last_message (js ''slug'') (map (map_prod lower id) ds) of None \<Rightarrow> fe_slug e | Some m \<Rightarrow> Some m)\<rparr>)"
proof (induction ds arbitrary: e)
  case (Cons d ds)
  have k: "js ''name'' \<noteq> js ''slug''" by code_simp
  show ?case using Cons.IH k
    by (cases d) (auto simp: detail_field_def last_message_def map_add_def Let_def rev_map split: option.split)
qed (simp add: last_message_def)

text \<open>How the form reports a refused request: a conflict names the slug, a list of field details
  puts the last message of each known field next to it (names compared in lower case), anything
  but an API error gives the generic text; and the gateway's own error envelope, whose error is an
  object, is put on display as it is, which makes React throw in the next render.\<close>

theorem tenant_form_server_errors:
  "(truthy_json b \<longrightarrow> server_errors lower (ApiError 409 b) =
      Inr (no_errors\<lparr>fe_server := Some (JStr (js ''A tenant with this slug already exists.''))\<rparr>)) \<and>
   (code \<noteq> 409 \<longrightarrow> server_errors lower (ApiError code (JObj [(js ''details'', JArr (map field_detail ds))])) =
      Inr \<lparr>fe_name = last_message (js ''name'') (map (map_prod lower id) ds),
           fe_slug = last_message (js ''slug'') (map (map_prod lower id) ds), fe_server = None\<rparr>) \<and>
   (code \<noteq> 409 \<longrightarrow> (\<exists>e. server_errors lower (ApiError code (JObj [(js ''data'', JNull), (js ''error'', JObj kvs)])) = Inr e \<and>
      (\<exists>x. error_banner e = Inl x))) \<and>
   (\<forall>e \<in> {UnauthorizedError, NotFoundError u, TypeErr u, SyntaxErr u, UriErr, GenErr u}. server_errors lower e =
      Inr (no_errors\<lparr>fe_server := Some (JStr (js ''Failed to save tenant. Please try again.''))\<rparr>))"
proof -
  have k: "js ''details'' \<noteq> js ''error''" "js ''details'' \<noteq> js ''data''" "js ''error'' \<noteq> js ''data''" by code_simp+
  show ?thesis using k
    by (auto simp: server_errors_def detail_errors_fields iterate_details_def error_banner_def no_errors_def split: option.split)
qed

theorem tenant_form_server_errors_witness:
  "server_errors id (ApiError 400 (JObj [(js ''details'', JArr (map field_detail [(js ''slug'', js ''taken'')]))])) =
   Inr \<lparr>fe_name = None, fe_slug = Some (JStr (js ''taken'')), fe_server = None\<rparr>"
proof -
  have k: "js ''name'' \<noteq> js ''slug''" by code_simp
  show ?thesis
    using tenant_form_server_errors [of JNull id 400 "[(js ''slug'', js ''taken'')]" "[]" "[]"] k
    by (simp add: last_message_def)
qed

section \<open>One request at a time\<close>

definition is_save :: "tenant_form_query \<Rightarrow> bool" where
  "is_save q = (case q of TFLoad _ \<Rightarrow> False | _ \<Rightarrow> True)"

lemma is_save_submit: "is_save (submit_query tslug f)"
  by (simp add: is_save_def submit_query_def)

interpretation tenant_form_busy: busy_flag "tenant_form_handler lower tslug" "tenant_form_enabled tslug"
  "tenant_form_adm b" "tenant_form_init tslug" tf_submitting is_save True for lower tslug b
proof unfold_locales
  show "\<not> tf_submitting (tenant_form_init tslug)" by (simp add: tenant_form_init_def)
next
  fix e s
  assume en: "tenant_form_enabled tslug e s"
  show "quiet (tenant_form_handler lower tslug e s) tf_submitting is_save \<or>
    \<not> tf_submitting s \<and> acquiring (tenant_form_handler lower tslug e s) True tf_submitting is_save"
  proof (cases e)
    case TFSubmit
    then show ?thesis using en by (auto simp: handle_tenant_submit_def Let_def split: sum.split)
  qed (auto simp: tenant_form_load_def is_save_def split: sum.split)
qed

lemma tenant_form_single_save:
  assumes "sys_reach (tenant_form_handler lower tslug) (tenant_form_enabled tslug) (tenant_form_adm b)
     (mount (tenant_form_init tslug)) m"
  shows "in_flight is_save m \<le> 1 \<and> (in_flight is_save m = 1 \<longrightarrow> tf_submitting (ui m)) \<and>
    (tf_submitting (ui m) \<longrightarrow> tasks m \<noteq> [])"
  using tenant_form_busy.single_flight [OF assms] by simp

interpretation pii_editor: indexed_editor update_pii_rule remove_pii_rule
  by unfold_locales (simp_all add: update_pii_rule_def remove_pii_rule_def map_index_list_update
      map_index_out filter_index_not_eq)

end
