(* ===== verification/TenantDetail.thy ===== *)
theory TenantDetail
  imports PageBase Format
begin

text \<open>
  ui/src/pages/Tenants/TenantDetail.tsx and ui/src/components/DictionaryModal.tsx: one tenant with
  its policies, compliance packs and recent traffic. \<open>tslug\<close> is the route's slug. The effect of
  the page starts two requests; each is an event of its own here, so that their answers come in
  any order.
\<close>

section \<open>State\<close>

datatype detail_tab = Overview | Policies | Compliance | Activity

record activity_item =
  ac_id :: jsstring
  ac_model :: jsstring
  ac_status :: jsstring
  ac_created_at :: jsstring

record tenant_detail =
  td_tenant :: "tenant_response option"
  td_loading :: bool
  td_not_found :: bool
  td_tab :: detail_tab
  td_deleting :: bool
  td_confirm :: bool
  td_dict :: "dictionary_item option"
  td_applying :: "jsstring option"
  td_report_pack :: "jsstring option"
  td_report :: "compliance_report option"
  td_report_loading :: bool
  td_activity :: "activity_item list"

definition tenant_detail_init :: tenant_detail where
  "tenant_detail_init = \<lparr>td_tenant = None, td_loading = True, td_not_found = False, td_tab = Overview,
     td_deleting = False, td_confirm = False, td_dict = None, td_applying = None, td_report_pack = None,
     td_report = None, td_report_loading = False, td_activity = []\<rparr>"

section \<open>What is rendered\<close>

datatype detail_screen = LoadingScreen | NotFoundScreen | TenantScreen tenant_response

definition detail_screen_of :: "tenant_detail \<Rightarrow> detail_screen" where
  "detail_screen_of s = (if td_loading s then LoadingScreen
     else case td_tenant s of None \<Rightarrow> NotFoundScreen
       | Some t \<Rightarrow> if td_not_found s then NotFoundScreen else TenantScreen t)"

definition deviated_rules :: "tenant_detail \<Rightarrow> compliance_report_rule list" where
  "deviated_rules s = (case td_report s of None \<Rightarrow> []
     | Some r \<Rightarrow> filter (\<lambda>x. rr_status x \<noteq> RepActive) (rep_rules r))"

text \<open>The banner: the pack it names and re-applies, and how many rules deviate.\<close>

definition deviation_banner :: "tenant_detail \<Rightarrow> (jsstring \<times> nat) option" where
  "deviation_banner s = (if deviated_rules s \<noteq> [] \<and> truthy_str (td_report_pack s)
     then Some (the (td_report_pack s), length (deviated_rules s)) else None)"

definition report_status_str :: "report_status \<Rightarrow> jsstring" where
  "report_status_str st = (case st of RepActive \<Rightarrow> js ''active'' | RepDeviated \<Rightarrow> js ''deviated'' | RepMissing \<Rightarrow> js ''missing'')"

definition rule_tone :: "report_status \<Rightarrow> jsstring" where
  "rule_tone st = (case st of RepActive \<Rightarrow> js ''green'' | RepDeviated \<Rightarrow> js ''amber'' | _ \<Rightarrow> js ''red'')"

definition report_row :: "compliance_report_rule \<Rightarrow> jsstring list" where
  "report_row r = [rr_detector_type r, rr_expected_reaction r, nullish (rr_actual_reaction r) dash,
     (if rr_masking r then js ''yes'' else js ''no''), rule_tone (rr_status r), report_status_str (rr_status r)]"

definition overview_rows :: "date_reader \<Rightarrow> time_zone \<Rightarrow> tenant_response \<Rightarrow> (jsstring \<times> jsstring) list" where
  "overview_rows rd tz t = [(js ''Slug'', tr_slug t), (js ''Auth header'', tr_auth_header t),
     (js ''Retention mode'', retention_str (nullish (tr_retention_mode t) RetFull)),
     (js ''Created'', abs_date rd tz (tr_created_at t)), (js ''Updated'', abs_date rd tz (tr_updated_at t))]"

text \<open>The PII card: its pill, default action and rules; None without a configuration.\<close>

definition pii_card :: "tenant_response \<Rightarrow> ((jsstring \<times> jsstring) \<times> jsstring \<times> jsstring list list) option" where
  "pii_card t = map_option (\<lambda>c. ((if pii_enabled c then (js ''green'', js ''enabled'') else (js ''gray'', js ''disabled'')),
     pii_default_action c,
     map (\<lambda>r. [rule_label r, rule_type r, rule_pattern r, rule_action r]) (pii_rules c))) (tr_pii_config t)"

text \<open>An entry is printed as it is when it is a string, otherwise by JSON.stringify (\<open>str\<close>).\<close>

definition entry_text :: "(json \<Rightarrow> jsstring) \<Rightarrow> json \<Rightarrow> jsstring" where
  "entry_text str e = (case e of JStr s \<Rightarrow> s | _ \<Rightarrow> str e)"

definition dictionary_box :: "(json \<Rightarrow> jsstring) \<Rightarrow> dictionary_item \<Rightarrow> jsstring \<times> jsstring \<times> jsstring list" where
  "dictionary_box str d = (let es = dict_entries d; n = length es in
     (dict_name d @ [32, 0xB7, 32] @ dict_match_mode d, js ''View all ('' @ int_str (int n) @ js '')'',
      map (entry_text str) (take 8 es) @
        (if n > 8 then [[0x2026] @ js ''and '' @ int_str (int n - 8) @ js '' more''] else [])))"

definition dictionary_modal :: "(json \<Rightarrow> jsstring) \<Rightarrow> dictionary_item \<Rightarrow> jsstring \<times> jsstring \<times> (jsstring \<times> jsstring) list" where
  "dictionary_modal pretty d = (dict_name d,
     js ''Match mode: '' @ dict_match_mode d @ [32, 0xB7, 32] @ int_str (int (length (dict_entries d))) @ js '' entries'',
     map (\<lambda>(i, e). (int_str (int i + 1), entry_text pretty e)) (enumerate 0 (dict_entries d)))"

definition activity_row :: "date_reader \<Rightarrow> time_zone \<Rightarrow> int \<Rightarrow> activity_item \<Rightarrow> jsstring list" where
  "activity_row rd tz now a = [str_or (ac_model a) dash,
     (if ac_status a = js ''ok'' then js ''green'' else if ac_status a = js ''blocked'' then js ''amber'' else js ''red''),
     ac_status a, relative_time rd tz (ac_created_at a) now]"

definition pack_button :: "tenant_detail \<Rightarrow> jsstring \<Rightarrow> bool \<times> jsstring" where
  "pack_button s p = (td_applying s = Some p,
     if td_applying s = Some p then js ''Applying'' @ [0x2026] else js ''Apply '' @ p)"

section \<open>Requests and handlers\<close>

datatype detail_query =
    TDTenant jsstring
  | TDActivity jsstring
  | TDDelete jsstring
  | TDApply jsstring jsstring
  | TDReport jsstring jsstring

record detail_value =
  dt_tenant :: tenant_response
  dt_report :: compliance_report
  dt_activity :: "activity_item list"

type_synonym detail_reply = "js_error + detail_value"
type_synonym detail_act = "(tenant_detail, page_out, detail_query, detail_reply) act"

definition detail_http :: "browser \<Rightarrow> detail_query \<Rightarrow> request" where
  "detail_http b q = (case q of
      TDTenant s \<Rightarrow> get_tenant b s
    | TDActivity s \<Rightarrow> Inr (list_conversations 1 30
        \<lparr>cf_tenant_id = Some s, cf_status = None, cf_model = None, cf_masked = None\<rparr>)
    | TDDelete s \<Rightarrow> delete_tenant b s
    | TDApply s p \<Rightarrow> apply_compliance_pack b s p
    | TDReport s p \<Rightarrow> get_compliance_report b s p)"

definition detail_adm :: "browser \<Rightarrow> detail_query \<Rightarrow> detail_reply \<Rightarrow> bool" where
  "detail_adm b q r \<longleftrightarrow> (\<forall>e. detail_http b q = Inl e \<longrightarrow> r = Inl e)"

definition load_tenant :: "jsstring \<Rightarrow> detail_act" where
  "load_tenant s = Upd (\<lambda>s. s\<lparr>td_loading := True\<rparr>) (Await (TDTenant s) (\<lambda>r.
     and_then (case r of
        Inr v \<Rightarrow> Upd (\<lambda>s. s\<lparr>td_tenant := Some (dt_tenant v)\<rparr>) Done
      | Inl e \<Rightarrow> if error_name e = js ''NotFoundError'' then Upd (\<lambda>s. s\<lparr>td_not_found := True\<rparr>) Done else Done)
     (Upd (\<lambda>s. s\<lparr>td_loading := False\<rparr>) Done)))"

definition load_activity :: "jsstring \<Rightarrow> detail_act" where
  "load_activity s = Await (TDActivity s) (\<lambda>r. case r of Inl _ \<Rightarrow> Done
     | Inr v \<Rightarrow> Upd (\<lambda>s. s\<lparr>td_activity := dt_activity v\<rparr>) Done)"

definition detail_delete :: "jsstring \<Rightarrow> detail_act" where
  "detail_delete s = Upd (\<lambda>s. s\<lparr>td_deleting := True\<rparr>) (Await (TDDelete s) (\<lambda>r. case r of
      Inr _ \<Rightarrow> Emit (Toast (js ''Tenant '' @ quoted s @ js '' deleted'') Success) (Emit (Navigate (js ''/tenants'')) Done)
    | Inl _ \<Rightarrow> Emit (Toast (js ''Failed to delete tenant'') Error)
        (Upd (\<lambda>s. s\<lparr>td_deleting := False\<rparr>) (Upd (\<lambda>s. s\<lparr>td_confirm := False\<rparr>) Done))))"

definition apply_pack :: "jsstring \<Rightarrow> jsstring \<Rightarrow> detail_act" where
  "apply_pack s p =
    (let fin = Upd (\<lambda>s. s\<lparr>td_applying := None\<rparr>) Done;
         fail = Emit (Toast (js ''Failed to apply compliance pack'') Error) fin in
     Upd (\<lambda>s. s\<lparr>td_applying := Some p\<rparr>) (Await (TDApply s p) (\<lambda>r. case r of Inl _ \<Rightarrow> fail
       | Inr _ \<Rightarrow> Emit (Toast (js ''Compliance pack '' @ quoted p @ js '' applied'') Success)
           (Upd (\<lambda>s. s\<lparr>td_report_pack := Some p\<rparr>) (Await (TDTenant s) (\<lambda>r. case r of Inl _ \<Rightarrow> fail
              | Inr v \<Rightarrow> Upd (\<lambda>s. s\<lparr>td_tenant := Some (dt_tenant v)\<rparr>) (Await (TDReport s p) (\<lambda>r. case r of Inl _ \<Rightarrow> fail
                  | Inr w \<Rightarrow> Upd (\<lambda>s. s\<lparr>td_report := Some (dt_report w)\<rparr>) fin))))))))"

definition show_report :: "jsstring \<Rightarrow> jsstring \<Rightarrow> detail_act" where
  "show_report s p = Upd (\<lambda>s. s\<lparr>td_report_pack := Some p\<rparr>) (Upd (\<lambda>s. s\<lparr>td_report_loading := True\<rparr>)
     (Upd (\<lambda>s. s\<lparr>td_report := None\<rparr>) (Await (TDReport s p) (\<lambda>r.
        and_then (case r of
            Inr v \<Rightarrow> Upd (\<lambda>s. s\<lparr>td_report := Some (dt_report v)\<rparr>) Done
          | Inl _ \<Rightarrow> Emit (Toast (js ''Failed to load compliance report'') Error) Done)
        (Upd (\<lambda>s. s\<lparr>td_report_loading := False\<rparr>) Done)))))"

datatype detail_event =
    TDMount
  | TDMountActivity
  | TDTab detail_tab
  | TDAskDelete
  | TDConfirm confirm_action
  | TDApplyPack jsstring
  | TDReapply
  | TDShowReport jsstring
  | TDOpenDict dictionary_item
  | TDCloseDict

definition when_slug :: "jsstring option \<Rightarrow> (jsstring \<Rightarrow> detail_act) \<Rightarrow> detail_act" where
  "when_slug tslug f = (case tslug of None \<Rightarrow> Done | Some s \<Rightarrow> if s = [] then Done else f s)"

fun detail_handler :: "jsstring option \<Rightarrow> detail_event \<Rightarrow> tenant_detail \<Rightarrow> detail_act" where
  "detail_handler tslug TDMount s = when_slug tslug load_tenant"
| "detail_handler tslug TDMountActivity s = when_slug tslug load_activity"
| "detail_handler tslug (TDTab t) s = Upd (\<lambda>s. s\<lparr>td_tab := t\<rparr>) Done"
| "detail_handler tslug TDAskDelete s = Upd (\<lambda>s. s\<lparr>td_confirm := True\<rparr>) Done"
| "detail_handler tslug (TDConfirm a) s = (if a = ConfirmClick then when_slug tslug detail_delete
     else Upd (\<lambda>s. s\<lparr>td_confirm := False\<rparr>) Done)"
| "detail_handler tslug (TDApplyPack p) s = when_slug tslug (\<lambda>i. apply_pack i p)"
| "detail_handler tslug TDReapply s = (case deviation_banner s of None \<Rightarrow> Done
     | Some (p, _) \<Rightarrow> when_slug tslug (\<lambda>i. apply_pack i p))"
| "detail_handler tslug (TDShowReport p) s = when_slug tslug (\<lambda>i. show_report i p)"
| "detail_handler tslug (TDOpenDict d) s = Upd (\<lambda>s. s\<lparr>td_dict := Some d\<rparr>) Done"
| "detail_handler tslug TDCloseDict s = Upd (\<lambda>s. s\<lparr>td_dict := None\<rparr>) Done"

definition on_tenant :: "tenant_detail \<Rightarrow> bool" where
  "on_tenant s \<longleftrightarrow> (case detail_screen_of s of TenantScreen _ \<Rightarrow> True | _ \<Rightarrow> False)"

fun detail_enabled :: "detail_event \<Rightarrow> tenant_detail \<Rightarrow> bool" where
  "detail_enabled TDMount s \<longleftrightarrow> True"
| "detail_enabled TDMountActivity s \<longleftrightarrow> True"
| "detail_enabled (TDConfirm a) s \<longleftrightarrow> on_tenant s \<and> confirm_enabled (td_confirm s) (td_deleting s) a"
| "detail_enabled (TDApplyPack p) s \<longleftrightarrow> on_tenant s \<and> td_tab s = Compliance \<and> p \<in> set compliance_packs \<and> td_applying s \<noteq> Some p"
| "detail_enabled TDReapply s \<longleftrightarrow> on_tenant s \<and> (case deviation_banner s of None \<Rightarrow> False
     | Some (p, _) \<Rightarrow> td_applying s \<noteq> Some p)"
| "detail_enabled (TDShowReport p) s \<longleftrightarrow> on_tenant s \<and> td_tab s = Compliance \<and> p \<in> set compliance_packs"
| "detail_enabled (TDOpenDict d) s \<longleftrightarrow> on_tenant s \<and> td_tab s = Policies \<and>
     (\<exists>t. td_tenant s = Some t \<and> d \<in> set (nullish (tr_dictionaries t) []))"
| "detail_enabled TDCloseDict s \<longleftrightarrow> on_tenant s \<and> td_dict s \<noteq> None"
| "detail_enabled _ s \<longleftrightarrow> on_tenant s"

section \<open>Deleting a tenant\<close>

text \<open>What the awaited promise of deleteTenant is, from what the gateway answers.\<close>

definition delete_reply :: "jsstring \<Rightarrow> outcome \<Rightarrow> 'v \<Rightarrow> js_error + 'v" where
  "delete_reply u out v = map_sum id (\<lambda>_. v) (api_result u out)"

text \<open>C34. Deleting leaves the page exactly when the call resolves, and otherwise reports a failure and
  closes the dialog. A bodyless answer, which is what the gateway sends on success (204), makes
  the call reject: the deletion has happened and the page says it failed.\<close>

theorem tenant_delete_outcomes:
  "run (detail_delete i) s [Inr v] = (s\<lparr>td_deleting := True\<rparr>,
     [Toast (js ''Tenant '' @ quoted i @ js '' deleted'') Success, Navigate (js ''/tenants'')], [TDDelete i], True) \<and>
   run (detail_delete i) s [Inl e] = (s\<lparr>td_deleting := False, td_confirm := False\<rparr>,
     [Toast (js ''Failed to delete tenant'') Error], [TDDelete i], True) \<and>
   ((\<exists>v'. delete_reply u out v = Inr v') \<longleftrightarrow>
      (\<exists>r b. out = Resp r \<and> resp_ok r \<and> payload r = Some b \<and> b \<noteq> JNull)) \<and>
   run (detail_delete i) s [delete_reply u (Resp \<lparr>status = 204, payload = None\<rparr>) v] =
     (s\<lparr>td_deleting := False, td_confirm := False\<rparr>, [Toast (js ''Failed to delete tenant'') Error], [TDDelete i], True)"
proof (intro conjI)
  have "(\<exists>v'. map_sum id (\<lambda>_. v) (unwrap_data b) = Inr v') \<longleftrightarrow> b \<noteq> JNull" for b
    by (cases b) (auto simp: unwrap_data_def)
  then show "(\<exists>v'. delete_reply u out v = Inr v') \<longleftrightarrow>
      (\<exists>r b. out = Resp r \<and> resp_ok r \<and> payload r = Some b \<and> b \<noteq> JNull)"
    by (auto simp: delete_reply_def api_result_def read_json_def resp_ok_def Let_def
        split: outcome.split option.split sum.split)
qed (simp_all add: detail_delete_def delete_reply_def api_result_def read_json_def resp_ok_def)

definition is_tenant_delete :: "detail_query \<Rightarrow> bool" where
  "is_tenant_delete q = (case q of TDDelete _ \<Rightarrow> True | _ \<Rightarrow> False)"

lemmas detail_act_defs = load_tenant_def load_activity_def detail_delete_def apply_pack_def show_report_def
  when_slug_def is_tenant_delete_def Let_def

interpretation detail_busy: busy_flag "detail_handler tslug" detail_enabled "detail_adm b" tenant_detail_init td_deleting
  is_tenant_delete False for tslug b
proof unfold_locales
  show "\<not> td_deleting tenant_detail_init" by (simp add: tenant_detail_init_def)
next
  fix e s
  assume en: "detail_enabled e s"
  show "quiet (detail_handler tslug e s) td_deleting is_tenant_delete \<or>
    \<not> td_deleting s \<and> acquiring (detail_handler tslug e s) False td_deleting is_tenant_delete"
  proof (cases e)
    case (TDConfirm a)
    then show ?thesis using en
      by (cases a) (auto simp: detail_act_defs confirm_enabled_def split: option.split sum.split)
  qed (auto simp: detail_act_defs split: option.split sum.split prod.split)
qed

lemma tenant_single_delete:
  assumes "sys_reach (detail_handler tslug) detail_enabled (detail_adm b) (mount tenant_detail_init) m"
  shows "in_flight is_tenant_delete m \<le> 1 \<and> (in_flight is_tenant_delete m = 1 \<longrightarrow> td_deleting (ui m))"
  using detail_busy.single_flight [OF assms] by simp

section \<open>Compliance packs\<close>

text \<open>Applying a pack: the success is announced as soon as the pack is applied, then the tenant and
  the pack's report are read again; a failure of either later request is reported as a failure to
  apply, and the pack is no longer marked as being applied in every case.\<close>

theorem apply_pack_outcomes:
  "run (apply_pack i p) s [Inl e] = (s\<lparr>td_applying := None\<rparr>,
     [Toast (js ''Failed to apply compliance pack'') Error], [TDApply i p], True) \<and>
   run (apply_pack i p) s [Inr u, Inl e] = (s\<lparr>td_applying := None, td_report_pack := Some p\<rparr>,
     [Toast (js ''Compliance pack '' @ quoted p @ js '' applied'') Success,
      Toast (js ''Failed to apply compliance pack'') Error], [TDApply i p, TDTenant i], True) \<and>
   run (apply_pack i p) s [Inr u, Inr v, Inl e] =
     (s\<lparr>td_applying := None, td_report_pack := Some p, td_tenant := Some (dt_tenant v)\<rparr>,
      [Toast (js ''Compliance pack '' @ quoted p @ js '' applied'') Success,
       Toast (js ''Failed to apply compliance pack'') Error], [TDApply i p, TDTenant i, TDReport i p], True) \<and>
   run (apply_pack i p) s [Inr u, Inr v, Inr w] =
     (s\<lparr>td_applying := None, td_report_pack := Some p, td_tenant := Some (dt_tenant v), td_report := Some (dt_report w)\<rparr>,
      [Toast (js ''Compliance pack '' @ quoted p @ js '' applied'') Success], [TDApply i p, TDTenant i, TDReport i p], True)"
  by (simp add: apply_pack_def Let_def)

definition demo_value :: "report_status \<Rightarrow> detail_value" where
  "demo_value st = \<lparr>dt_tenant = \<lparr>tr_slug = js ''acme'', tr_name = js ''Acme'', tr_auth_header = [], tr_dictionaries = None,
       tr_pii_config = None, tr_retention_mode = None, tr_created_at = [], tr_updated_at = []\<rparr>,
     dt_report = \<lparr>rep_pack_key = js ''HIPAA'', rep_rules = [\<lparr>rr_detector_type = [], rr_expected_reaction = [],
       rr_actual_reaction = None, rr_masking = False, rr_status = st\<rparr>]\<rparr>, dt_activity = []\<rparr>"

lemma packs: "js ''HIPAA'' \<in> set compliance_packs" "js ''GDPR'' \<in> set compliance_packs"
  by (simp_all add: compliance_packs_def)

lemma demo_urls: "encode_uri_component (js ''acme'') = Some (js ''acme'')"
  "encode_uri_component (js ''HIPAA'') = Some (js ''HIPAA'')" "encode_uri_component (js ''GDPR'') = Some (js ''GDPR'')"
  by (rule encode_js_plain, simp add: uri_unreserved_def js_def)+

text \<open>The banner can name the wrong pack: the deviations of a report requested earlier and answered
  later are counted for the pack asked for last, whose re-apply button then applies that one.\<close>

lemma report_stale:
  "\<exists>m. sys_reach (detail_handler (Some (js ''acme''))) detail_enabled (detail_adm b) (mount tenant_detail_init) m \<and>
     tasks m = [] \<and> td_report (ui m) = Some (dt_report (demo_value RepMissing)) \<and>
     deviation_banner (ui m) = Some (js ''GDPR'', 1)"
proof -
  let ?sched = "[Fire TDMount, Answer 0 (Inr (demo_value RepActive)), Fire (TDTab Compliance),
     Fire (TDShowReport (js ''HIPAA'')), Fire (TDShowReport (js ''GDPR'')),
     Answer 1 (Inr (demo_value RepActive)), Answer 0 (Inr (demo_value RepMissing))]"
  have "\<exists>m. do_moves (detail_handler (Some (js ''acme''))) detail_enabled (detail_adm b) ?sched (mount tenant_detail_init) = Some m \<and>
      tasks m = [] \<and> td_report (ui m) = Some (dt_report (demo_value RepMissing)) \<and>
      deviation_banner (ui m) = Some (js ''GDPR'', 1)"
    using packs by (simp add: detail_act_defs resume_def mount_def tenant_detail_init_def on_tenant_def detail_screen_of_def
      detail_adm_def detail_http_def get_tenant_def get_compliance_report_def with_segment_def demo_urls demo_value_def
      deviation_banner_def deviated_rules_def)
  then show ?thesis by (blast intro: schedule_reach)
qed

end
