(* ===== verification/Navigation.thy ===== *)
theory Navigation
  imports PageBase Session
begin

text \<open>
  ui/src/components/Layout.tsx, ui/src/components/CommandPalette.tsx and the route table of
  ui/src/App.tsx: the sidebar, the page titles and header actions, the workspace switch with its
  copy in localStorage and the event that carries it to the page, and the command palette as a
  state machine over keys, clicks and answers. \<open>lower\<close> is String.prototype.toLowerCase.
\<close>

section \<open>Routes and navigation tables\<close>

text \<open>The paths of the Routes of App, without the final '*' that redirects to '/'.\<close>

definition route_table :: "(jsstring \<times> jsstring) list" where
  "route_table = [(js ''/'', js ''Dashboard''), (js ''/tenants'', js ''TenantList''), (js ''/tenants/new'', js ''TenantForm''),
     (js ''/tenants/:slug/edit'', js ''TenantForm''), (js ''/tenants/:slug'', js ''TenantDetail''),
     (js ''/analytics'', js ''Analytics''), (js ''/sessions'', js ''Sessions''), (js ''/conversations'', js ''Conversations''),
     (js ''/routing'', js ''Routing''), (js ''/keys'', js ''Keys''), (js ''/budgets'', js ''Budgets''),
     (js ''/audit'', js ''AuditLog''), (js ''/settings'', js ''Settings''), (js ''/swagger'', js ''Swagger'')]"

definition routed :: "jsstring \<Rightarrow> bool" where
  "routed p \<longleftrightarrow> p \<in> set (map fst route_table)"

record nav_item =
  nav_to :: jsstring
  nav_label :: jsstring

definition nav_entry :: "string \<Rightarrow> string \<Rightarrow> nav_item" where
  "nav_entry p l = \<lparr>nav_to = js p, nav_label = js l\<rparr>"

definition nav_sections :: "(jsstring \<times> nav_item list) list" where
  "nav_sections =
    [(js ''Overview'', [nav_entry ''/'' ''Operations HQ'', nav_entry ''/analytics'' ''Analytics'']),
     (js ''Traffic'', [nav_entry ''/sessions'' ''Live Sessions'', nav_entry ''/conversations'' ''Conversations'']),
     (js ''Governance'', [nav_entry ''/tenants'' ''Tenants'', nav_entry ''/keys'' ''Keys'',
        nav_entry ''/budgets'' ''Budgets'', nav_entry ''/compliance'' ''Compliance'']),
     (js ''Operations'', [nav_entry ''/routing'' ''Routing'', nav_entry ''/audit'' ''Audit Log'']),
     (js ''System'', [nav_entry ''/settings'' ''Settings'', nav_entry ''/swagger'' ''API Reference''])]"

definition nav_items :: "nav_item list" where
  "nav_items = concat (map snd nav_sections)"

definition path_label :: "jsstring \<Rightarrow> jsstring option" where
  "path_label path = map_option nav_label (List.find (\<lambda>i. nav_to i = path) nav_items)"

definition document_title :: "jsstring \<Rightarrow> jsstring" where
  "document_title path = (case path_label path of
     Some l \<Rightarrow> if l = [] then js ''MaskChain'' else l @ [32, 0x2014, 32] @ js ''MaskChain''
   | None \<Rightarrow> js ''MaskChain'')"

definition header_title :: "jsstring \<Rightarrow> jsstring" where
  "header_title path = nullish (path_label path) (js ''MaskChain'')"

text \<open>The header buttons of a path, with what a click does: a navigation, or a download in a new
  window.\<close>

datatype header_act = GoTo jsstring | OpenWindow jsstring

definition header_actions :: "jsstring \<Rightarrow> (jsstring \<times> header_act) list" where
  "header_actions path =
    (let create = (js ''Create key'', GoTo (js ''/keys?create=1'')) in
     if path = js ''/'' then [create]
     else if path = js ''/keys'' then [create]
     else if path = js ''/analytics'' then [(js ''Export CSV'', OpenWindow (js ''/api/v1/analytics/cost?format=csv''))]
     else [])"

section \<open>The workspace\<close>

definition workspace_key :: jsstring where
  "workspace_key = js ''maskchain.workspace''"

text \<open>The layout's cell, the stored copy, the options the tenants gave, and the cell of the mounted
  page when it is one of those that follow the workspace.\<close>

record workspace_state =
  ws_current :: jsstring
  ws_stored :: "jsstring option"
  ws_options :: "(jsstring \<times> jsstring) list"
  ws_page :: "jsstring option"

definition workspace_mount :: "jsstring option \<Rightarrow> workspace_state" where
  "workspace_mount st = \<lparr>ws_current = nullish st [], ws_stored = st, ws_options = [], ws_page = None\<rparr>"

text \<open>The maskchain:workspace event: the layout's listener and the one of the mounted page; with
  \<open>ok\<close> False localStorage throws in the layout's listener, after setWorkspace.\<close>

definition on_workspace :: "bool \<Rightarrow> jsstring \<Rightarrow> workspace_state \<Rightarrow> workspace_state" where
  "on_workspace ok slug s = s\<lparr>ws_current := slug, ws_stored := (if ok then Some slug else ws_stored s),
     ws_page := map_option (\<lambda>_. slug) (ws_page s)\<rparr>"

text \<open>\<open>applyWorkspace\<close>: setItem comes first, and when it throws nothing else happens.\<close>

definition apply_workspace :: "bool \<Rightarrow> jsstring \<Rightarrow> workspace_state \<Rightarrow> workspace_state" where
  "apply_workspace ok slug s = (if ok then on_workspace ok slug (s\<lparr>ws_stored := Some slug, ws_current := slug\<rparr>) else s)"

text \<open>\<open>useState(() => localStorage.getItem('maskchain.workspace') ?? '')\<close> of a page that follows.\<close>

definition follow_workspace :: "workspace_state \<Rightarrow> workspace_state" where
  "follow_workspace s = s\<lparr>ws_page := Some (nullish (ws_stored s) [])\<rparr>"

datatype workspace_event =
    WsSelect bool jsstring
  | WsTenants "js_error + (jsstring \<times> jsstring) list"
  | WsOpenPage
  | WsLeavePage
  | WsReload

fun workspace_step :: "workspace_event \<Rightarrow> workspace_state \<Rightarrow> workspace_state" where
  "workspace_step (WsSelect ok slug) s = apply_workspace ok slug s"
| "workspace_step (WsTenants r) s = (case r of Inl _ \<Rightarrow> s | Inr ts \<Rightarrow> s\<lparr>ws_options := ts\<rparr>)"
| "workspace_step WsOpenPage s = follow_workspace s"
| "workspace_step WsLeavePage s = s\<lparr>ws_page := None\<rparr>"
| "workspace_step WsReload s = workspace_mount (ws_stored s)"

definition workspace_options :: "workspace_state \<Rightarrow> (jsstring \<times> jsstring) list" where
  "workspace_options s = ([], js ''All workspaces'') # ws_options s"

definition workspace_synced :: "workspace_state \<Rightarrow> bool" where
  "workspace_synced s \<longleftrightarrow> nullish (ws_stored s) [] = ws_current s \<and> (\<forall>w. ws_page s = Some w \<longrightarrow> w = ws_current s)"

lemma workspace_step_synced: "workspace_synced s \<Longrightarrow> workspace_synced (workspace_step e s)"
  by (cases e) (auto simp: workspace_synced_def apply_workspace_def on_workspace_def follow_workspace_def
      workspace_mount_def split: sum.split)

lemma workspace_exec_synced: "workspace_synced s \<Longrightarrow> workspace_synced (fold workspace_step evs s)"
  by (induction evs arbitrary: s) (simp_all add: workspace_step_synced)

text \<open>C27. The layout, the stored copy and the page that follows the workspace always agree on it,
  whatever is selected (also when localStorage refuses to store), whatever pages are opened and
  left, and across reloads; and a selection that could be stored is the one in force.\<close>

theorem workspace_stays_synced:
  "nullish (ws_stored (fold workspace_step evs (workspace_mount st))) [] =
     ws_current (fold workspace_step evs (workspace_mount st)) \<and>
   (\<forall>w. ws_page (fold workspace_step evs (workspace_mount st)) = Some w \<longrightarrow>
      w = ws_current (fold workspace_step evs (workspace_mount st))) \<and>
   ws_current (fold workspace_step (evs @ [WsSelect True slug, WsReload, WsOpenPage]) (workspace_mount st)) = slug \<and>
   ws_page (fold workspace_step (evs @ [WsSelect True slug, WsReload, WsOpenPage]) (workspace_mount st)) = Some slug"
proof -
  have "workspace_synced (workspace_mount st)" by (simp add: workspace_synced_def workspace_mount_def)
  from workspace_exec_synced [OF this] show ?thesis
    by (simp add: workspace_synced_def apply_workspace_def on_workspace_def follow_workspace_def workspace_mount_def)
qed

theorem workspace_stays_synced_witness:
  "ws_page (fold workspace_step [WsOpenPage, WsSelect True (js ''acme''), WsSelect False (js ''globex'')]
     (workspace_mount None)) = Some (js ''acme'')"
proof -
  let ?s = "fold workspace_step [WsOpenPage, WsSelect True (js ''acme''), WsSelect False (js ''globex'')] (workspace_mount None)"
  have "ws_current ?s = js ''acme''" "\<exists>w. ws_page ?s = Some w"
    by (simp_all add: apply_workspace_def on_workspace_def follow_workspace_def workspace_mount_def)
  then show ?thesis
    using workspace_stays_synced [of "[WsOpenPage, WsSelect True (js ''acme''), WsSelect False (js ''globex'')]" None]
    by metis
qed

section \<open>The command palette\<close>

record palette_entry = nav_item +
  nav_keywords :: jsstring

definition palette_page :: "string \<Rightarrow> string \<Rightarrow> string \<Rightarrow> palette_entry" where
  "palette_page p l k = \<lparr>nav_to = js p, nav_label = js l, nav_keywords = js k\<rparr>"

definition palette_nav :: "palette_entry list" where
  "palette_nav =
    [palette_page ''/'' ''Dashboard'' ''dashboard home overview'',
     palette_page ''/analytics'' ''Analytics'' ''analytics usage tokens cost charts'',
     palette_page ''/tenants'' ''Tenants'' ''tenants create list'',
     palette_page ''/sessions'' ''Sessions'' ''sessions active live'',
     palette_page ''/conversations'' ''Conversations'' ''conversations messages chat'',
     palette_page ''/routing'' ''Routing'' ''routing providers rules models'',
     palette_page ''/keys'' ''Keys'' ''keys api virtual scoped models access'',
     palette_page ''/budgets'' ''Budgets'' ''budgets spend limits cap cost enforce'',
     palette_page ''/audit'' ''Audit Log'' ''audit log events admin'',
     palette_page ''/settings'' ''Settings'' ''settings config'',
     palette_page ''/swagger'' ''Swagger'' ''swagger api docs openapi'']"

record palette_result =
  pr_key :: jsstring
  pr_group :: jsstring
  pr_label :: jsstring
  pr_hint :: "jsstring option"
  pr_to :: jsstring

text \<open>The three requests an opening palette makes.\<close>

datatype palette_query = PTenants | PSessions | PConversations

record palette =
  pal_open :: bool
  pal_query :: jsstring
  pal_tenants :: "jsstring list"
  pal_sessions :: "jsstring list"
  pal_convs :: "jsstring list"
  pal_active :: int
  pal_pending :: "palette_query list"

definition palette_init :: palette where
  "palette_init = \<lparr>pal_open = False, pal_query = [], pal_tenants = [], pal_sessions = [], pal_convs = [],
     pal_active = 0, pal_pending = []\<rparr>"

definition palette_http :: "browser \<Rightarrow> palette_query \<Rightarrow> http_request" where
  "palette_http b q = (case q of PTenants \<Rightarrow> list_tenants b
     | PSessions \<Rightarrow> plain_get (js ''/api/v1/sessions'') True
     | PConversations \<Rightarrow> list_conversations 1 50
         \<lparr>cf_tenant_id = None, cf_status = None, cf_model = None, cf_masked = None\<rparr>)"

text \<open>\<open>r.ok ? r.json() : null\<close>, \<open>body?.data ?? body\<close>, then the items where they are an array.\<close>

definition palette_sessions_result :: "outcome \<Rightarrow> js_error + json list" where
  "palette_sessions_result out = (case out of
      NetFail \<Rightarrow> Inl fetch_failed
    | Resp r \<Rightarrow> (case (if resp_ok r then read_json r else Inr JNull) of
        Inl e \<Rightarrow> Inl e
      | Inr b \<Rightarrow> Inr (case opt_prop (js ''items'') (Some (nullish_json (opt_prop (js ''data'') (Some b)) b)) of
            Some (JArr xs) \<Rightarrow> xs | _ \<Rightarrow> [])))"

definition palette_matches :: "(jsstring \<Rightarrow> jsstring) \<Rightarrow> jsstring \<Rightarrow> jsstring list \<Rightarrow> bool" where
  "palette_matches lower q texts \<longleftrightarrow> q = [] \<or> (\<exists>f \<in> set texts. str_includes (lower f) (lower q))"

definition nav_result :: "palette_entry \<Rightarrow> palette_result" where
  "nav_result n = \<lparr>pr_key = nav_to n, pr_group = js ''Navigate'', pr_label = nav_label n, pr_hint = None, pr_to = nav_to n\<rparr>"

definition tenant_result :: "jsstring \<Rightarrow> palette_result" where
  "tenant_result t = \<lparr>pr_key = js ''t:'' @ t, pr_group = js ''Tenants'', pr_label = t, pr_hint = Some (js ''Open tenant''),
     pr_to = js ''/tenants/'' @ t\<rparr>"

definition session_result :: "jsstring \<Rightarrow> palette_result" where
  "session_result t = \<lparr>pr_key = js ''s:'' @ t, pr_group = js ''Sessions'', pr_label = take 16 t @ [0x2026],
     pr_hint = Some (js ''Session ID''), pr_to = js ''/sessions''\<rparr>"

definition conv_result :: "jsstring \<Rightarrow> palette_result" where
  "conv_result t = \<lparr>pr_key = js ''c:'' @ t, pr_group = js ''Conversations'', pr_label = take 16 t @ [0x2026],
     pr_hint = Some (js ''Conversation ID''), pr_to = js ''/conversations''\<rparr>"

definition palette_found :: "(jsstring \<Rightarrow> jsstring) \<Rightarrow> palette \<Rightarrow> palette_result list" where
  "palette_found lower s =
    (let hit = (\<lambda>t. palette_matches lower (pal_query s) [t]) in
     map nav_result (filter (\<lambda>n. palette_matches lower (pal_query s) [nav_label n, nav_keywords n]) palette_nav) @
     (if pal_query s = [] then [] else
        map tenant_result (filter hit (pal_tenants s)) @ map session_result (filter hit (pal_sessions s)) @
        map conv_result (filter hit (pal_convs s))))"

definition palette_results :: "(jsstring \<Rightarrow> jsstring) \<Rightarrow> palette \<Rightarrow> palette_result list" where
  "palette_results lower s = take 20 (palette_found lower s)"

text \<open>\<open>results[i]\<close>\<close>

definition result_at :: "palette_result list \<Rightarrow> int \<Rightarrow> palette_result option" where
  "result_at rs i = (if 0 \<le> i \<and> i < int (length rs) then Some (rs ! nat i) else None)"

subsection \<open>Events\<close>

datatype palette_answer =
    ATenants "js_error + jsstring list"
  | ASessions "js_error + jsstring list"
  | AConversations "js_error + jsstring list"

fun answer_query :: "palette_answer \<Rightarrow> palette_query" where
  "answer_query (ATenants _) = PTenants"
| "answer_query (ASessions _) = PSessions"
| "answer_query (AConversations _) = PConversations"

text \<open>\<open>PalKey ctrl key focused\<close> is a key press with or without Ctrl or Meta, in the palette's
  input or elsewhere.\<close>

datatype palette_event =
    PalKey bool jsstring bool
  | PalOpenEvent
  | PalBackdrop
  | PalType jsstring
  | PalHover nat
  | PalClick nat
  | PalAnswer palette_answer

definition palette_go :: "jsstring \<Rightarrow> palette \<Rightarrow> palette \<times> page_out list" where
  "palette_go p s = (s\<lparr>pal_open := False\<rparr>, [Navigate p])"

definition palette_input_key :: "(jsstring \<Rightarrow> jsstring) \<Rightarrow> jsstring \<Rightarrow> palette \<Rightarrow> palette \<times> page_out list" where
  "palette_input_key lower key s =
    (if key = js ''ArrowDown'' then
       (s\<lparr>pal_active := min (pal_active s + 1) (int (length (palette_results lower s)) - 1)\<rparr>, [])
     else if key = js ''ArrowUp'' then (s\<lparr>pal_active := max (pal_active s - 1) 0\<rparr>, [])
     else if key = js ''Enter'' then
       (case result_at (palette_results lower s) (pal_active s) of None \<Rightarrow> (s, []) | Some r \<Rightarrow> palette_go (pr_to r) s)
     else (s, []))"

definition palette_window_key :: "(jsstring \<Rightarrow> jsstring) \<Rightarrow> bool \<Rightarrow> jsstring \<Rightarrow> palette \<Rightarrow> palette" where
  "palette_window_key lower ctrl key s =
    (let s' = (if ctrl \<and> lower key = js ''k'' then s\<lparr>pal_open := \<not> pal_open s\<rparr> else s)
     in if key = js ''Escape'' then s'\<lparr>pal_open := False\<rparr> else s')"

fun palette_store :: "palette_answer \<Rightarrow> palette \<Rightarrow> palette" where
  "palette_store (ATenants (Inr xs)) s = s\<lparr>pal_tenants := xs\<rparr>"
| "palette_store (ASessions (Inr xs)) s = s\<lparr>pal_sessions := xs\<rparr>"
| "palette_store (AConversations (Inr xs)) s = s\<lparr>pal_convs := xs\<rparr>"
| "palette_store _ s = s"

fun palette_handle :: "(jsstring \<Rightarrow> jsstring) \<Rightarrow> palette_event \<Rightarrow> palette \<Rightarrow> palette \<times> page_out list" where
  "palette_handle lower (PalKey ctrl key focused) s =
     (let (s', os) = (if focused then palette_input_key lower key s else (s, []))
      in (palette_window_key lower ctrl key s', os))"
| "palette_handle lower PalOpenEvent s = (s\<lparr>pal_open := True\<rparr>, [])"
| "palette_handle lower PalBackdrop s = (s\<lparr>pal_open := False\<rparr>, [])"
| "palette_handle lower (PalType q) s = (s\<lparr>pal_query := q\<rparr>, [])"
| "palette_handle lower (PalHover i) s = (s\<lparr>pal_active := int i\<rparr>, [])"
| "palette_handle lower (PalClick i) s = (case result_at (palette_results lower s) (int i) of
      None \<Rightarrow> (s, []) | Some r \<Rightarrow> palette_go (pr_to r) s)"
| "palette_handle lower (PalAnswer a) s =
     (palette_store a (s\<lparr>pal_pending := remove1 (answer_query a) (pal_pending s)\<rparr>), [])"

text \<open>What the user interface offers: the input, the backdrop and the items of an open palette, and
  an answer for a request that is pending.\<close>

fun palette_enabled :: "(jsstring \<Rightarrow> jsstring) \<Rightarrow> palette_event \<Rightarrow> palette \<Rightarrow> bool" where
  "palette_enabled lower (PalKey ctrl key focused) s \<longleftrightarrow> (focused \<longrightarrow> pal_open s)"
| "palette_enabled lower PalOpenEvent s \<longleftrightarrow> True"
| "palette_enabled lower (PalHover i) s \<longleftrightarrow> pal_open s \<and> i < length (palette_results lower s)"
| "palette_enabled lower (PalClick i) s \<longleftrightarrow> pal_open s \<and> i < length (palette_results lower s)"
| "palette_enabled lower (PalAnswer a) s \<longleftrightarrow> answer_query a \<in> set (pal_pending s)"
| "palette_enabled lower _ s \<longleftrightarrow> pal_open s"

text \<open>The effects of the render after the palette s became s': the one on \<open>open\<close>, then the one on
  the query (a query that the first one reset included).\<close>

definition palette_effects :: "palette \<Rightarrow> palette \<Rightarrow> palette" where
  "palette_effects s s' =
    (let s1 = (if pal_open s = pal_open s' then s'
               else if pal_open s' then s'\<lparr>pal_pending := pal_pending s' @ [PTenants, PSessions, PConversations]\<rparr>
               else s'\<lparr>pal_query := [], pal_active := 0\<rparr>)
     in if pal_query s = pal_query s1 then s1 else s1\<lparr>pal_active := 0\<rparr>)"

definition palette_step :: "(jsstring \<Rightarrow> jsstring) \<Rightarrow> palette_event \<Rightarrow> palette \<Rightarrow> palette \<times> page_out list" where
  "palette_step lower e s = (let (s', os) = palette_handle lower e s in (palette_effects s s', os))"

inductive palette_reach :: "(jsstring \<Rightarrow> jsstring) \<Rightarrow> palette \<Rightarrow> bool" for lower where
  mounted: "palette_reach lower palette_init"
| event: "palette_reach lower s \<Longrightarrow> palette_enabled lower e s \<Longrightarrow> palette_reach lower (fst (palette_step lower e s))"

inductive_cases palette_reachE: "palette_reach lower s"

lemmas palette_step_defs = palette_step_def palette_effects_def palette_window_key_def palette_input_key_def
  palette_go_def Let_def

lemma palette_store_simps [simp]:
  "pal_open (palette_store a s) = pal_open s" "pal_query (palette_store a s) = pal_query s"
  "pal_active (palette_store a s) = pal_active s" "pal_pending (palette_store a s) = pal_pending s"
  by (cases "(a, s)" rule: palette_store.cases; simp)+

lemma length_palette_results: "length (palette_results lower s) \<le> 20"
  by (simp add: palette_results_def)

lemma result_at_nth: "result_at rs i = Some r \<longleftrightarrow> 0 \<le> i \<and> i < int (length rs) \<and> r = rs ! nat i"
  by (auto simp: result_at_def)

definition palette_ok :: "palette \<Rightarrow> bool" where
  "palette_ok s \<longleftrightarrow> - 1 \<le> pal_active s \<and> pal_active s < 20 \<and> (\<not> pal_open s \<longrightarrow> pal_query s = [] \<and> pal_active s = 0)"

lemma palette_effects_ok:
  assumes "palette_ok s" "- 1 \<le> pal_active s'" "pal_active s' < 20"
    "\<not> pal_open s' \<Longrightarrow> \<not> pal_open s \<Longrightarrow> pal_query s' = [] \<and> pal_active s' = 0"
  shows "palette_ok (palette_effects s s')"
  using assms by (auto simp: palette_ok_def palette_effects_def Let_def)

lemma palette_window_key_simps [simp]:
  "pal_active (palette_window_key lower c k s) = pal_active s"
  "pal_query (palette_window_key lower c k s) = pal_query s"
  "pal_tenants (palette_window_key lower c k s) = pal_tenants s"
  by (simp_all add: palette_window_key_def Let_def)

lemma palette_input_key_query [simp]: "pal_query (fst (palette_input_key lower k s)) = pal_query s"
  by (simp add: palette_input_key_def palette_go_def split: option.split)

lemma palette_input_key_bounds:
  assumes "- 1 \<le> pal_active s" "pal_active s < 20"
  shows "- 1 \<le> pal_active (fst (palette_input_key lower k s)) \<and> pal_active (fst (palette_input_key lower k s)) < 20"
  using assms length_palette_results [of lower s]
  by (auto simp: palette_input_key_def palette_go_def min_def max_def split: option.split)

lemma palette_handle_ok:
  assumes ok: "palette_ok s" and en: "palette_enabled lower e s"
  shows "- 1 \<le> pal_active (fst (palette_handle lower e s)) \<and> pal_active (fst (palette_handle lower e s)) < 20 \<and>
    (\<not> pal_open (fst (palette_handle lower e s)) \<and> \<not> pal_open s \<longrightarrow>
       pal_query (fst (palette_handle lower e s)) = [] \<and> pal_active (fst (palette_handle lower e s)) = 0)"
proof (cases e)
  case (PalKey c k f)
  then show ?thesis using ok en palette_input_key_bounds [of s lower k]
    by (cases f) (auto simp: palette_ok_def split_beta)
next
  case (PalHover i)
  then show ?thesis using ok en length_palette_results [of lower s] by (simp add: palette_ok_def)
next
  case (PalClick i)
  then show ?thesis using ok en by (simp add: palette_ok_def palette_go_def split: option.split)
qed (use ok en in \<open>simp_all add: palette_ok_def\<close>)

lemma palette_reach_ok: "palette_reach lower s \<Longrightarrow> palette_ok s"
proof (induction rule: palette_reach.induct)
  case mounted
  then show ?case by (simp add: palette_ok_def palette_init_def)
next
  case (event s e)
  have "fst (palette_step lower e s) = palette_effects s (fst (palette_handle lower e s))"
    by (simp add: palette_step_def split: prod.split)
  then show ?case using palette_effects_ok [OF event.IH, of "fst (palette_handle lower e s)"] palette_handle_ok [OF event.IH event.hyps(2)]
    by simp
qed

subsection \<open>What the keyboard opens\<close>

definition press :: "(jsstring \<Rightarrow> jsstring) \<Rightarrow> string \<Rightarrow> palette \<Rightarrow> palette \<times> page_out list" where
  "press lower key s = palette_step lower (PalKey False (js key) True) s"

lemma palette_effects_same: "pal_open s = pal_open s' \<Longrightarrow> pal_query s = pal_query s' \<Longrightarrow> palette_effects s s' = s'"
  by (simp add: palette_effects_def)

lemma press_down:
  "press lower ''ArrowDown'' s = (s\<lparr>pal_active := min (pal_active s + 1) (int (length (palette_results lower s)) - 1)\<rparr>, [])"
  by (simp add: press_def palette_step_def palette_input_key_def palette_window_key_def palette_effects_same)

lemma press_enter:
  "press lower ''Enter'' s = (case result_at (palette_results lower s) (pal_active s) of
     None \<Rightarrow> (s, []) | Some r \<Rightarrow> (palette_effects s (s\<lparr>pal_open := False\<rparr>), [Navigate (pr_to r)]))"
  by (simp add: press_def palette_step_def palette_input_key_def palette_window_key_def palette_go_def
      palette_effects_same split: option.split)

lemma results_active [simp]: "palette_results lower (s\<lparr>pal_active := i\<rparr>) = palette_results lower s"
  by (simp add: palette_results_def palette_found_def Let_def)

lemma press_downs:
  assumes "pal_active s = 0" "palette_results lower s \<noteq> []"
  shows "((\<lambda>t. fst (press lower ''ArrowDown'' t)) ^^ k) s =
    s\<lparr>pal_active := int (min k (length (palette_results lower s) - 1))\<rparr>"
proof (induction k)
  case 0
  then show ?case using assms by simp
next
  case (Suc k)
  have "0 < length (palette_results lower s)" using assms(2) by simp
  then have "min (int (min k (length (palette_results lower s) - 1)) + 1) (int (length (palette_results lower s)) - 1) =
      int (min (Suc k) (length (palette_results lower s) - 1))"
    by linarith
  then show ?case using Suc.IH by (simp add: press_down)
qed

text \<open>C26. In an open palette, Enter opens the highlighted result, and after a new query and k presses
  of ArrowDown that is the result number k, or the last one; without results Enter does nothing.
  Opening a result closes the palette, and a closed palette always has an empty query and
  highlights its first entry.\<close>

theorem palette_opens_highlighted:
  assumes r: "palette_reach lower s" and op: "pal_open s" and q: "q \<noteq> pal_query s"
  defines "t \<equiv> fst (palette_step lower (PalType q) s)"
  shows "(palette_results lower t \<noteq> [] \<longrightarrow>
      snd (press lower ''Enter'' (((\<lambda>t. fst (press lower ''ArrowDown'' t)) ^^ k) t)) =
        [Navigate (pr_to (palette_results lower t ! min k (length (palette_results lower t) - 1)))]) \<and>
    (palette_results lower t = [] \<longrightarrow> press lower ''Enter'' t = (t, [])) \<and>
    (\<forall>u. palette_reach lower u \<and> \<not> pal_open u \<longrightarrow> pal_query u = [] \<and> pal_active u = 0)"
proof (intro conjI impI)
  have t: "pal_active t = 0" "pal_open t"
    using op q by (simp_all add: t_def palette_step_def palette_effects_def Let_def)
  show "snd (press lower ''Enter'' (((\<lambda>t. fst (press lower ''ArrowDown'' t)) ^^ k) t)) =
      [Navigate (pr_to (palette_results lower t ! min k (length (palette_results lower t) - 1)))]"
    if "palette_results lower t \<noteq> []"
  proof -
    have "min k (length (palette_results lower t) - 1) < length (palette_results lower t)"
      using that by (simp add: min_less_iff_disj)
    then show ?thesis using press_downs [OF t(1) that] by (simp add: press_enter result_at_def)
  qed
  show "press lower ''Enter'' t = (t, [])" if "palette_results lower t = []"
    using that by (simp add: press_enter result_at_def)
  show "\<forall>u. palette_reach lower u \<and> \<not> pal_open u \<longrightarrow> pal_query u = [] \<and> pal_active u = 0"
    using palette_reach_ok by (auto simp: palette_ok_def)
qed

definition palette_opened :: "(jsstring \<Rightarrow> jsstring) \<Rightarrow> palette" where
  "palette_opened lower = fst (palette_step lower PalOpenEvent palette_init)"

lemma palette_opened_reach: "palette_reach lower (palette_opened lower)" "pal_open (palette_opened lower)"
proof -
  show "palette_reach lower (palette_opened lower)"
    unfolding palette_opened_def by (rule palette_reach.event [OF palette_reach.mounted]) simp
  show "pal_open (palette_opened lower)" by (simp add: palette_opened_def palette_step_def palette_effects_def Let_def)
qed

theorem palette_opens_highlighted_witness:
  "snd (press id ''Enter'' (fst (press id ''ArrowDown'' (fst (palette_step id (PalType (js ''api'')) (palette_opened id)))))) =
     [Navigate (js ''/swagger'')]"
proof -
  have q: "js ''api'' \<noteq> pal_query (palette_opened id)"
    by (simp add: palette_opened_def palette_step_def palette_effects_def palette_init_def Let_def)
  have r: "map pr_to (palette_results id (fst (palette_step id (PalType (js ''api'')) (palette_opened id)))) =
      [js ''/keys'', js ''/swagger'']" by code_simp
  then have "palette_results id (fst (palette_step id (PalType (js ''api'')) (palette_opened id))) \<noteq> []"
    "length (palette_results id (fst (palette_step id (PalType (js ''api'')) (palette_opened id)))) = 2"
    by (auto dest: arg_cong [of _ _ length])
  then show ?thesis using palette_opens_highlighted [OF palette_opened_reach q, of 1] r
    by (simp add: nth_map [symmetric] del: nth_map)
qed

section \<open>What the layout and the palette render\<close>

text \<open>The sidebar: sections of links with their classes. \<open>active\<close> is the router's isActive, of a link, its
  \<open>end\<close> flag and the current path.\<close>

definition sidebar :: "(jsstring \<Rightarrow> bool \<Rightarrow> jsstring \<Rightarrow> bool) \<Rightarrow> jsstring \<Rightarrow> (jsstring \<times> (jsstring \<times> jsstring \<times> jsstring) list) list" where
  "sidebar active path = map (\<lambda>(l, items). (l, map (\<lambda>i. (nav_to i, nav_label i,
     js ''nav-item'' @ (if active (nav_to i) (nav_to i = js ''/'') path then js '' active'' else []))) items)) nav_sections"

text \<open>The theme button: aria-label and title.\<close>

definition theme_button :: "theme \<Rightarrow> jsstring \<times> jsstring" where
  "theme_button th = (if th = Dark then (js ''Switch to light theme'', js ''Light theme'')
     else (js ''Switch to dark theme'', js ''Dark theme''))"

record layout_header =
  lh_title :: jsstring
  lh_buttons :: "(jsstring \<times> header_act) list"
  lh_workspace :: jsstring
  lh_options :: "(jsstring \<times> jsstring) list"
  lh_theme :: "jsstring \<times> jsstring"

definition header_of :: "jsstring \<Rightarrow> workspace_state \<Rightarrow> theme \<Rightarrow> layout_header" where
  "header_of path ws th = \<lparr>lh_title = header_title path, lh_buttons = header_actions path,
     lh_workspace = ws_current ws, lh_options = workspace_options ws, lh_theme = theme_button th\<rparr>"

text \<open>An open palette: the query, the empty message, and its items with class, label, hint and the
  mark of the highlighted one.\<close>

definition palette_item :: "palette \<Rightarrow> nat \<times> palette_result \<Rightarrow> jsstring \<times> jsstring \<times> jsstring option \<times> bool" where
  "palette_item s x = (case x of (i, r) \<Rightarrow> let act = (int i = pal_active s) in
     (js ''command-item'' @ (if act then js '' active'' else []), pr_label r,
      (case pr_hint r of None \<Rightarrow> None | Some h \<Rightarrow> if h = [] then None else Some h), act))"

definition palette_view :: "(jsstring \<Rightarrow> jsstring) \<Rightarrow> palette \<Rightarrow>
    (jsstring \<times> jsstring option \<times> (jsstring \<times> jsstring \<times> jsstring option \<times> bool) list) option" where
  "palette_view lower s = (if \<not> pal_open s then None
     else Some (pal_query s, if palette_results lower s = [] then Some (js ''No matches'') else None,
       map (palette_item s) (enumerate 0 (palette_results lower s))))"

section \<open>Where the palette and the sidebar lead\<close>

lemma palette_nav_routed: "\<forall>n \<in> set palette_nav. routed (nav_to n)"
  by code_simp

lemma nav_items_routed: "\<forall>i \<in> set nav_items. routed (nav_to i) \<longleftrightarrow> nav_label i \<noteq> js ''Compliance''"
  by code_simp

lemma fixed_targets_routed: "routed (js ''/sessions'')" "routed (js ''/conversations'')"
  by code_simp+

lemma palette_found_target:
  "r \<in> set (palette_found lower s) \<Longrightarrow>
   routed (pr_to r) \<or> (\<exists>t \<in> set (pal_tenants s). pr_to r = js ''/tenants/'' @ t)"
  using palette_nav_routed fixed_targets_routed
  by (auto simp: palette_found_def Let_def nav_result_def tenant_result_def session_result_def conv_result_def
      split: if_splits)

lemma palette_results_subset: "set (palette_results lower s) \<subseteq> set (palette_found lower s)"
  by (simp add: palette_results_def set_take_subset)

lemma palette_navigates:
  assumes "Navigate p \<in> set (snd (palette_step lower e s))"
  obtains r where "r \<in> set (palette_found lower s)" "p = pr_to r"
proof -
  have at: "r \<in> set (palette_found lower s)" if "result_at (palette_results lower s) i = Some r" for r i
    using that palette_results_subset [of lower s] by (auto simp: result_at_nth)
  have h: "Navigate p \<in> set (snd (palette_handle lower e s))"
    using assms by (simp add: palette_step_def split_beta)
  have "\<exists>r \<in> set (palette_found lower s). p = pr_to r"
  proof (cases e)
    case (PalKey c k f)
    then have "Navigate p \<in> set (snd (palette_input_key lower k s))" using h by (cases f) (simp_all add: split_beta)
    then show ?thesis using at
      by (auto simp: palette_input_key_def palette_go_def split: option.splits if_splits)
  next
    case (PalClick i)
    then show ?thesis using h at by (auto simp: palette_go_def split: option.splits)
  qed (use h in simp_all)
  then show thesis using that by blast
qed

text \<open>C35. Every navigation of the palette leads to a route of the application or to the page of a
  tenant it has loaded; it lists at most twenty results, each of which matches the query, with
  every matching page of the application among them. Every entry of the sidebar leads to a
  route, except Compliance, whose path the application does not have.\<close>

theorem navigation_targets_exist:
  "(Navigate p \<in> set (snd (palette_step lower e s)) \<longrightarrow>
      routed p \<or> (\<exists>t \<in> set (pal_tenants s). p = js ''/tenants/'' @ t)) \<and>
   length (palette_results lower s) \<le> 20 \<and>
   (\<forall>n \<in> set palette_nav. nav_result n \<in> set (palette_results lower s) \<longleftrightarrow>
      palette_matches lower (pal_query s) [nav_label n, nav_keywords n]) \<and>
   (\<forall>t. tenant_result t \<in> set (palette_results lower s) \<longrightarrow>
      t \<in> set (pal_tenants s) \<and> palette_matches lower (pal_query s) [t]) \<and>
   (\<forall>i \<in> set nav_items. routed (nav_to i) \<longleftrightarrow> nav_label i \<noteq> js ''Compliance'')"
proof (intro conjI impI ballI allI)
  show "routed p \<or> (\<exists>t \<in> set (pal_tenants s). p = js ''/tenants/'' @ t)"
    if nav: "Navigate p \<in> set (snd (palette_step lower e s))"
  proof -
    obtain r where "r \<in> set (palette_found lower s)" "p = pr_to r" by (rule palette_navigates [OF nav])
    then show ?thesis using palette_found_target [of r lower s] by simp
  qed
  show "length (palette_results lower s) \<le> 20" by (rule length_palette_results)
  show "nav_result n \<in> set (palette_results lower s) \<longleftrightarrow>
      palette_matches lower (pal_query s) [nav_label n, nav_keywords n]" if n: "n \<in> set palette_nav" for n
  proof -
    let ?hits = "filter (\<lambda>n. palette_matches lower (pal_query s) [nav_label n, nav_keywords n]) palette_nav"
    have "length ?hits \<le> length palette_nav" by (rule length_filter_le)
    then have "length (map nav_result ?hits) \<le> 20" by (simp add: palette_nav_def)
    then have inc: "set (map nav_result ?hits) \<subseteq> set (palette_results lower s)"
      by (simp add: palette_results_def palette_found_def Let_def)
    have inj: "m = n" if "m \<in> set palette_nav" "nav_result m = nav_result n" for m
    proof -
      have "distinct (map nav_to palette_nav)" by code_simp
      moreover have "nav_to m = nav_to n" using that(2) by (simp add: nav_result_def)
      ultimately show ?thesis using n that(1) by (auto simp: distinct_map inj_on_def)
    qed
    have "js ''Navigate'' \<noteq> js ''Tenants''" "js ''Navigate'' \<noteq> js ''Sessions''" "js ''Navigate'' \<noteq> js ''Conversations''"
      by simp_all
    then have "nav_result n \<in> set (palette_found lower s) \<longrightarrow> n \<in> set ?hits"
      using inj by (auto simp: palette_found_def Let_def nav_result_def tenant_result_def session_result_def
          conv_result_def split: if_splits)
    then show ?thesis using inc palette_results_subset [of lower s] n by auto
  qed
  show "t \<in> set (pal_tenants s)" "palette_matches lower (pal_query s) [t]"
    if "tenant_result t \<in> set (palette_results lower s)" for t
    using that palette_results_subset [of lower s]
    by (auto simp: palette_found_def Let_def nav_result_def tenant_result_def session_result_def conv_result_def
        split: if_splits)
  show "routed (nav_to i) \<longleftrightarrow> nav_label i \<noteq> js ''Compliance''" if "i \<in> set nav_items" for i
    using nav_items_routed that by auto
qed

theorem navigation_targets_exist_witness:
  "\<exists>i \<in> set nav_items. nav_to i = js ''/compliance'' \<and> \<not> routed (nav_to i)"
proof -
  have c: "nav_entry ''/compliance'' ''Compliance'' \<in> set nav_items" by (simp add: nav_items_def nav_sections_def)
  then have "\<not> routed (nav_to (nav_entry ''/compliance'' ''Compliance''))"
    using navigation_targets_exist [of "[]" id PalBackdrop palette_init] by (metis nav_item.select_convs(2) nav_entry_def)
  with c show ?thesis by (intro bexI [of _ "nav_entry ''/compliance'' ''Compliance''"]) (simp_all add: nav_entry_def)
qed

end
