(* ===== verification/Windows.thy ===== *)
theory Windows
  imports Ranges
begin

text \<open>
  The two functions that ui/src/pages/Dashboard.tsx and ui/src/pages/Analytics.tsx share: shiftWindow,
  the period before a time window, and deltaPct, the change against it. A date reader is only
  assumed to read back what toISOString writes (\<open>reads_iso\<close>); a reader of exactly that format,
  \<open>read_iso\<close>, shows that the assumption can hold.
\<close>

section \<open>Reading what toISOString writes\<close>

text \<open>The greatest time value of a Date, in milliseconds.\<close>

definition max_time :: int where "max_time = 8640000000000000"

definition reads_iso :: "date_reader \<Rightarrow> bool" where
  "reads_iso rd \<longleftrightarrow> (\<forall>t. \<bar>t\<bar> \<le> max_time \<longrightarrow> rd (iso_string t) = Some t)"

text \<open>A four-digit year, or a sign and six digits; then the fields at their positions.\<close>

definition read_iso :: date_reader where
  "read_iso s =
    (let neg = (take 1 s = js ''-''); ext = neg \<or> take 1 s = js ''+'';
         y = num_of_digits (if ext then take 6 (drop 1 s) else take 4 s);
         r = drop (if ext then 7 else 4) s;
         field = (\<lambda>i k. num_of_digits (take k (drop i r)))
     in if length r \<noteq> 20 then None
        else Some (days_of_civil \<lparr>year = (if neg then - y else y), month = field 1 2, day = field 4 2\<rparr> * ms_per_day +
          field 7 2 * 3600000 + field 10 2 * 60000 + field 13 2 * 1000 + field 16 3))"

lemma num_of_digits_zeros: "num_of_digits (replicate k 48 @ s) = num_of_digits s"
proof -
  have "foldl (\<lambda>a c. 10 * a + digit_val c) 0 (replicate k 48) = 0"
    by (induction k) (simp_all add: digit_val_def)
  then show ?thesis by (simp add: num_of_digits_def)
qed

lemma length_digits: "0 \<le> n \<Longrightarrow> n < 10 ^ Suc k \<Longrightarrow> length (digits n) \<le> Suc k"
proof (induction k arbitrary: n)
  case 0
  then show ?case by (simp add: digits.simps)
next
  case (Suc k)
  show ?case
  proof (cases "n < 10")
    case True
    then show ?thesis by (simp add: digits.simps)
  next
    case False
    then have "n div 10 < 10 ^ Suc k" using div_bounds [of n 10 "10 ^ Suc k"] Suc.prems by simp
    then have "length (digits (n div 10)) \<le> Suc k"
      using Suc.IH [of "n div 10"] Suc.prems(1) by (simp add: pos_imp_zdiv_nonneg_iff)
    then show ?thesis using False by (simp add: digits.simps [of n])
  qed
qed

lemma zero_pad_field:
  assumes "0 \<le> n" "n < 10 ^ Suc k"
  shows "length (zero_pad (Suc k) n) = Suc k" "num_of_digits (zero_pad (Suc k) n) = n"
    "\<forall>c \<in> set (zero_pad (Suc k) n). is_digit c"
proof -
  show "length (zero_pad (Suc k) n) = Suc k" using length_digits [OF assms] by (simp add: zero_pad_def Let_def)
  show "num_of_digits (zero_pad (Suc k) n) = n"
    using num_of_digits_zeros [of "Suc k - length (digits n)" "digits n"] assms(1) by (simp add: zero_pad_def Let_def)
  show "\<forall>c \<in> set (zero_pad (Suc k) n). is_digit c"
    using digits_all [OF assms(1)] by (auto simp: zero_pad_def Let_def is_digit_def)
qed

lemmas zero_pad2 = zero_pad_field [where k = 1, simplified, folded numeral_2_eq_2]
lemmas zero_pad3 = zero_pad_field [where k = 2, simplified, folded numeral_3_eq_3]

lemma year_bounds:
  assumes "\<bar>t\<bar> \<le> max_time"
  shows "\<bar>year (civil_of_days (t div ms_per_day))\<bar> < 1000000"
proof -
  define z' where "z' = t div ms_per_day + 719468"
  define doe where "doe = z' mod 146097"
  define c where "c = min 3 (doe div 36524)"
  define r where "r = doe - 36524 * c"
  define q where "q = r div 1461"
  define r2 where "r2 = r - 1461 * q"
  define a where "a = min 3 (r2 div 365)"
  have doe: "0 \<le> doe" "doe < 146097" by (simp_all add: doe_def)
  note parts = doe_parts [OF doe, folded c_def, folded r_def, folded q_def, folded r2_def, folded a_def]
  have "- 100000001 \<le> t div ms_per_day" "t div ms_per_day \<le> 100000000"
  proof -
    have "86400000 * (t div 86400000) = t - t mod 86400000" by (simp add: minus_mod_eq_mult_div)
    moreover have "0 \<le> t mod 86400000" "t mod 86400000 < 86400000" by simp_all
    ultimately show "- 100000001 \<le> t div ms_per_day" "t div ms_per_day \<le> 100000000"
      using assms by (auto simp: ms_per_day_def max_time_def abs_le_iff)
  qed
  then have era: "- 690 \<le> z' div 146097" "z' div 146097 \<le> 690" by (simp_all add: z'_def)
  have "\<exists>b. 0 \<le> b \<and> b \<le> 1 \<and> year (civil_of_days (t div ms_per_day)) = 400 * (z' div 146097) + 100 * c + 4 * q + a + b"
    unfolding civil_of_days_def Let_def z'_def [symmetric] doe_def [symmetric] c_def [symmetric] r_def [symmetric]
      q_def [symmetric] r2_def [symmetric] a_def [symmetric]
    by auto
  then show ?thesis using era parts by auto
qed

lemma two_units: "length (s :: jsstring) = 2 \<Longrightarrow> \<exists>a b. s = [a, b]"
  by (auto simp: numeral_2_eq_2 length_Suc_conv)

lemma three_units: "length (s :: jsstring) = 3 \<Longrightarrow> \<exists>a b c. s = [a, b, c]"
  by (auto simp: numeral_3_eq_3 length_Suc_conv)

text \<open>The fields of a string of the format, whatever stands in them.\<close>

lemma read_iso_fields:
  assumes len: "length mo = 2" "length da = 2" "length ho = 2" "length mi = 2" "length se = 2" "length ms = 3"
    and y: "length ys = 4 \<and> is_digit (hd ys) \<and> yv = num_of_digits ys \<or>
      length ys = 7 \<and> (hd ys = 43 \<and> yv = num_of_digits (tl ys) \<or> hd ys = 45 \<and> yv = - num_of_digits (tl ys))"
  shows "read_iso (ys @ js ''-'' @ mo @ js ''-'' @ da @ js ''T'' @ ho @ js '':'' @ mi @ js '':'' @ se @ js ''.'' @ ms @ js ''Z'') =
    Some (days_of_civil \<lparr>year = yv, month = num_of_digits mo, day = num_of_digits da\<rparr> * ms_per_day +
      num_of_digits ho * 3600000 + num_of_digits mi * 60000 + num_of_digits se * 1000 + num_of_digits ms)"
proof -
  obtain m1 m2 d1 d2 h1 h2 i1 i2 s1 s2 n1 n2 n3 where parts: "mo = [m1, m2]" "da = [d1, d2]" "ho = [h1, h2]"
    "mi = [i1, i2]" "se = [s1, s2]" "ms = [n1, n2, n3]"
    using len two_units [of mo] two_units [of da] two_units [of ho] two_units [of mi] two_units [of se]
      three_units [of ms] by blast
  let ?r = "js ''-'' @ mo @ js ''-'' @ da @ js ''T'' @ ho @ js '':'' @ mi @ js '':'' @ se @ js ''.'' @ ms @ js ''Z''"
  obtain c cs where ys: "ys = c # cs" using y by (cases ys) auto
  have num: "take (Suc 0) (ys @ ?r) = [c]" by (simp add: ys)
  show ?thesis
  proof (cases "length ys = 4")
    case True
    then have "is_digit c" "yv = num_of_digits ys" using y ys by auto
    moreover from this(1) have "c \<noteq> 45" "c \<noteq> 43" by (auto simp: is_digit_def)
    ultimately show ?thesis using True
      by (simp add: read_iso_def Let_def num parts js_def ys)
  next
    case False
    then have "length ys = 7" "c = 43 \<and> yv = num_of_digits cs \<or> c = 45 \<and> yv = - num_of_digits cs" using y ys by auto
    then show ?thesis by (auto simp add: read_iso_def Let_def num parts js_def ys)
  qed
qed

lemma day_fields:
  fixes r :: int
  assumes "0 \<le> r" "r < 86400000"
  shows "r div 3600000 * 3600000 + r div 60000 mod 60 * 60000 + r div 1000 mod 60 * 1000 + r mod 1000 = r"
    "0 \<le> r div 3600000" "r div 3600000 < 100"
proof -
  have e: "r div 60000 = r div 1000 div 60" "r div 3600000 = r div 1000 div 60 div 60"
    by (simp_all add: zdiv_zmult2_eq [symmetric])
  have "r div 1000 = 60 * (r div 1000 div 60) + r div 1000 mod 60"
    "r div 1000 div 60 = 60 * (r div 1000 div 60 div 60) + r div 1000 div 60 mod 60"
    "r = 1000 * (r div 1000) + r mod 1000" by simp_all
  then show "r div 3600000 * 3600000 + r div 60000 mod 60 * 60000 + r div 1000 mod 60 * 1000 + r mod 1000 = r"
    unfolding e by linarith
  show "0 \<le> r div 3600000" "r div 3600000 < 100" using div_bounds [of r 3600000 100] assms by simp_all
qed

lemma read_iso_iso_string:
  assumes "\<bar>t\<bar> \<le> max_time"
  shows "read_iso (iso_string t) = Some t"
proof -
  define d where "d = civil_of_days (t div ms_per_day)"
  define r where "r = t mod ms_per_day"
  define ys where "ys = (if 0 \<le> year d \<and> year d \<le> 9999 then zero_pad 4 (year d)
    else (if year d < 0 then js ''-'' else js ''+'') @ zero_pad 6 \<bar>year d\<bar>)"
  have iso: "iso_string t = ys @ js ''-'' @ zero_pad 2 (month d) @ js ''-'' @ zero_pad 2 (day d) @ js ''T'' @
      zero_pad 2 (r div 3600000) @ js '':'' @ zero_pad 2 (r div 60000 mod 60) @ js '':'' @
      zero_pad 2 (r div 1000 mod 60) @ js ''.'' @ zero_pad 3 (r mod 1000) @ js ''Z''"
    by (simp add: iso_string_def Let_def d_def r_def ys_def)
  have day: "days_of_civil d = t div ms_per_day" "1 \<le> month d" "month d \<le> 12" "1 \<le> day d" "day d \<le> 31"
    using days_of_civil_of_days [of "t div ms_per_day"] by (simp_all add: d_def)
  have r: "0 \<le> r" "r < 86400000" by (simp_all add: r_def ms_per_day_def)
  note f = day_fields [OF r]
  have ms: "0 \<le> r div 60000 mod 60" "r div 60000 mod 60 < 100" "0 \<le> r div 1000 mod 60" "r div 1000 mod 60 < 100"
    "0 \<le> r mod 1000" "r mod 1000 < 1000"
    using pos_mod_bound [of 60 "r div 60000"] pos_mod_bound [of 60 "r div 1000"] by simp_all
  have y: "length ys = 4 \<and> is_digit (hd ys) \<and> year d = num_of_digits ys \<or>
      length ys = 7 \<and> (hd ys = 43 \<and> year d = num_of_digits (tl ys) \<or> hd ys = 45 \<and> year d = - num_of_digits (tl ys))"
  proof (cases "0 \<le> year d \<and> year d \<le> 9999")
    case True
    then have z: "length ys = 4" "num_of_digits ys = year d" "\<forall>c \<in> set ys. is_digit c"
      using zero_pad_field [of "year d" 3] by (simp_all add: ys_def eval_nat_numeral)
    then have "hd ys \<in> set ys" by (intro hd_in_set) auto
    then show ?thesis using z by simp
  next
    case False
    have "\<bar>year d\<bar> < 10 ^ Suc 5" using year_bounds [OF assms] by (simp add: d_def)
    then have "length (zero_pad 6 \<bar>year d\<bar>) = 6" "num_of_digits (zero_pad 6 \<bar>year d\<bar>) = \<bar>year d\<bar>"
      using zero_pad_field [of "\<bar>year d\<bar>" 5] by (simp_all add: eval_nat_numeral)
    then show ?thesis using False by (auto simp: ys_def js_def)
  qed
  have "read_iso (iso_string t) = Some (days_of_civil \<lparr>year = year d, month = month d, day = day d\<rparr> * ms_per_day +
      r div 3600000 * 3600000 + r div 60000 mod 60 * 60000 + r div 1000 mod 60 * 1000 + r mod 1000)"
    unfolding iso
  proof (subst read_iso_fields [where yv = "year d"])
    show "length (zero_pad 2 (month d)) = 2" "length (zero_pad 2 (day d)) = 2"
      "length (zero_pad 2 (r div 3600000)) = 2" "length (zero_pad 2 (r div 60000 mod 60)) = 2"
      "length (zero_pad 2 (r div 1000 mod 60)) = 2" "length (zero_pad 3 (r mod 1000)) = 3"
      using day ms f(2,3) by (simp_all only: zero_pad2 zero_pad3)
    have "num_of_digits (zero_pad 2 (month d)) = month d" "num_of_digits (zero_pad 2 (day d)) = day d"
      "num_of_digits (zero_pad 2 (r div 3600000)) = r div 3600000"
      "num_of_digits (zero_pad 2 (r div 60000 mod 60)) = r div 60000 mod 60"
      "num_of_digits (zero_pad 2 (r div 1000 mod 60)) = r div 1000 mod 60"
      "num_of_digits (zero_pad 3 (r mod 1000)) = r mod 1000"
      using day ms f(2,3) by (simp_all only: zero_pad2 zero_pad3)
    then show "Some (days_of_civil \<lparr>year = year d, month = num_of_digits (zero_pad 2 (month d)),
          day = num_of_digits (zero_pad 2 (day d))\<rparr> * ms_per_day +
        num_of_digits (zero_pad 2 (r div 3600000)) * 3600000 + num_of_digits (zero_pad 2 (r div 60000 mod 60)) * 60000 +
        num_of_digits (zero_pad 2 (r div 1000 mod 60)) * 1000 + num_of_digits (zero_pad 3 (r mod 1000))) =
      Some (days_of_civil \<lparr>year = year d, month = month d, day = day d\<rparr> * ms_per_day +
        r div 3600000 * 3600000 + r div 60000 mod 60 * 60000 + r div 1000 mod 60 * 1000 + r mod 1000)"
      by (simp only:)
  qed (rule y)
  also have "\<dots> = Some (days_of_civil d * ms_per_day + r)"
  proof -
    have "\<lparr>year = year d, month = month d, day = day d\<rparr> = d" by simp
    then show ?thesis using f(1) by (simp only: add.assoc)
  qed
  finally show ?thesis using day(1) by (simp add: r_def)
qed

lemma reads_iso_read_iso: "reads_iso read_iso"
  by (simp add: reads_iso_def read_iso_iso_string)

text \<open>\<open>new Date('')\<close> is an invalid date.\<close>

definition empty_invalid :: "date_reader \<Rightarrow> bool" where
  "empty_invalid rd \<longleftrightarrow> rd [] = None"

lemma empty_invalid_read_iso: "empty_invalid read_iso"
  unfolding empty_invalid_def by code_simp

section \<open>The previous window and the change against it\<close>

text \<open>\<open>new Date(ms).toISOString()\<close>: a RangeError beyond the greatest time value.\<close>

definition to_iso :: "int \<Rightarrow> js_error + jsstring" where
  "to_iso t = (if \<bar>t\<bar> \<le> max_time then Inr (iso_string t) else Inl (RangeErr (js ''Invalid time value'')))"

definition shift_window :: "date_reader \<Rightarrow> jsstring \<Rightarrow> jsstring \<Rightarrow> js_error + jsstring \<times> jsstring" where
  "shift_window rd frm to = (case (rd frm, rd to) of
      (Some f, Some t) \<Rightarrow> (let span = t - f in
         case to_iso (f - span) of Inl e \<Rightarrow> Inl e
         | Inr a \<Rightarrow> (case to_iso f of Inl e \<Rightarrow> Inl e | Inr b \<Rightarrow> Inr (a, b)))
    | _ \<Rightarrow> Inr (frm, to))"

definition delta_pct :: "jsnum \<Rightarrow> jsnum \<Rightarrow> jsnum option" where
  "delta_pct cur prev = (if jle prev (Fin 0) then (if jlt (Fin 0) cur then Some (Fin 100) else None)
     else Some (jdiv (jround (jmul (jdiv (jsub cur prev) prev) (Fin 1000))) (Fin 10)))"

definition tri_up :: jsstring where "tri_up = [0x25B2]"
definition tri_down :: jsstring where "tri_down = [0x25BC]"

definition change_text :: "jsnum \<Rightarrow> jsstring" where
  "change_text d = (if jle (Fin 0) d then tri_up else tri_down) @ js '' '' @ num_str (jabs d) @ js ''%''"

text \<open>The bounds of the range as the calls see them; an undefined bound is the text 'undefined' in
  the URL and no date.\<close>

definition bound_text :: "jsstring option \<Rightarrow> jsstring" where
  "bound_text v = nullish v (js ''undefined'')"

definition same_bounds :: "range_value \<Rightarrow> range_value \<Rightarrow> bool" where
  "same_bounds v w \<longleftrightarrow> rg_from v = rg_from w \<and> rg_to v = rg_to w"

text \<open>The period a page compares with lies directly before the selected one: it ends where that one
  begins and is as long, so that shifting again tiles the past without gaps; a window that has
  not been chosen yet (its bounds are unreadable) is compared with itself.\<close>

theorem previous_window_adjacent:
  assumes "reads_iso rd"
  shows "(rd frm = Some f \<and> rd to = Some t \<and> \<bar>f\<bar> \<le> max_time \<and> \<bar>f - (t - f)\<bar> \<le> max_time \<longrightarrow>
      (\<exists>a b p. shift_window rd frm to = Inr (a, b) \<and> rd b = Some f \<and> rd a = Some p \<and> f - p = t - f \<and>
         (\<bar>p - (t - f)\<bar> \<le> max_time \<longrightarrow> (\<exists>a'. shift_window rd a b = Inr (a', a) \<and> rd a' = Some (p - (t - f)))))) \<and>
    (rd frm = None \<or> rd to = None \<longrightarrow> shift_window rd frm to = Inr (frm, to))"
proof (intro conjI impI)
  have rd: "rd (iso_string u) = Some u" if "\<bar>u\<bar> \<le> max_time" for u using assms that by (simp add: reads_iso_def)
  assume h: "rd frm = Some f \<and> rd to = Some t \<and> \<bar>f\<bar> \<le> max_time \<and> \<bar>f - (t - f)\<bar> \<le> max_time"
  define p where "p = f - (t - f)"
  have s1: "shift_window rd frm to = Inr (iso_string p, iso_string f)"
    using h by (simp add: shift_window_def to_iso_def Let_def p_def)
  have b: "rd (iso_string f) = Some f" "rd (iso_string p) = Some p" using h rd [of f] rd [of p] by (simp_all add: p_def)
  have pt: "f - p = t - f" by (simp add: p_def)
  have s2: "shift_window rd (iso_string p) (iso_string f) = Inr (iso_string (p - (t - f)), iso_string p)"
    if "\<bar>p - (t - f)\<bar> \<le> max_time"
  proof -
    have "\<bar>p\<bar> \<le> max_time" "p - (t - f) = p - (f - p)" using h by (simp_all add: p_def)
    then show ?thesis using that b by (simp only: shift_window_def to_iso_def Let_def option.case prod.case sum.case if_True)
  qed
  show "\<exists>a b p. shift_window rd frm to = Inr (a, b) \<and> rd b = Some f \<and> rd a = Some p \<and> f - p = t - f \<and>
      (\<bar>p - (t - f)\<bar> \<le> max_time \<longrightarrow> (\<exists>a'. shift_window rd a b = Inr (a', a) \<and> rd a' = Some (p - (t - f))))"
    using s1 s2 b pt rd [of "p - (t - f)"] by blast
next
  assume "rd frm = None \<or> rd to = None"
  then show "shift_window rd frm to = Inr (frm, to)" by (auto simp: shift_window_def split: option.split)
qed

theorem previous_window_adjacent_witness:
  "\<exists>a. shift_window read_iso (iso_string 86400000) (iso_string 172800000) = Inr (a, iso_string 86400000) \<and>
     read_iso a = Some 0"
proof -
  have r: "read_iso (iso_string 86400000) = Some 86400000" "read_iso (iso_string 172800000) = Some 172800000"
    by (simp_all add: read_iso_iso_string max_time_def)
  obtain a b p where "shift_window read_iso (iso_string 86400000) (iso_string 172800000) = Inr (a, b)"
    "read_iso a = Some p" "86400000 - p = 172800000 - 86400000"
    using previous_window_adjacent [OF reads_iso_read_iso, of "iso_string 86400000" 86400000 "iso_string 172800000" 172800000] r
    by (auto simp: max_time_def)
  then show ?thesis using r by (simp add: shift_window_def to_iso_def Let_def max_time_def)
qed

subsection \<open>The sign and the size of a change\<close>

lemma fl64_not_NaN [simp]: "fl64 x \<noteq> NaN" "NaN \<noteq> fl64 x"
  by (simp_all add: fl64_def Let_def)

lemma jle_infs [simp]: "jle NInf (fl64 x)" "jle (fl64 x) PInf"
  by (simp_all add: fl64_def Let_def)

lemma jle_jdiv: "jle x x' \<Longrightarrow> 0 < y \<Longrightarrow> jle (jdiv x (Fin y)) (jdiv x' (Fin y))"
  by (cases x; cases x') (auto simp: inf_of_sign_def intro!: jle_fl64_mono divide_right_mono)

lemma jle_jmul: "jle x x' \<Longrightarrow> 0 < y \<Longrightarrow> jle (jmul x (Fin y)) (jmul x' (Fin y))"
  by (cases x; cases x') (auto simp: inf_of_sign_def intro!: jle_fl64_mono mult_right_mono)

lemma jle_jround: "jle x x' \<Longrightarrow> jle (jround x) (jround x')"
  by (cases x; cases x') (auto simp: jround_def jlift_def not_less intro!: floor_mono)

lemma delta_pct_mono:
  assumes "0 < p" "c \<le> c'" "delta_pct (Fin c) (Fin p) = Some d" "delta_pct (Fin c') (Fin p) = Some d'"
  shows "jle d d'"
proof -
  have "jle (jsub (Fin c) (Fin p)) (jsub (Fin c') (Fin p))"
    using assms(2) by (simp add: jsub_def jle_fl64_mono)
  then have "jle (jdiv (jround (jmul (jdiv (jsub (Fin c) (Fin p)) (Fin p)) (Fin 1000))) (Fin 10))
      (jdiv (jround (jmul (jdiv (jsub (Fin c') (Fin p)) (Fin p)) (Fin 1000))) (Fin 10))"
    using assms(1) by (intro jle_jdiv jle_jround jle_jmul) simp_all
  then show ?thesis using assms by (simp add: delta_pct_def)
qed

lemma round_ints: "\<lfloor>1 / 2 :: rat\<rfloor> = 0" "\<lfloor>- (1999 / 2) :: rat\<rfloor> = - 1000"
  by (rule floor_unique; simp)+

lemma fl64_ints: "fl64 0 = Fin 0" "fl64 (- 1) = Fin (- 1)" "fl64 (- 1000) = Fin (- 1000)" "fl64 (- 100) = Fin (- 100)"
  using fl64_int [of 0] fl64_int [of "- 1"] fl64_int [of "- 1000"] fl64_int [of "- 100"] by simp_all

lemma delta_pct_same: "0 < p \<Longrightarrow> delta_pct (Fin p) (Fin p) = Some (Fin 0)"
  by (simp add: delta_pct_def jsub_def jround_def jlift_def fl64_ints round_ints)

lemma delta_pct_none: "0 < p \<Longrightarrow> is_double p \<Longrightarrow> delta_pct (Fin 0) (Fin p) = Some (Fin (- 100))"
proof -
  assume p: "0 < p" "is_double p"
  have "is_double (- p)" using p(2) by (simp add: is_double_def fl_raw_minus)
  then have "jsub (Fin 0) (Fin p) = Fin (- p)" by (simp add: jsub_def fl64_double)
  then show ?thesis using p(1) by (simp add: delta_pct_def fl64_ints jround_def jlift_def round_ints)
qed

text \<open>The change shown against a previous value: with nothing before, 100 percent if there is
  something now and no badge otherwise; else it grows with the current value, is 0 for an
  unchanged value, not negative for a greater and not positive for a smaller one, and never
  below -100, which is what a drop to nothing shows.\<close>

theorem delta_pct_direction:
  assumes "0 < p" and "is_double p" and "0 \<le> c"
  shows "(\<exists>d. delta_pct (Fin c) (Fin p) = Some d \<and> (p \<le> c \<longrightarrow> jle (Fin 0) d) \<and> (c \<le> p \<longrightarrow> jle d (Fin 0)) \<and>
      jle (Fin (- 100)) d \<and> (c = p \<longrightarrow> d = Fin 0) \<and> (c = 0 \<longrightarrow> d = Fin (- 100))) \<and>
    (q \<le> 0 \<longrightarrow> delta_pct (Fin c) (Fin q) = (if 0 < c then Some (Fin 100) else None))"
proof (rule conjI)
  obtain d where d: "delta_pct (Fin c) (Fin p) = Some d" using assms(1) by (simp add: delta_pct_def)
  have up: "jle (Fin 0) d" if "p \<le> c" using delta_pct_mono [OF assms(1) that delta_pct_same [OF assms(1)] d] .
  have down: "jle d (Fin 0)" if "c \<le> p" using delta_pct_mono [OF assms(1) that d delta_pct_same [OF assms(1)]] .
  have low: "jle (Fin (- 100)) d" using delta_pct_mono [OF assms(1,3) delta_pct_none [OF assms(1,2)] d] .
  show "\<exists>d. delta_pct (Fin c) (Fin p) = Some d \<and> (p \<le> c \<longrightarrow> jle (Fin 0) d) \<and> (c \<le> p \<longrightarrow> jle d (Fin 0)) \<and>
      jle (Fin (- 100)) d \<and> (c = p \<longrightarrow> d = Fin 0) \<and> (c = 0 \<longrightarrow> d = Fin (- 100))"
    using d up down low delta_pct_same [OF assms(1)] delta_pct_none [OF assms(1,2)] by auto
  show "q \<le> 0 \<longrightarrow> delta_pct (Fin c) (Fin q) = (if 0 < c then Some (Fin 100) else None)"
    by (simp add: delta_pct_def)
qed

theorem delta_pct_direction_witness:
  "\<exists>d. delta_pct (Fin 3) (Fin 4) = Some d \<and> jle d (Fin 0) \<and> jle (Fin (- 100)) d"
  using delta_pct_direction [of 4 3] is_double_def fl_raw_int [of 4] pow2_mono [of 3 1024] by (auto simp: pow2_def)

section \<open>Rows within a picked range\<close>

lemma iso_string_not_empty: "iso_string t \<noteq> []"
  by (simp add: iso_string_def Let_def js_def)

lemma time_in_ms_range:
  assumes "reads_iso rd" "\<bar>fst r\<bar> \<le> max_time" "\<bar>snd r\<bar> \<le> max_time"
  shows "time_in_range rd (ms_range md r) x \<longleftrightarrow> (\<exists>ts. rd x = Some ts \<and> fst r \<le> ts \<and> ts \<le> snd r)"
  using assms iso_string_not_empty
  by (auto simp: time_in_range_def ms_range_def reads_iso_def truthy_str_def split: option.split)

end
