(* ===== verification/Grouping.thy ===== *)
theory Grouping
  imports Sorting
begin

text \<open>
  Objects used as dictionaries (\<open>const merged: Record<string, T> = \{\}\<close>): an own property per key in
  creation order, the order in which Object.entries lists them, the keys every object inherits, and
  the idiom that creates a missing entry and then updates it. Its fold over rows is grouping: each
  key holds the fold over its own rows. Rows are then sorted by the comparator
  \<open>(a, b) => b.f - a.f\<close>.
\<close>

section \<open>Dictionaries\<close>

type_synonym 'a dict = "(jsstring \<times> 'a) list"

text \<open>The string keys of Object.prototype: reading one of them finds an inherited value.\<close>

definition proto_keys :: "jsstring list" where
  "proto_keys = map js [''constructor'', ''__defineGetter__'', ''__defineSetter__'', ''hasOwnProperty'',
     ''__lookupGetter__'', ''__lookupSetter__'', ''isPrototypeOf'', ''propertyIsEnumerable'', ''toString'',
     ''valueOf'', ''__proto__'', ''toLocaleString'']"

text \<open>\<open>if (!d[k]) d[k] = z; d[k] = f(d[k])\<close> for an own or a new key.\<close>

primrec upsert :: "jsstring \<Rightarrow> 'a \<Rightarrow> ('a \<Rightarrow> 'a) \<Rightarrow> 'a dict \<Rightarrow> 'a dict" where
  "upsert k z f [] = [(k, f z)]"
| "upsert k z f (e # es) = (if fst e = k then (k, f (snd e)) # es else e # upsert k z f es)"

text \<open>An array index: a decimal number below 2^32 - 1 without leading zeros. Object.entries lists
  these first, in ascending order, then the other keys as they were created.\<close>

definition array_index :: "jsstring \<Rightarrow> bool" where
  "array_index s \<longleftrightarrow> s \<noteq> [] \<and> list_all is_digit s \<and> (hd s = 48 \<longrightarrow> s = [48]) \<and> num_of_digits s < 4294967295"

definition object_entries :: "'a dict \<Rightarrow> 'a dict" where
  "object_entries d = linorder_class.sort_key (\<lambda>e. num_of_digits (fst e)) (filter (\<lambda>e. array_index (fst e)) d) @
     filter (\<lambda>e. \<not> array_index (fst e)) d"

definition group_fold :: "('r \<Rightarrow> jsstring) \<Rightarrow> 'a \<Rightarrow> ('r \<Rightarrow> 'a \<Rightarrow> 'a) \<Rightarrow> 'r list \<Rightarrow> 'a dict \<Rightarrow> 'a dict" where
  "group_fold key z upd rows d = fold (\<lambda>r. upsert (key r) z (upd r)) rows d"

lemma map_of_upsert: "map_of (upsert k z f d) = (map_of d)(k \<mapsto> f (nullish (map_of d k) z))"
  by (induction d) (auto simp: fun_eq_iff)

lemma keys_upsert: "fst ` set (upsert k z f d) = insert k (fst ` set d)"
  by (induction d) auto

lemma distinct_upsert: "distinct (map fst d) \<Longrightarrow> distinct (map fst (upsert k z f d))"
proof (induction d)
  case (Cons e d)
  then show ?case using keys_upsert [of k z f d] by (auto simp: image_iff)
qed simp

lemma keys_group_fold: "fst ` set (group_fold key z upd rows d) = fst ` set d \<union> key ` set rows"
  by (induction rows arbitrary: d) (auto simp: group_fold_def keys_upsert)

lemma distinct_group_fold: "distinct (map fst d) \<Longrightarrow> distinct (map fst (group_fold key z upd rows d))"
  by (induction rows arbitrary: d) (simp_all add: group_fold_def distinct_upsert)

text \<open>Each key holds the fold over the rows of that key, from what it held before.\<close>

lemma map_of_group_fold:
  "map_of (group_fold key z upd rows d) k =
     (if k \<in> key ` set rows then Some (fold upd (filter (\<lambda>r. key r = k) rows) (nullish (map_of d k) z))
      else map_of d k)"
proof (induction rows arbitrary: d)
  case (Cons r rows)
  have "map_of (group_fold key z upd (r # rows) d) k =
      map_of (group_fold key z upd rows (upsert (key r) z (upd r) d)) k"
    by (simp add: group_fold_def)
  moreover have "key r \<notin> key ` set rows \<Longrightarrow> filter (\<lambda>x. key x = key r) rows = []"
    by (auto simp: filter_empty_conv) (metis imageI)
  ultimately show ?case unfolding Cons.IH by (auto simp: map_of_upsert)
qed (simp add: group_fold_def)

lemma mset_object_entries [simp]: "mset (object_entries d) = mset d"
  by (simp add: object_entries_def)

lemma set_object_entries [simp]: "set (object_entries d) = set d"
  by (metis mset_object_entries set_mset_mset)

lemma distinct_object_entries: "distinct (map fst d) \<Longrightarrow> distinct (map fst (object_entries d))"
  by (metis mset_object_entries mset_map mset_eq_imp_distinct_iff)

section \<open>Descending by a number\<close>

text \<open>\<open>(a, b) => b.f - a.f\<close>; a NaN counts as a tie.\<close>

definition desc_cmp :: "('a \<Rightarrow> jsnum) \<Rightarrow> 'a \<Rightarrow> 'a \<Rightarrow> int" where
  "desc_cmp f a b = (let d = jsub (f b) (f a) in if jlt d (Fin 0) then - 1 else if jlt (Fin 0) d then 1 else 0)"

definition double_num :: "jsnum \<Rightarrow> bool" where
  "double_num n \<longleftrightarrow> (case n of Fin r \<Rightarrow> is_double r | _ \<Rightarrow> False)"

lemma double_numE: "double_num n \<Longrightarrow> (\<And>r. n = Fin r \<Longrightarrow> is_double r \<Longrightarrow> thesis) \<Longrightarrow> thesis"
  by (cases n) (auto simp: double_num_def)

lemma double_num_fl64: "is_finite (fl64 x) \<Longrightarrow> double_num (fl64 x)"
  using fl64_is_double by (cases "fl64 x") (auto simp: double_num_def)

lemma sign_fl64: "jlt (Fin 0) (fl64 z) \<longleftrightarrow> 0 < fl_raw z" "jlt (fl64 z) (Fin 0) \<longleftrightarrow> fl_raw z < 0"
  using pow2_pos [of 1024] by (auto simp: fl64_def Let_def simp del: pow2_pos)

lemma sign_jsub:
  assumes "is_double x" "is_double y"
  shows "jlt (Fin 0) (jsub (Fin x) (Fin y)) \<longleftrightarrow> y < x" and "jlt (jsub (Fin x) (Fin y)) (Fin 0) \<longleftrightarrow> x < y"
proof -
  have m: "fl_raw (x - y) = - fl_raw (y - x)" using fl_raw_minus [of "y - x"] by simp
  have d: "jsub (Fin x) (Fin y) = fl64 (x - y)" by (simp add: jsub_def)
  consider "x = y" | "y < x" "0 < fl_raw (x - y)" | "x < y" "0 < fl_raw (y - x)"
    using assms fl_raw_diff_pos [of x y] fl_raw_diff_pos [of y x] unfolding is_double_def by (metis linorder_neqE)
  then show "jlt (Fin 0) (jsub (Fin x) (Fin y)) \<longleftrightarrow> y < x" "jlt (jsub (Fin x) (Fin y)) (Fin 0) \<longleftrightarrow> x < y"
    unfolding d sign_fl64 by (cases; use m in simp)+
qed

lemma desc_cmp_doubles:
  "f a = Fin x \<Longrightarrow> f b = Fin y \<Longrightarrow> is_double x \<Longrightarrow> is_double y \<Longrightarrow>
   desc_cmp f a b = (if y < x then - 1 else if x < y then 1 else 0)"
  using sign_jsub [of y x] by (simp add: desc_cmp_def Let_def)

lemma consistent_cong:
  "consistent_comparator cmp S \<Longrightarrow> (\<And>x y. x \<in> S \<Longrightarrow> y \<in> S \<Longrightarrow> cmp' x y = cmp x y) \<Longrightarrow>
   consistent_comparator cmp' S"
  unfolding consistent_comparator_def by metis

lemma desc_consistent:
  assumes "\<And>x. x \<in> S \<Longrightarrow> double_num (f x)"
  shows "consistent_comparator (desc_cmp f) S"
proof -
  define g where "g x = (case f x of Fin r \<Rightarrow> r | _ \<Rightarrow> 0)" for x
  have g: "f x = Fin (g x) \<and> is_double (g x)" if "x \<in> S" for x
    using assms [OF that] by (cases "f x") (simp_all add: double_num_def g_def)
  then have "desc_cmp f x y = (if g y < g x then - 1 else if g x < g y then 1 else 0)" if "x \<in> S" "y \<in> S" for x y
    using that desc_cmp_doubles [of f x "g x" y "g y"] by simp
  then have eq: "desc_cmp f x y = three_way g 1 x y" if "x \<in> S" "y \<in> S" for x y
    using that by (simp add: three_way_def)
  have "consistent_comparator (three_way g 1) S" by (rule three_way_consistent) simp
  then show ?thesis by (rule consistent_cong) (simp add: eq)
qed

text \<open>Any engine sorts distinct rows with doubles in descending order.\<close>

lemma desc_sort:
  assumes e: "engine_sort srt" and d: "distinct xs" and f: "\<And>x. x \<in> set xs \<Longrightarrow> double_num (f x)"
  shows "srt (desc_cmp f) xs = array_sort (desc_cmp f) xs"
    and "mset (srt (desc_cmp f) xs) = mset xs"
    and "sorted_wrt (\<lambda>x y. jle (f y) (f x)) (srt (desc_cmp f) xs)"
proof -
  note c = desc_consistent [where f = f and S = "set xs", OF f]
  show eq: "srt (desc_cmp f) xs = array_sort (desc_cmp f) xs" using e d c unfolding engine_sort_def by blast
  show m: "mset (srt (desc_cmp f) xs) = mset xs" using e by (simp add: engine_sort_def)
  have "sorted_wrt (\<lambda>x y. desc_cmp f x y \<le> 0) (srt (desc_cmp f) xs)"
    unfolding eq by (rule consistent_comparator.ordered_array_sort [OF c subset_refl])
  then show "sorted_wrt (\<lambda>x y. jle (f y) (f x)) (srt (desc_cmp f) xs)"
  proof (rule sorted_wrt_mono_rel [rotated])
    fix x y
    assume "x \<in> set (srt (desc_cmp f) xs)" "y \<in> set (srt (desc_cmp f) xs)" and le: "desc_cmp f x y \<le> 0"
    then have "double_num (f x)" "double_num (f y)" using f m by (metis set_mset_mset)+
    then obtain a b where "f x = Fin a" "f y = Fin b" "is_double a" "is_double b" by (metis double_numE)
    then show "jle (f y) (f x)" using le desc_cmp_doubles [of f x a y b] by (auto split: if_splits)
  qed
qed

section \<open>Sums\<close>

text \<open>\<open>n || 0\<close>\<close>

definition num_or0 :: "jsnum \<Rightarrow> jsnum" where
  "num_or0 n = (if truthy_num n then n else Fin 0)"

definition jsum :: "jsnum list \<Rightarrow> jsnum \<Rightarrow> jsnum" where
  "jsum ns z = fold (\<lambda>n a. jadd a (num_or0 n)) ns z"

lemma num_or0_Fin [simp]: "num_or0 (Fin r) = Fin r"
  by (simp add: num_or0_def truthy_num_def)

text \<open>Sums of whole numbers up to 2^53 are exact.\<close>

lemma jsum_nats:
  "(\<Sum>n\<leftarrow>ns. n) + z \<le> 2 ^ 53 \<Longrightarrow> jsum (map (\<lambda>n. Fin (of_nat n)) ns) (Fin (of_nat z)) = Fin (of_nat ((\<Sum>n\<leftarrow>ns. n) + z))"
proof (induction ns arbitrary: z)
  case (Cons n ns)
  have "fl64 (of_int (int (z + n))) = Fin (of_int (int (z + n)))" using Cons.prems by (intro fl64_int) simp
  then have "jadd (Fin (of_nat z)) (Fin (of_nat n)) = Fin (of_nat (z + n))" by simp
  then show ?case using Cons.IH [of "z + n"] Cons.prems by (simp add: jsum_def add.assoc add.left_commute)
qed (simp add: jsum_def)

lemma jadd_double: "is_finite (jadd a b) \<Longrightarrow> double_num (jadd a b)"
  by (cases a; cases b) (auto intro: double_num_fl64)

lemma jsum_double: "double_num z \<Longrightarrow> is_finite (jsum ns z) \<Longrightarrow> double_num (jsum ns z)"
proof (induction ns rule: rev_induct)
  case (snoc n ns)
  then show ?case by (simp add: jsum_def jadd_double)
qed (simp add: jsum_def)

end
