(* ===== verification/Analytics.thy ===== *)
theory Analytics
  imports PageBase Windows Grouping
begin

text \<open>
  ui/src/pages/Analytics.tsx: the usage of a period against the period before it, by day, by model
  and by tenant. \<open>rd\<close> reads a date string, \<open>srt\<close> is the engine's Array.prototype.sort, \<open>ser\<close> is
  JSON.stringify on ranges. In an answer, an absent list is read as an empty one and an absent
  number as 0, as every use of it does.
\<close>

section \<open>Rows by model and by tenant\<close>

record model_acc =
  ma_tenants :: "jsstring list"
  ma_input :: jsnum
  ma_output :: jsnum
  ma_requests :: jsnum
  ma_cost :: jsnum

record model_row =
  mr_model :: jsstring
  mr_tenants :: nat
  mr_input :: jsnum
  mr_output :: jsnum
  mr_sum :: jsnum
  mr_requests :: jsnum
  mr_cost :: jsnum

record tenant_acc =
  ta_cost :: jsnum
  ta_requests :: jsnum

record tenant_row = tenant_acc +
  tn_tenant :: jsstring

definition model_acc0 :: model_acc where
  "model_acc0 = \<lparr>ma_tenants = [], ma_input = Fin 0, ma_output = Fin 0, ma_requests = Fin 0, ma_cost = Fin 0\<rparr>"

text \<open>\<open>r.model || 'unknown'\<close>; a Set keeps its values in the order they were added.\<close>

definition model_key :: "jsstring \<Rightarrow> jsstring" where
  "model_key m = str_or m (js ''unknown'')"

definition set_add :: "'a \<Rightarrow> 'a list \<Rightarrow> 'a list" where
  "set_add x xs = (if x \<in> set xs then xs else xs @ [x])"

definition add_tokens :: "token_record \<Rightarrow> model_acc \<Rightarrow> model_acc" where
  "add_tokens r a = a\<lparr>ma_input := jadd (ma_input a) (num_or0 (tok_total_input r)),
     ma_output := jadd (ma_output a) (num_or0 (tok_total_output r)),
     ma_tenants := set_add (tok_tenant_id r) (ma_tenants a)\<rparr>"

definition add_cost :: "cost_record \<Rightarrow> model_acc \<Rightarrow> model_acc" where
  "add_cost r a = a\<lparr>ma_requests := jadd (ma_requests a) (num_or0 (cost_request_count r)),
     ma_cost := jadd (ma_cost a) (num_or0 (cost_total r)),
     ma_tenants := set_add (cost_tenant_id r) (ma_tenants a)\<rparr>"

text \<open>A model that has the name of an inherited property is never created: the first record of it
  reads \<open>merged[m].tenants.add\<close> on the inherited value and throws.\<close>

definition merged_models :: "token_record list \<Rightarrow> cost_record list \<Rightarrow> js_error + model_acc dict" where
  "merged_models toks costs =
    (if (\<exists>r \<in> set toks. model_key (tok_model r) \<in> set proto_keys) \<or> (\<exists>r \<in> set costs. model_key (cost_model r) \<in> set proto_keys)
     then Inl (TypeErr (js ''Cannot read properties of undefined (reading 'add')''))
     else Inr (group_fold (\<lambda>r. model_key (cost_model r)) model_acc0 add_cost costs
       (group_fold (\<lambda>r. model_key (tok_model r)) model_acc0 add_tokens toks [])))"

definition row_of_model :: "jsstring \<times> model_acc \<Rightarrow> model_row" where
  "row_of_model e = (case e of (m, v) \<Rightarrow> \<lparr>mr_model = m, mr_tenants = length (ma_tenants v), mr_input = ma_input v,
     mr_output = ma_output v, mr_sum = jadd (ma_input v) (ma_output v), mr_requests = ma_requests v, mr_cost = ma_cost v\<rparr>)"

definition model_rows :: "((model_row \<Rightarrow> model_row \<Rightarrow> int) \<Rightarrow> model_row list \<Rightarrow> model_row list) \<Rightarrow>
    token_record list \<Rightarrow> cost_record list \<Rightarrow> js_error + model_row list" where
  "model_rows srt toks costs = (case merged_models toks costs of Inl e \<Rightarrow> Inl e
     | Inr d \<Rightarrow> Inr (srt (desc_cmp mr_cost) (map row_of_model (object_entries d))))"

definition add_tenant_cost :: "cost_record \<Rightarrow> tenant_acc \<Rightarrow> tenant_acc" where
  "add_tenant_cost r a = a\<lparr>ta_cost := jadd (ta_cost a) (num_or0 (cost_total r)),
     ta_requests := jadd (ta_requests a) (num_or0 (cost_request_count r))\<rparr>"

text \<open>Here an inherited key does not throw: the sums go to the inherited value, and no row appears.\<close>

definition tenant_rows :: "((tenant_row \<Rightarrow> tenant_row \<Rightarrow> int) \<Rightarrow> tenant_row list \<Rightarrow> tenant_row list) \<Rightarrow>
    cost_record list \<Rightarrow> tenant_row list" where
  "tenant_rows srt costs = srt (desc_cmp ta_cost)
     (map (\<lambda>(t, v). \<lparr>ta_cost = ta_cost v, ta_requests = ta_requests v, tn_tenant = t\<rparr>)
       (object_entries (group_fold cost_tenant_id \<lparr>ta_cost = Fin 0, ta_requests = Fin 0\<rparr> add_tenant_cost
         (filter (\<lambda>r. cost_tenant_id r \<notin> set proto_keys) costs) [])))"

subsection \<open>What the rows hold\<close>

lemma set_set_add [simp]: "set (set_add x xs) = insert x (set xs)"
  by (auto simp: set_add_def)

lemma distinct_set_add: "distinct xs \<Longrightarrow> distinct (set_add x xs)"
  by (simp add: set_add_def)

lemma set_adds: "set (fold set_add ys xs) = set xs \<union> set ys"
  by (induction ys arbitrary: xs) auto

lemma distinct_set_adds: "distinct xs \<Longrightarrow> distinct (fold set_add ys xs)"
  by (induction ys arbitrary: xs) (simp_all add: distinct_set_add)

lemma jsum_Cons: "jsum (n # ns) z = jsum ns (jadd z (num_or0 n))"
  by (simp add: jsum_def)

lemma fold_add_tokens: "fold add_tokens rs a =
  a\<lparr>ma_input := jsum (map tok_total_input rs) (ma_input a), ma_output := jsum (map tok_total_output rs) (ma_output a),
    ma_tenants := fold set_add (map tok_tenant_id rs) (ma_tenants a)\<rparr>"
  by (induction rs arbitrary: a) (simp_all add: add_tokens_def jsum_Cons, simp add: jsum_def)

lemma fold_add_cost: "fold add_cost rs a =
  a\<lparr>ma_requests := jsum (map cost_request_count rs) (ma_requests a), ma_cost := jsum (map cost_total rs) (ma_cost a),
    ma_tenants := fold set_add (map cost_tenant_id rs) (ma_tenants a)\<rparr>"
  by (induction rs arbitrary: a) (simp_all add: add_cost_def jsum_Cons, simp add: jsum_def)

definition tokens_of :: "jsstring \<Rightarrow> token_record list \<Rightarrow> token_record list" where
  "tokens_of m toks = filter (\<lambda>r. model_key (tok_model r) = m) toks"

definition costs_of :: "jsstring \<Rightarrow> cost_record list \<Rightarrow> cost_record list" where
  "costs_of m costs = filter (\<lambda>r. model_key (cost_model r) = m) costs"

lemma of_none: "m \<notin> (\<lambda>r. model_key (tok_model r)) ` set toks \<Longrightarrow> tokens_of m toks = []"
  "m \<notin> (\<lambda>r. model_key (cost_model r)) ` set costs \<Longrightarrow> costs_of m costs = []"
  by (auto simp: tokens_of_def costs_of_def filter_empty_conv)

lemma model_accs_distinct:
  "distinct (map fst (group_fold (\<lambda>r. model_key (cost_model r)) model_acc0 add_cost costs
     (group_fold (\<lambda>r. model_key (tok_model r)) model_acc0 add_tokens toks [])))"
  by (intro distinct_group_fold) simp

text \<open>The accumulator of a model, as folds over its records.\<close>

lemma model_acc_of:
  assumes "(m, v) \<in> set (group_fold (\<lambda>r. model_key (cost_model r)) model_acc0 add_cost costs
     (group_fold (\<lambda>r. model_key (tok_model r)) model_acc0 add_tokens toks []))"
  shows "v = fold add_cost (costs_of m costs) (fold add_tokens (tokens_of m toks) model_acc0)"
proof -
  have e: "map_of (group_fold (\<lambda>r. model_key (tok_model r)) model_acc0 add_tokens toks []) m =
      (if m \<in> (\<lambda>r. model_key (tok_model r)) ` set toks then Some (fold add_tokens (tokens_of m toks) model_acc0) else None)"
    by (simp add: map_of_group_fold tokens_of_def)
  have "map_of (group_fold (\<lambda>r. model_key (cost_model r)) model_acc0 add_cost costs
     (group_fold (\<lambda>r. model_key (tok_model r)) model_acc0 add_tokens toks [])) m = Some v"
    using assms model_accs_distinct by (intro map_of_is_SomeI)
  then show ?thesis using e of_none(1) [of m toks] of_none(2) [of m costs]
    by (auto simp: map_of_group_fold [where rows = costs] costs_of_def split: if_splits)
qed

definition no_proto :: "token_record list \<Rightarrow> cost_record list \<Rightarrow> bool" where
  "no_proto toks costs \<longleftrightarrow> (\<forall>r \<in> set toks. model_key (tok_model r) \<notin> set proto_keys) \<and>
     (\<forall>r \<in> set costs. model_key (cost_model r) \<notin> set proto_keys)"

lemma model_row_fields:
  assumes "(m, v) \<in> set (group_fold (\<lambda>r. model_key (cost_model r)) model_acc0 add_cost costs
     (group_fold (\<lambda>r. model_key (tok_model r)) model_acc0 add_tokens toks []))"
  shows "row_of_model (m, v) = \<lparr>mr_model = m,
      mr_tenants = card (tok_tenant_id ` set (tokens_of m toks) \<union> cost_tenant_id ` set (costs_of m costs)),
      mr_input = jsum (map tok_total_input (tokens_of m toks)) (Fin 0),
      mr_output = jsum (map tok_total_output (tokens_of m toks)) (Fin 0),
      mr_sum = jadd (jsum (map tok_total_input (tokens_of m toks)) (Fin 0)) (jsum (map tok_total_output (tokens_of m toks)) (Fin 0)),
      mr_requests = jsum (map cost_request_count (costs_of m costs)) (Fin 0),
      mr_cost = jsum (map cost_total (costs_of m costs)) (Fin 0)\<rparr>"
proof -
  let ?ts = "fold set_add (map cost_tenant_id (costs_of m costs)) (fold set_add (map tok_tenant_id (tokens_of m toks)) [])"
  have "distinct ?ts" by (simp add: distinct_set_adds)
  then have "length ?ts = card (set ?ts)" by (simp add: distinct_card)
  also have "set ?ts = tok_tenant_id ` set (tokens_of m toks) \<union> cost_tenant_id ` set (costs_of m costs)"
    by (simp add: set_adds)
  finally show ?thesis
    unfolding model_acc_of [OF assms] by (simp add: row_of_model_def fold_add_cost fold_add_tokens model_acc0_def)
qed

text \<open>What a row holds: the sums over the records of its model and the number of their tenants.\<close>

definition row_totals :: "token_record list \<Rightarrow> cost_record list \<Rightarrow> model_row \<Rightarrow> bool" where
  "row_totals toks costs w \<longleftrightarrow>
     mr_input w = jsum (map tok_total_input (tokens_of (mr_model w) toks)) (Fin 0) \<and>
     mr_output w = jsum (map tok_total_output (tokens_of (mr_model w) toks)) (Fin 0) \<and>
     mr_sum w = jadd (mr_input w) (mr_output w) \<and>
     mr_requests w = jsum (map cost_request_count (costs_of (mr_model w) costs)) (Fin 0) \<and>
     mr_cost w = jsum (map cost_total (costs_of (mr_model w) costs)) (Fin 0) \<and>
     mr_tenants w = card (tok_tenant_id ` set (tokens_of (mr_model w) toks) \<union> cost_tenant_id ` set (costs_of (mr_model w) costs))"

text \<open>C8. The table by model: unless a model has the name of a property every object inherits, in which
  case the page throws, there is one row for each model that occurs, holding the sums over its own
  records and the number of its distinct tenants; the rows are ordered by descending cost when no
  cost overflows.\<close>

theorem model_rows_correct:
  assumes e: "engine_sort srt"
  shows "(\<not> no_proto toks costs \<longleftrightarrow> (\<exists>err. model_rows srt toks costs = Inl err)) \<and>
    (\<forall>rows. model_rows srt toks costs = Inr rows \<longrightarrow>
       distinct (map mr_model rows) \<and>
       mr_model ` set rows = (\<lambda>r. model_key (tok_model r)) ` set toks \<union> (\<lambda>r. model_key (cost_model r)) ` set costs \<and>
       (\<forall>w \<in> set rows. row_totals toks costs w) \<and>
       ((\<forall>w \<in> set rows. is_finite (mr_cost w)) \<longrightarrow> sorted_wrt (\<lambda>x y. jle (mr_cost y) (mr_cost x)) rows))"
proof (intro conjI allI impI)
  show "\<not> no_proto toks costs \<longleftrightarrow> (\<exists>err. model_rows srt toks costs = Inl err)"
    by (auto simp: model_rows_def merged_models_def no_proto_def split: sum.split)
  fix rows
  assume rows: "model_rows srt toks costs = Inr rows"
  define d where "d = group_fold (\<lambda>r. model_key (cost_model r)) model_acc0 add_cost costs
     (group_fold (\<lambda>r. model_key (tok_model r)) model_acc0 add_tokens toks [])"
  define xs where "xs = map row_of_model (object_entries d)"
  have r: "rows = srt (desc_cmp mr_cost) xs"
    using rows by (auto simp: model_rows_def merged_models_def d_def xs_def split: sum.splits if_splits)
  have m: "mset rows = mset xs" using e by (simp add: r engine_sort_def)
  have st: "set rows = row_of_model ` set d" using m by (metis mset_eq_setD set_map set_object_entries xs_def)
  have fst: "mr_model (row_of_model p) = fst p" for p by (simp add: row_of_model_def split: prod.split)
  have dx: "distinct (map mr_model xs)"
  proof -
    have "map mr_model xs = map fst (object_entries d)" by (simp add: xs_def fst)
    then show ?thesis using model_accs_distinct by (simp add: d_def distinct_object_entries)
  qed
  then show "distinct (map mr_model rows)" using m by (metis mset_map mset_eq_imp_distinct_iff)
  have "mr_model ` set rows = fst ` set d" by (simp add: st image_image fst)
  then show "mr_model ` set rows = (\<lambda>r. model_key (tok_model r)) ` set toks \<union> (\<lambda>r. model_key (cost_model r)) ` set costs"
    by (simp add: d_def keys_group_fold)
  have totals: "row_totals toks costs w" if w: "w \<in> set rows" for w
  proof -
    obtain q v where "(q, v) \<in> set d" "w = row_of_model (q, v)" using w unfolding st by auto
    then show ?thesis using model_row_fields [of q v costs toks] by (simp add: d_def row_totals_def)
  qed
  then show "\<forall>w \<in> set rows. row_totals toks costs w" by simp
  show "sorted_wrt (\<lambda>x y. jle (mr_cost y) (mr_cost x)) rows" if fin: "\<forall>w \<in> set rows. is_finite (mr_cost w)"
    unfolding r
  proof (rule desc_sort(3) [OF e])
    show "distinct xs" using dx by (simp add: distinct_map)
    fix w
    assume "w \<in> set xs"
    then have w: "w \<in> set rows" using m by (metis mset_eq_setD)
    have "double_num (Fin 0)" by (simp add: double_num_def is_double_def)
    moreover have "mr_cost w = jsum (map cost_total (costs_of (mr_model w) costs)) (Fin 0)"
      using totals [OF w] by (simp add: row_totals_def)
    ultimately show "double_num (mr_cost w)" using fin w jsum_double by metis
  qed
qed

definition demo_cost :: "string \<Rightarrow> string \<Rightarrow> rat \<Rightarrow> cost_record" where
  "demo_cost t m c = \<lparr>cost_tenant_id = js t, cost_model = js m, cost_total = Fin c, cost_request_count = Fin 1,
     cost_currency = None, cost_period_start = [], cost_period_end = []\<rparr>"

theorem model_rows_correct_witness:
  "\<exists>rows w. model_rows array_sort [] [demo_cost ''a'' ''m'' 2, demo_cost ''b'' [] 1, demo_cost ''b'' ''m'' 3] = Inr rows \<and>
     w \<in> set rows \<and> mr_model w = js ''m'' \<and> mr_cost w = Fin 5 \<and> mr_tenants w = 2"
proof -
  let ?cs = "[demo_cost ''a'' ''m'' 2, demo_cost ''b'' [] 1, demo_cost ''b'' ''m'' 3]"
  have np: "no_proto [] ?cs" by code_simp
  note all = model_rows_correct [OF engine_sort_array_sort, of "[]" ?cs]
  obtain rows where rows: "model_rows array_sort [] ?cs = Inr rows"
    using all np by (cases "model_rows array_sort [] ?cs") auto
  have "js ''m'' \<in> (\<lambda>r. model_key (cost_model r)) ` set ?cs" by (auto simp: demo_cost_def model_key_def str_or_def)
  then have "js ''m'' \<in> mr_model ` set rows" using all [THEN conjunct2, rule_format, OF rows, THEN conjunct2, THEN conjunct1]
    by simp
  then obtain w where w: "w \<in> set rows" "mr_model w = js ''m''" by auto
  then have "row_totals [] ?cs w" using all rows by blast
  then have f: "mr_cost w = jsum (map cost_total (costs_of (js ''m'') ?cs)) (Fin 0)"
    "mr_tenants w = card (cost_tenant_id ` set (costs_of (js ''m'') ?cs))" using w(2) by (simp_all add: row_totals_def tokens_of_def)
  have cs: "costs_of (js ''m'') ?cs = [demo_cost ''a'' ''m'' 2, demo_cost ''b'' ''m'' 3]"
    by (simp add: costs_of_def demo_cost_def model_key_def str_or_def) 
  have "jsum [Fin 2, Fin 3] (Fin 0) = Fin 5" using jsum_nats [of "[2, 3]" 0] by simp
  then have "mr_cost w = Fin 5" "mr_tenants w = 2" unfolding f cs by (simp_all add: demo_cost_def)
  then show ?thesis using rows w by blast
qed

subsection \<open>Nothing is lost between the answer and the table\<close>

lemma sum_by_key:
  fixes f :: "'r \<Rightarrow> nat"
  assumes "finite M" "key ` set rs \<subseteq> M"
  shows "(\<Sum>m \<in> M. sum_list (map f (filter (\<lambda>r. key r = m) rs))) = sum_list (map f rs)"
  using assms
proof (induction rs)
  case (Cons r rs)
  have "(\<Sum>m \<in> M. sum_list (map f (filter (\<lambda>x. key x = m) (r # rs)))) =
      (\<Sum>m \<in> M. (if m = key r then f r else 0) + sum_list (map f (filter (\<lambda>x. key x = m) rs)))"
    by (intro sum.cong) auto
  also have "\<dots> = f r + sum_list (map f rs)" using Cons by (simp add: sum.distrib)
  finally show ?case by simp
qed simp

lemma sum_list_filter_le: "sum_list (map f (filter P rs)) \<le> sum_list (map f rs :: nat list)"
  by (induction rs) auto

text \<open>With whole token counts whose total is at most 2^53, the input column of the table by model adds
  up to the input tokens of the answer: every record is counted in exactly one row, exactly.\<close>

theorem model_rows_conserve_tokens:
  assumes e: "engine_sort srt" and rows: "model_rows srt toks costs = Inr rows"
    and nats: "\<forall>r \<in> set toks. tok_total_input r = Fin (of_nat (n r))"
    and bound: "sum_list (map n toks) \<le> 2 ^ 53"
  shows "\<exists>c. (\<forall>w \<in> set rows. mr_input w = Fin (of_nat (c (mr_model w)))) \<and>
    sum_list (map (\<lambda>w. c (mr_model w)) rows) = sum_list (map n toks)"
proof -
  note all = model_rows_correct [OF e, of toks costs, THEN conjunct2, rule_format, OF rows]
  define c where "c m = sum_list (map n (tokens_of m toks))" for m
  have "mr_input w = Fin (of_nat (c (mr_model w)))" if "w \<in> set rows" for w
  proof -
    let ?ts = "tokens_of (mr_model w) toks"
    have eq: "map tok_total_input ?ts = map (\<lambda>k. Fin (of_nat k)) (map n ?ts)"
      using nats by (simp add: tokens_of_def)
    have "sum_list (map n ?ts) \<le> 2 ^ 53"
      using sum_list_filter_le [of n "\<lambda>r. model_key (tok_model r) = mr_model w" toks] bound by (simp add: tokens_of_def)
    moreover have "mr_input w = jsum (map tok_total_input ?ts) (Fin 0)" using all that by (simp add: row_totals_def)
    ultimately show ?thesis using jsum_nats [of "map n ?ts" 0] unfolding eq by (simp add: c_def)
  qed
  moreover have "sum_list (map (\<lambda>w. c (mr_model w)) rows) = sum_list (map n toks)"
  proof -
    have "sum_list (map (\<lambda>w. c (mr_model w)) rows) = (\<Sum>m \<in> mr_model ` set rows. c m)"
    proof -
      have "distinct rows" "inj_on mr_model (set rows)" using all by (simp_all add: distinct_map)
      then show ?thesis by (simp add: sum_list_distinct_conv_sum_set sum.reindex)
    qed
    also have "\<dots> = sum_list (map n toks)"
      unfolding c_def tokens_of_def using all by (intro sum_by_key) auto
    finally show ?thesis .
  qed
  ultimately show ?thesis by blast
qed

definition demo_tokens :: "string \<Rightarrow> string \<Rightarrow> nat \<Rightarrow> token_record" where
  "demo_tokens t m k = \<lparr>tok_tenant_id = js t, tok_model = js m, tok_total_input = Fin (of_nat k), tok_total_output = Fin 0,
     tok_period_start = [], tok_period_end = []\<rparr>"

theorem model_rows_conserve_tokens_witness:
  "\<exists>rows c. model_rows array_sort [demo_tokens ''a'' ''m'' 3, demo_tokens ''b'' ''n'' 4, demo_tokens ''c'' ''m'' 5] [] = Inr rows \<and>
     sum_list (map (\<lambda>w. c (mr_model w)) rows) = (12 :: nat)"
proof -
  let ?ts = "[demo_tokens ''a'' ''m'' 3, demo_tokens ''b'' ''n'' 4, demo_tokens ''c'' ''m'' 5]"
  have "no_proto ?ts []" by code_simp
  then obtain rows where rows: "model_rows array_sort ?ts [] = Inr rows"
    by (cases "model_rows array_sort ?ts []")
      (auto simp: model_rows_def merged_models_def no_proto_def split: sum.splits if_splits)
  define k where "k r = (if tok_total_input r = Fin 3 then 3 else if tok_total_input r = Fin 4 then 4 else 5 :: nat)"
    for r :: token_record
  have "\<forall>r \<in> set ?ts. tok_total_input r = Fin (of_nat (k r))" "sum_list (map k ?ts) = 12"
    by (simp_all add: k_def demo_tokens_def)
  then show ?thesis using model_rows_conserve_tokens [OF engine_sort_array_sort rows, of k] rows by auto
qed

section \<open>The page\<close>

datatype analytics_tab = ByDay | ByModel | ByTenant

record prev_totals =
  pt_cost :: jsnum
  pt_requests :: jsnum
  pt_tokens :: jsnum

text \<open>The five cells an answer fills.\<close>

record analytics_cells =
  ac_tokens :: tokens_result
  ac_cost :: cost_result
  ac_series :: "series_point list"
  ac_prev :: prev_totals
  ac_prev_series :: "series_point list"

record analytics_page =
  an_range :: range_state
  an_workspace :: jsstring
  an_compare :: bool
  an_tab :: analytics_tab
  an_cells :: analytics_cells
  an_loading :: bool
  an_thrown :: "js_error option"   \<comment> \<open>an effect threw: the error boundary takes over\<close>

definition analytics_cells0 :: analytics_cells where
  "analytics_cells0 = \<lparr>ac_tokens = \<lparr>tokens_records = [], tokens_total_input = Fin 0, tokens_total_output = Fin 0\<rparr>,
     ac_cost = \<lparr>costs_records = [], costs_total = Fin 0, costs_requests = Fin 0\<rparr>, ac_series = [],
     ac_prev = \<lparr>pt_cost = Fin 0, pt_requests = Fin 0, pt_tokens = Fin 0\<rparr>, ac_prev_series = []\<rparr>"

definition analytics_init :: "range_state \<Rightarrow> jsstring option \<Rightarrow> analytics_page" where
  "analytics_init rs ws = \<lparr>an_range = rs, an_workspace = nullish ws [], an_compare = False, an_tab = ByDay,
     an_cells = analytics_cells0, an_loading = True, an_thrown = None\<rparr>"

record analytics_query =
  aq_from :: jsstring
  aq_to :: jsstring
  aq_workspace :: jsstring
  aq_prev_from :: jsstring
  aq_prev_to :: jsstring

definition analytics_http :: "browser \<Rightarrow> analytics_query \<Rightarrow> request list" where
  "analytics_http b q = (let ws = Some (aq_workspace q) in
    [get_analytics_tokens b (aq_from q) (aq_to q) ws, get_analytics_cost b (aq_from q) (aq_to q) ws,
     get_analytics_series b (aq_from q) (aq_to q) ws, get_analytics_cost b (aq_prev_from q) (aq_prev_to q) ws,
     get_analytics_series b (aq_prev_from q) (aq_prev_to q) ws])"

record analytics_value =
  av_tokens :: tokens_result
  av_cost :: cost_result
  av_series :: "series_point list"
  av_prev_cost :: cost_result
  av_prev_series :: "series_point list"

type_synonym analytics_reply = "js_error + analytics_value"
type_synonym analytics_act = "(analytics_page, page_out, analytics_query, analytics_reply) act"

text \<open>\<open>reduce((sum, p) => sum + (p.input_tokens || 0) + (p.output_tokens || 0), 0)\<close>\<close>

definition series_tokens :: "series_point list \<Rightarrow> jsnum" where
  "series_tokens ps = fold (\<lambda>p s. jadd (jadd s (num_or0 (sr_input_tokens p))) (num_or0 (sr_output_tokens p))) ps (Fin 0)"

definition cells_of :: "analytics_value \<Rightarrow> analytics_cells" where
  "cells_of v = \<lparr>ac_tokens = av_tokens v, ac_cost = av_cost v, ac_series = av_series v,
     ac_prev = \<lparr>pt_cost = costs_total (av_prev_cost v), pt_requests = costs_requests (av_prev_cost v),
       pt_tokens = series_tokens (av_prev_series v)\<rparr>, ac_prev_series = av_prev_series v\<rparr>"

text \<open>The effect on the bounds and the workspace: shiftWindow may throw, and so may building a URL, both
  before anything is sent.\<close>

definition first_error :: "request list \<Rightarrow> js_error option" where
  "first_error rs = (case List.map_filter (\<lambda>r. case r of Inl e \<Rightarrow> Some e | Inr _ \<Rightarrow> None) rs of
     [] \<Rightarrow> None | e # _ \<Rightarrow> Some e)"

definition analytics_query_of :: "date_reader \<Rightarrow> analytics_page \<Rightarrow> js_error + analytics_query" where
  "analytics_query_of rd s =
    (let f = bound_text (rg_from (rs_range (an_range s))); t = bound_text (rg_to (rs_range (an_range s))) in
     case shift_window rd f t of Inl e \<Rightarrow> Inl e
     | Inr (pf, pt) \<Rightarrow> Inr \<lparr>aq_from = f, aq_to = t, aq_workspace = an_workspace s, aq_prev_from = pf, aq_prev_to = pt\<rparr>)"

definition analytics_load :: "browser \<Rightarrow> date_reader \<Rightarrow> analytics_page \<Rightarrow> analytics_act" where
  "analytics_load b rd s = Upd (\<lambda>s. s\<lparr>an_loading := True\<rparr>) (case analytics_query_of rd s of
      Inl e \<Rightarrow> Upd (\<lambda>s. s\<lparr>an_thrown := Some e\<rparr>) Done
    | Inr q \<Rightarrow> (case first_error (analytics_http b q) of
          Some e \<Rightarrow> Upd (\<lambda>s. s\<lparr>an_thrown := Some e\<rparr>) Done
        | None \<Rightarrow> Await q (\<lambda>r. case r of
              Inl _ \<Rightarrow> Upd (\<lambda>s. s\<lparr>an_loading := False\<rparr>) Done
            | Inr v \<Rightarrow> Upd (\<lambda>s. s\<lparr>an_cells := cells_of v\<rparr>) (Upd (\<lambda>s. s\<lparr>an_loading := False\<rparr>) Done))))"

text \<open>\<open>exportCSV('cost')\<close>; an error leaves the handler without a window.\<close>

definition csv_url :: "jsstring \<Rightarrow> jsstring \<Rightarrow> jsstring \<Rightarrow> jsstring \<Rightarrow> js_error + jsstring" where
  "csv_url kind frm to ws =
    (case encode_uri_component frm of None \<Rightarrow> Inl UriErr
     | Some f \<Rightarrow> (case encode_uri_component to of None \<Rightarrow> Inl UriErr
        | Some t \<Rightarrow> with_tenant (js ''/api/v1/analytics/'' @ kind @ js ''?from='' @ f @ js ''&to='' @ t @ js ''&format=csv'')
            (Some ws)))"

datatype analytics_event =
    AnMount
  | AnRange bool range_value
  | AnWorkspace jsstring
  | AnCompare
  | AnTab analytics_tab
  | AnExport

text \<open>The effect runs again only when a bound or the workspace has changed.\<close>

fun analytics_handler :: "browser \<Rightarrow> date_reader \<Rightarrow> (range_value \<Rightarrow> jsstring) \<Rightarrow> analytics_event \<Rightarrow> analytics_page \<Rightarrow> analytics_act" where
  "analytics_handler b rd ser AnMount s = analytics_load b rd s"
| "analytics_handler b rd ser (AnRange ok v) s =
     (let set = (\<lambda>s. s\<lparr>an_range := persist ser ok v (an_range s)\<rparr>) in
      Upd set (if same_bounds v (rs_range (an_range s)) then Done else analytics_load b rd (set s)))"
| "analytics_handler b rd ser (AnWorkspace w) s =
     (let set = (\<lambda>s. s\<lparr>an_workspace := w\<rparr>) in
      Upd set (if w = an_workspace s then Done else analytics_load b rd (set s)))"
| "analytics_handler b rd ser AnCompare s = Upd (\<lambda>s. s\<lparr>an_compare := \<not> an_compare s\<rparr>) Done"
| "analytics_handler b rd ser (AnTab t) s = Upd (\<lambda>s. s\<lparr>an_tab := t\<rparr>) Done"
| "analytics_handler b rd ser AnExport s =
     (case csv_url (js ''cost'') (bound_text (rg_from (rs_range (an_range s)))) (bound_text (rg_to (rs_range (an_range s))))
        (an_workspace s) of Inl _ \<Rightarrow> Done | Inr u \<Rightarrow> Emit (OpenUrl u) Done)"

definition analytics_enabled :: "analytics_event \<Rightarrow> analytics_page \<Rightarrow> bool" where
  "analytics_enabled e s \<longleftrightarrow> an_thrown s = None"

definition any_answer :: "'q \<Rightarrow> 'r \<Rightarrow> bool" where
  "any_answer q r \<longleftrightarrow> True"

section \<open>What is shown\<close>

text \<open>A tile: label, value, and the badge with its tone where there is a change.\<close>

definition delta_badge :: "jsnum \<Rightarrow> jsstring \<times> jsstring" where
  "delta_badge d = ((if jle (Fin 0) d then js ''green'' else js ''red''), change_text d)"

definition total_tokens :: "analytics_page \<Rightarrow> jsnum" where
  "total_tokens s = jadd (tokens_total_input (ac_tokens (an_cells s))) (tokens_total_output (ac_tokens (an_cells s)))"

definition avg_tokens :: "analytics_page \<Rightarrow> jsnum" where
  "avg_tokens s = (let n = costs_requests (ac_cost (an_cells s)) in
     if jlt (Fin 0) n then jround (jdiv (total_tokens s) n) else Fin 0)"

definition analytics_kpis :: "analytics_page \<Rightarrow> (jsstring \<times> jsstring \<times> (jsstring \<times> jsstring) option) list" where
  "analytics_kpis s =
    (let c = ac_cost (an_cells s); p = ac_prev (an_cells s) in
     [(js ''Estimated cost'', money (costs_total c) (js ''USD''), map_option delta_badge (delta_pct (costs_total c) (pt_cost p))),
      (js ''Requests'', group_num (costs_requests c), map_option delta_badge (delta_pct (costs_requests c) (pt_requests p))),
      (js ''Tokens'', fmt_tokens (total_tokens s), map_option delta_badge (delta_pct (total_tokens s) (pt_tokens p))),
      (js ''Avg tokens / request'', group_num (avg_tokens s), None)])"

definition tab_label :: "analytics_tab \<Rightarrow> jsstring" where
  "tab_label t = (case t of ByDay \<Rightarrow> js ''By day'' | ByModel \<Rightarrow> js ''By model'' | ByTenant \<Rightarrow> js ''By tenant'')"

definition model_cells :: "model_row \<Rightarrow> jsstring list" where
  "model_cells m = [mr_model m, int_str (int (mr_tenants m)), fmt_tokens (mr_input m), fmt_tokens (mr_output m),
     fmt_tokens (mr_sum m), group_num (mr_requests m), money (mr_cost m) (js ''USD'')]"

definition tenant_cells :: "tenant_row \<Rightarrow> jsstring list" where
  "tenant_cells t = [tn_tenant t, group_num (ta_requests t), money (ta_cost t) (js ''USD'')]"

text \<open>The card of the by-day tab: the placeholder, or the series with the one to compare with.\<close>

definition day_card :: "analytics_page \<Rightarrow> (series_point list \<times> series_point list option) option" where
  "day_card s = (if an_loading s \<and> ac_series (an_cells s) = [] then None
     else Some (ac_series (an_cells s), if an_compare s then Some (ac_prev_series (an_cells s)) else None))"

definition no_data_row :: "bool \<Rightarrow> 'a list \<Rightarrow> jsstring list" where
  "no_data_row loading rows = (if \<not> loading \<and> rows = [] then [js ''No data''] else [])"

text \<open>The page: the compare switch with its class, the tiles, the tabs with class and aria-selected, and the
  card of the current tab. The two tables are computed whatever the tab is, so that an error in
  one of them always reaches the error boundary.\<close>

datatype analytics_card =
    DayCard "jsstring option" "(series_point list \<times> series_point list option) option"
  | ModelCard "jsstring list list" "jsstring list"
  | TenantCard "jsstring list list" "jsstring list"

record analytics_view =
  vw_compare :: "bool \<times> jsstring"
  vw_kpis :: "(jsstring \<times> jsstring \<times> (jsstring \<times> jsstring) option) list"
  vw_tabs :: "(analytics_tab \<times> jsstring \<times> jsstring \<times> bool) list"
  vw_card :: analytics_card

definition analytics_tabs :: "analytics_tab \<Rightarrow> (analytics_tab \<times> jsstring \<times> jsstring \<times> bool) list" where
  "analytics_tabs t = map (\<lambda>u. (u, tab_label u, js ''tab'' @ (if t = u then js '' active'' else []), t = u)) [ByDay, ByModel, ByTenant]"

definition analytics_render :: "((model_row \<Rightarrow> model_row \<Rightarrow> int) \<Rightarrow> model_row list \<Rightarrow> model_row list) \<Rightarrow>
    ((tenant_row \<Rightarrow> tenant_row \<Rightarrow> int) \<Rightarrow> tenant_row list \<Rightarrow> tenant_row list) \<Rightarrow> analytics_page \<Rightarrow> js_error + analytics_view" where
  "analytics_render srt srt' s =
    (case model_rows srt (tokens_records (ac_tokens (an_cells s))) (costs_records (ac_cost (an_cells s))) of Inl e \<Rightarrow> Inl e
     | Inr ms \<Rightarrow> (let ts = tenant_rows srt' (costs_records (ac_cost (an_cells s))) in
        Inr \<lparr>vw_compare = (an_compare s, js ''mc-switch'' @ (if an_compare s then js '' on'' else [])),
          vw_kpis = analytics_kpis s, vw_tabs = analytics_tabs (an_tab s),
          vw_card = (case an_tab s of
              ByDay \<Rightarrow> DayCard (if an_compare s then Some (js ''compare on'') else None) (day_card s)
            | ByModel \<Rightarrow> ModelCard (map model_cells ms) (no_data_row (an_loading s) ms)
            | ByTenant \<Rightarrow> TenantCard (map tenant_cells ts) (no_data_row (an_loading s) ts))\<rparr>))"

section \<open>The cells and the answers\<close>

definition cells_ok :: "analytics_page \<Rightarrow> bool" where
  "cells_ok s \<longleftrightarrow> an_cells s = analytics_cells0 \<or> (\<exists>v. an_cells s = cells_of v)"

lemma cells_ok_simps [simp]:
  "cells_ok (s\<lparr>an_loading := l\<rparr>) = cells_ok s" "cells_ok (s\<lparr>an_thrown := e\<rparr>) = cells_ok s"
  "cells_ok (s\<lparr>an_range := r\<rparr>) = cells_ok s" "cells_ok (s\<lparr>an_workspace := w\<rparr>) = cells_ok s"
  "cells_ok (s\<lparr>an_compare := c\<rparr>) = cells_ok s" "cells_ok (s\<lparr>an_tab := t\<rparr>) = cells_ok s"
  "cells_ok (s\<lparr>an_cells := cells_of v\<rparr>)"
  by (auto simp: cells_ok_def)

lemma analytics_load_keeps: "keeps (analytics_load b rd s) cells_ok any_answer f" if "\<forall>s. cells_ok s \<longrightarrow> cells_ok (f s)"
  using that by (auto simp: analytics_load_def split: sum.split option.split)

interpretation analytics_inv: page_invariant "analytics_handler b rd ser" analytics_enabled any_answer
  "analytics_init rs ws" cells_ok for b rd ser rs ws
proof unfold_locales
  show "cells_ok (analytics_init rs ws)" by (simp add: cells_ok_def analytics_init_def)
next
  fix s e
  show "keeps (analytics_handler b rd ser e s) cells_ok any_answer (\<lambda>s. s)"
    by (cases e) (auto simp: Let_def analytics_load_keeps split: sum.split)
qed

text \<open>The tiles, the chart and the tables of the analytics page never mix answers: whatever is clicked
  and in whatever order requests are answered or fail, all five cells are the initial ones or come
  from the same answer.\<close>

theorem analytics_cells_from_one_answer:
  assumes "sys_reach (analytics_handler b rd ser) analytics_enabled any_answer (mount (analytics_init rs ws)) m"
  shows "an_cells (ui m) = analytics_cells0 \<or> (\<exists>v. an_cells (ui m) = cells_of v)"
  using analytics_inv.reach_inv [OF assms] by (simp add: cells_ok_def)

definition default_store :: range_state where
  "default_store = \<lparr>rs_range = default_range, rs_store = None\<rparr>"

definition default_query :: "jsstring \<Rightarrow> analytics_query" where
  "default_query ws = \<lparr>aq_from = [], aq_to = [], aq_workspace = ws, aq_prev_from = [], aq_prev_to = []\<rparr>"

lemma query_of_default:
  assumes "empty_invalid rd" "rs_range (an_range s) = default_range"
  shows "analytics_query_of rd s = Inr (default_query (an_workspace s))"
  using assms by (simp add: empty_invalid_def analytics_query_of_def Let_def default_range_def bound_text_def shift_window_def default_query_def)

lemma encode_Nil: "encode_uri_component [] = Some []"
  by code_simp

lemma default_query_sent:
  assumes "ws = [] \<or> encode_uri_component ws = Some t"
  shows "first_error (analytics_http b (default_query ws)) = None"
  using assms by (auto simp: first_error_def analytics_http_def Let_def get_analytics_tokens_def get_analytics_cost_def
      get_analytics_series_def analytics_url_def default_query_def encode_Nil with_tenant_def with_segment_def
      List.map_filter_def split: option.split list.split)

lemma load_default:
  assumes "empty_invalid rd" "rs_range (an_range s) = default_range" "an_workspace s = [] \<or> encode_uri_component (an_workspace s) = Some t"
  shows "analytics_load b rd s = Upd (\<lambda>s. s\<lparr>an_loading := True\<rparr>) (Await (default_query (an_workspace s)) (\<lambda>r. case r of
      Inl _ \<Rightarrow> Upd (\<lambda>s. s\<lparr>an_loading := False\<rparr>) Done
    | Inr v \<Rightarrow> Upd (\<lambda>s. s\<lparr>an_cells := cells_of v\<rparr>) (Upd (\<lambda>s. s\<lparr>an_loading := False\<rparr>) Done)))"
  using default_query_sent [OF assms(3)] by (simp add: analytics_load_def query_of_default [OF assms(1,2)])


definition demo_analytics :: "rat \<Rightarrow> analytics_value" where
  "demo_analytics c = \<lparr>av_tokens = \<lparr>tokens_records = [], tokens_total_input = Fin 0, tokens_total_output = Fin 0\<rparr>,
     av_cost = \<lparr>costs_records = [], costs_total = Fin c, costs_requests = Fin 1\<rparr>, av_series = [],
     av_prev_cost = \<lparr>costs_records = [], costs_total = Fin c, costs_requests = Fin 1\<rparr>, av_prev_series = []\<rparr>"


theorem analytics_cells_from_one_answer_witness:
  "\<forall>b. \<exists>m v. sys_reach (analytics_handler b read_iso (\<lambda>_. [])) analytics_enabled any_answer (mount (analytics_init default_store None)) m \<and>
     tasks m \<noteq> [] \<and> (an_cells (ui m) = analytics_cells0 \<or> an_cells (ui m) = cells_of v)"
proof
  fix b
  have "\<exists>m. do_moves (analytics_handler b read_iso (\<lambda>_. [])) analytics_enabled any_answer [Fire AnMount]
      (mount (analytics_init default_store None)) = Some m \<and> tasks m \<noteq> []"
    using load_default [OF empty_invalid_read_iso, of "analytics_init default_store None" "[]" b]
    by (simp add: mount_def resume_def analytics_enabled_def analytics_init_def default_store_def)
  then obtain m where m: "sys_reach (analytics_handler b read_iso (\<lambda>_. [])) analytics_enabled any_answer (mount (analytics_init default_store None)) m"
    "tasks m \<noteq> []" using schedule_reach by blast
  then show "\<exists>m v. sys_reach (analytics_handler b read_iso (\<lambda>_. [])) analytics_enabled any_answer (mount (analytics_init default_store None)) m \<and>
     tasks m \<noteq> [] \<and> (an_cells (ui m) = analytics_cells0 \<or> an_cells (ui m) = cells_of v)"
    using analytics_cells_from_one_answer [OF m(1)] by blast
qed

text \<open>Before a range has been chosen its bounds are empty, and the page asks the gateway twice for the
  same figures: the requests for the previous period are the requests for the current one, so that,
  answered alike, no tile ever shows a change.\<close>

theorem default_range_compares_with_itself:
  assumes "empty_invalid rd"
  shows "analytics_query_of rd (analytics_init (range_mount parse None) ws) = Inr (default_query (nullish ws [])) \<and>
    analytics_http b (default_query w) ! 3 = analytics_http b (default_query w) ! 1 \<and>
    analytics_http b (default_query w) ! 4 = analytics_http b (default_query w) ! 2 \<and>
    (0 < p \<longrightarrow> delta_pct (Fin p) (Fin p) = Some (Fin 0)) \<and> delta_pct (Fin 0) (Fin 0) = None"
  using query_of_default [OF assms, of "analytics_init (range_mount parse None) ws"] delta_pct_same
  by (simp add: analytics_init_def range_mount_def stored_range_def analytics_http_def Let_def default_query_def delta_pct_def)

theorem default_range_compares_with_itself_witness:
  "analytics_query_of read_iso (analytics_init (range_mount (\<lambda>_. None) None) None) = Inr (default_query [])"
  using default_range_compares_with_itself [OF empty_invalid_read_iso, of "\<lambda>_. None" None] by simp

end
