(* ===== verification/Dashboard.thy ===== *)
theory Dashboard
  imports AsyncPage Ratio Widgets Windows
begin

text \<open>
  ui/src/pages/Dashboard.tsx: the landing page. Its five loads run side by side, each an async
  function of its own; the panel that needs attention collects budgets, providers, keys and blocked
  requests one after the other and tolerates the failure of each. \<open>rd\<close> reads a date string.
\<close>

section \<open>State\<close>

datatype metric = MTokens | MCost | MRequests

definition metrics :: "(metric \<times> jsstring) list" where
  "metrics = [(MTokens, js ''Tokens''), (MCost, js ''Cost''), (MRequests, js ''Requests'')]"

record attention_item =
  at_tone :: status_tone
  at_title :: jsstring
  at_detail :: jsstring
  at_to :: "jsstring option"

record recent_row =
  av_id :: jsstring
  av_tenant_id :: jsstring
  av_model :: jsstring
  av_status :: jsstring
  av_created_at :: jsstring

record dashboard =
  db_range :: range_value
  db_metric :: metric
  db_workspace :: jsstring
  db_input :: jsnum
  db_output :: jsnum
  db_cost :: jsnum
  db_requests :: jsnum
  db_series :: "series_point list"
  db_prev_input :: jsnum
  db_prev_output :: jsnum
  db_prev_cost :: jsnum
  db_pass_rate :: jsnum
  db_pass_run :: nat   \<comment> \<open>the run of the pass-rate effect whose \<open>active\<close> is true\<close>
  db_attention :: "attention_item list"
  db_activity :: "recent_row list"
  db_error :: jsstring

definition dashboard_init :: "jsstring option \<Rightarrow> dashboard" where
  "dashboard_init ws = \<lparr>db_range = default_range, db_metric = MTokens, db_workspace = nullish ws [],
     db_input = Fin 0, db_output = Fin 0, db_cost = Fin 0, db_requests = Fin 0, db_series = [],
     db_prev_input = Fin 0, db_prev_output = Fin 0, db_prev_cost = Fin 0, db_pass_rate = Fin 0, db_pass_run = 0,
     db_attention = [], db_activity = [], db_error = []\<rparr>"

section \<open>What needs attention\<close>

definition budget_attention :: "budget \<Rightarrow> attention_item list" where
  "budget_attention b = (case bud_hard_limit b of None \<Rightarrow> []
     | Some h \<Rightarrow> if \<not> truthy_num h then [] else
        (let pct = percent_of (bud_spent b) h; usd = (\<lambda>n. money n (js ''USD'')) in
         if jle (Fin 100) pct then [\<lparr>at_tone = ToneRed, at_title = js ''Budget exhausted'',
             at_detail = bud_tenant_id b @ js '' hit '' @ usd h @ js '' / '' @ bud_type b, at_to = Some (js ''/budgets'')\<rparr>]
         else if jle (Fin 70) pct then [\<lparr>at_tone = ToneAmber, at_title = js ''Budget at '' @ num_str (jround pct) @ js ''%'',
             at_detail = bud_tenant_id b @ [32, 0x2014, 32] @ usd (bud_spent b) @ js '' of '' @ usd h, at_to = Some (js ''/budgets'')\<rparr>]
         else []))"

definition provider_attention :: "provider \<Rightarrow> attention_item list" where
  "provider_attention p =
    (if pv_status p = Some (js ''down'') then [\<lparr>at_tone = ToneRed, at_title = js ''Provider down'',
        at_detail = nullish (pv_name p) (js ''undefined'') @ js '' unreachable'', at_to = Some (js ''/routing'')\<rparr>]
     else if pv_status p = Some (js ''degraded'') then [\<lparr>at_tone = ToneAmber, at_title = js ''Provider degraded'',
        at_detail = nullish (pv_name p) [], at_to = Some (js ''/routing'')\<rparr>]
     else [])"

text \<open>The keys that expire within seven days of \<open>now\<close> and have not expired yet.\<close>

definition expiring :: "date_reader \<Rightarrow> int \<Rightarrow> virtual_key \<Rightarrow> bool" where
  "expiring rd now k \<longleftrightarrow> (case vk_expires_at k of None \<Rightarrow> False
     | Some e \<Rightarrow> e \<noteq> [] \<and> (case rd e of None \<Rightarrow> False | Some t \<Rightarrow> t - now < 7 * 86400000 \<and> now < t))"

definition keys_attention :: "date_reader \<Rightarrow> int \<Rightarrow> virtual_key list \<Rightarrow> attention_item list" where
  "keys_attention rd now ks = (let n = length (filter (expiring rd now) ks) in
     if n > 0 then [\<lparr>at_tone = ToneBlue, at_title = js ''Keys expiring'',
       at_detail = int_str (int n) @ js '' virtual key'' @ (if n > 1 then js ''s'' else []) @ js '' expire within 7 days'',
       at_to = Some (js ''/keys'')\<rparr>] else [])"

definition blocked_attention :: "conversation_item list \<Rightarrow> attention_item list" where
  "blocked_attention cs = (let n = length (filter (\<lambda>c. cv_status c = js ''blocked'') cs) in
     if n > 0 then [\<lparr>at_tone = ToneAmber, at_title = js ''Requests blocked'',
       at_detail = int_str (int n) @ js '' messages blocked '' @ [0xB7] @ js '' last 100'', at_to = Some (js ''/conversations'')\<rparr>]
     else [])"

section \<open>Requests and answers\<close>

record period =
  pd_from :: jsstring
  pd_to :: jsstring
  pd_workspace :: jsstring

datatype dash_query =
    DKpis period jsstring jsstring
  | DSeries period
  | DBudgets jsstring
  | DProviders
  | DKeys
  | DConvs

definition conv_100 :: http_request where
  "conv_100 = list_conversations 1 100 \<lparr>cf_tenant_id = None, cf_status = None, cf_model = None, cf_masked = None\<rparr>"

fun dash_http :: "browser \<Rightarrow> dash_query \<Rightarrow> request list" where
  "dash_http b (DKpis p pf pt) = (let ws = Some (pd_workspace p) in
     [get_analytics_tokens b (pd_from p) (pd_to p) ws, get_analytics_cost b (pd_from p) (pd_to p) ws,
      get_analytics_tokens b pf pt ws, get_analytics_cost b pf pt ws])"
| "dash_http b (DSeries p) = [get_analytics_series b (pd_from p) (pd_to p) (Some (pd_workspace p))]"
| "dash_http b (DBudgets ws) = [if ws = [] then Inr (list_budgets b) else list_budgets_by_tenant b ws]"
| "dash_http b DProviders = [Inr (list_providers b)]"
| "dash_http b DKeys = [Inr (list_keys b)]"
| "dash_http b DConvs = [Inr conv_100]"

text \<open>An answer; the keys come with the time at which they are looked at.\<close>

datatype dash_reply =
    DFail js_error
  | GotKpis tokens_result cost_result tokens_result cost_result
  | GotSeries "series_point list"
  | GotBudgets "budget list"
  | GotProviders "provider list"
  | GotKeys int "virtual_key list"
  | GotConvs "conversation_item list"

fun answers :: "dash_query \<Rightarrow> dash_reply \<Rightarrow> bool" where
  "answers q (DFail e) = True"
| "answers (DKpis _ _ _) (GotKpis _ _ _ _) = True"
| "answers (DSeries _) (GotSeries _) = True"
| "answers (DBudgets _) (GotBudgets _) = True"
| "answers DProviders (GotProviders _) = True"
| "answers DKeys (GotKeys _ _) = True"
| "answers DConvs (GotConvs _) = True"
| "answers _ _ = False"

text \<open>A request whose URL cannot be built rejects with that error.\<close>

definition dash_adm :: "browser \<Rightarrow> dash_query \<Rightarrow> dash_reply \<Rightarrow> bool" where
  "dash_adm b q r \<longleftrightarrow> answers q r \<and> (\<forall>e. Inl e \<in> set (dash_http b q) \<longrightarrow> r = DFail e)"

type_synonym dash_act = "(dashboard, page_out, dash_query, dash_reply) act"

section \<open>Loads\<close>

definition dash_period :: "dashboard \<Rightarrow> period" where
  "dash_period s = \<lparr>pd_from = bound_text (rg_from (db_range s)), pd_to = bound_text (rg_to (db_range s)),
     pd_workspace = db_workspace s\<rparr>"

text \<open>\<open>loadKpis\<close>: shiftWindow is called outside the try, so that its error only rejects the promise.\<close>

definition load_kpis :: "date_reader \<Rightarrow> dashboard \<Rightarrow> dash_act" where
  "load_kpis rd s = (case shift_window rd (pd_from (dash_period s)) (pd_to (dash_period s)) of
      Inl _ \<Rightarrow> Done
    | Inr (pf, pt) \<Rightarrow> Await (DKpis (dash_period s) pf pt) (\<lambda>r. case r of
        GotKpis t c pt pc \<Rightarrow> Upd (\<lambda>s. s\<lparr>db_input := tokens_total_input t, db_output := tokens_total_output t,
            db_cost := costs_total c, db_requests := costs_requests c, db_prev_input := tokens_total_input pt,
            db_prev_output := tokens_total_output pt, db_prev_cost := costs_total pc, db_error := []\<rparr>) Done
      | _ \<Rightarrow> Upd (\<lambda>s. s\<lparr>db_error := js ''No data yet''\<rparr>) Done))"

definition load_series :: "dashboard \<Rightarrow> dash_act" where
  "load_series s = Await (DSeries (dash_period s)) (\<lambda>r. case r of
      GotSeries ps \<Rightarrow> Upd (\<lambda>s. s\<lparr>db_series := ps\<rparr>) Done
    | _ \<Rightarrow> Upd (\<lambda>s. s\<lparr>db_series := []\<rparr>) Done)"

text \<open>\<open>loadAttention\<close>: four requests in turn; a failed one contributes nothing.\<close>

definition load_attention :: "date_reader \<Rightarrow> dashboard \<Rightarrow> dash_act" where
  "load_attention rd s =
    Await (DBudgets (db_workspace s)) (\<lambda>rb. let i1 = (case rb of GotBudgets bs \<Rightarrow> concat (map budget_attention bs) | _ \<Rightarrow> []) in
    Await DProviders (\<lambda>rp. let i2 = i1 @ (case rp of GotProviders ps \<Rightarrow> concat (map provider_attention ps) | _ \<Rightarrow> []) in
    Await DKeys (\<lambda>rk. let i3 = i2 @ (case rk of GotKeys now ks \<Rightarrow> keys_attention rd now ks | _ \<Rightarrow> []) in
    Await DConvs (\<lambda>rc. let i4 = i3 @ (case rc of GotConvs cs \<Rightarrow> blocked_attention cs | _ \<Rightarrow> []) in
    Upd (\<lambda>s. s\<lparr>db_attention := take 5 i4\<rparr>) Done))))"

definition activity_of :: "conversation_item \<Rightarrow> recent_row" where
  "activity_of c = \<lparr>av_id = cv_id c, av_tenant_id = cv_tenant_id c, av_model = cv_model c, av_status = cv_status c,
     av_created_at = cv_created_at c\<rparr>"

definition load_recent :: dash_act where
  "load_recent = Await DConvs (\<lambda>r. case r of
      GotConvs cs \<Rightarrow> Upd (\<lambda>s. s\<lparr>db_activity := map activity_of (take 6 cs)\<rparr>) Done
    | _ \<Rightarrow> Upd (\<lambda>s. s\<lparr>db_activity := []\<rparr>) Done)"

definition pass_rate :: "conversation_item list \<Rightarrow> jsnum" where
  "pass_rate cs = (if cs = [] then Fin 0
     else jdiv (jround (jmul (jdiv (Fin (of_nat (length (filter (\<lambda>c. cv_status c = js ''ok'') cs))))
       (Fin (of_nat (length cs)))) (Fin 1000))) (Fin 10))"

text \<open>The effect on the workspace: a run whose cleanup has been called leaves the rate alone.\<close>

definition load_pass_rate :: "dashboard \<Rightarrow> dash_act" where
  "load_pass_rate s = (let run = Suc (db_pass_run s); set = (\<lambda>v s. if db_pass_run s = run then s\<lparr>db_pass_rate := v\<rparr> else s) in
     Upd (\<lambda>s. s\<lparr>db_pass_run := run\<rparr>) (Await DConvs (\<lambda>r. case r of
        GotConvs cs \<Rightarrow> Upd (set (pass_rate cs)) Done
      | _ \<Rightarrow> Upd (set (Fin 0)) Done)))"

section \<open>Handlers\<close>

datatype dash_event =
    DMount
  | DRange range_value
  | DWorkspace jsstring
  | DMetric metric
  | DGo jsstring

definition first_effect :: "date_reader \<Rightarrow> dashboard \<Rightarrow> dash_act" where
  "first_effect rd s = Fork (load_kpis rd s) (Fork (load_attention rd s) load_recent)"

fun dash_handler :: "date_reader \<Rightarrow> dash_event \<Rightarrow> dashboard \<Rightarrow> dash_act" where
  "dash_handler rd DMount s = Fork (first_effect rd s) (Fork (load_series s) (load_pass_rate s))"
| "dash_handler rd (DRange v) s = (let s' = s\<lparr>db_range := v\<rparr> in Upd (\<lambda>s. s\<lparr>db_range := v\<rparr>)
     (if same_bounds v (db_range s) then Done else Fork (first_effect rd s') (load_series s')))"
| "dash_handler rd (DWorkspace w) s = (let s' = s\<lparr>db_workspace := w\<rparr> in Upd (\<lambda>s. s\<lparr>db_workspace := w\<rparr>)
     (if w = db_workspace s then Done else Fork (first_effect rd s') (Fork (load_series s') (load_pass_rate s'))))"
| "dash_handler rd (DMetric m) s = Upd (\<lambda>s. s\<lparr>db_metric := m\<rparr>) (if m = db_metric s then Done else load_series s)"
| "dash_handler rd (DGo p) s = Emit (Navigate p) Done"

definition dash_targets :: "jsstring list" where
  "dash_targets = map js [''/keys?create=1'', ''/tenants/new'', ''/budgets'', ''/routing'']"

fun dash_enabled :: "dash_event \<Rightarrow> dashboard \<Rightarrow> bool" where
  "dash_enabled (DGo p) s \<longleftrightarrow> p \<in> set dash_targets"
| "dash_enabled _ s \<longleftrightarrow> True"

section \<open>What is shown\<close>

definition series_value :: "series_point \<Rightarrow> metric \<Rightarrow> jsnum" where
  "series_value p m = (case m of MCost \<Rightarrow> sr_cost p | MRequests \<Rightarrow> sr_requests p
     | MTokens \<Rightarrow> jadd (sr_input_tokens p) (sr_output_tokens p))"

text \<open>\<open>Math.max(1, ...values)\<close>\<close>

definition chart_max :: "jsnum list \<Rightarrow> jsnum" where
  "chart_max vs = foldl jmax (Fin 1) vs"

definition chart_step :: "rat \<Rightarrow> jsnum list \<Rightarrow> jsnum" where
  "chart_step w vs = jdiv (Fin w) (jmax (Fin 1) (Fin (of_int (int (length vs) - 1))))"

text \<open>\<open>H - (v / max) * (H - 20) - 10\<close> with H = 200, and \<open>30 - (v / max) * 26\<close>\<close>

definition trend_y :: "jsnum \<Rightarrow> jsnum \<Rightarrow> jsnum" where
  "trend_y mx v = jsub (jsub (Fin 200) (jmul (jdiv v mx) (Fin 180))) (Fin 10)"

definition spark_y :: "jsnum \<Rightarrow> jsnum \<Rightarrow> jsnum" where
  "spark_y mx v = jsub (Fin 30) (jmul (jdiv v mx) (Fin 26))"

definition path_points :: "jsnum \<Rightarrow> (jsnum \<Rightarrow> jsnum) \<Rightarrow> jsnum list \<Rightarrow> jsstring" where
  "path_points step y vs = join_with (js '' '') (map (\<lambda>(i, v). (if i = 0 then js ''M'' else js ''L'') @
     num_str (jmul (Fin (of_nat i)) step) @ js '','' @ num_str (y v)) (enumerate 0 vs))"

text \<open>The two paths of the trend chart (the area and the line); None for the empty message.\<close>

definition trend_chart :: "series_point list \<Rightarrow> metric \<Rightarrow> (jsstring \<times> jsstring) option" where
  "trend_chart ps m = (let vs = map (\<lambda>p. series_value p m) ps; path = path_points (chart_step 600 vs) (trend_y (chart_max vs)) vs
     in if vs = [] then None else Some (path @ js '' L600,200 L0,200 Z'', path))"

definition sparkline :: "series_point list \<Rightarrow> metric \<Rightarrow> jsstring" where
  "sparkline ps m = (let vs = map (\<lambda>p. series_value p m) ps in path_points (chart_step 120 vs) (spark_y (chart_max vs)) vs)"

definition dash_tokens :: "dashboard \<Rightarrow> jsnum" where
  "dash_tokens s = jadd (db_input s) (db_output s)"

definition first_run :: "dashboard \<Rightarrow> bool" where
  "first_run s \<longleftrightarrow> db_series s = [] \<and> dash_tokens s = Fin 0 \<and> db_attention s = [] \<and> db_activity s = [] \<and> db_error s = []"

definition dash_label :: "string \<Rightarrow> string \<Rightarrow> jsstring" where
  "dash_label l r = js l @ js '' '' @ [0xB7] @ js '' '' @ js r"

text \<open>The cards: label, value, and the change with its class where there is one.\<close>

definition dash_cards :: "dashboard \<Rightarrow> (jsstring \<times> jsstring \<times> (jsstring \<times> jsstring) option) list" where
  "dash_cards s =
    (let badge = map_option (\<lambda>d. (if jle (Fin 0) d then js ''change up'' else js ''change down'', change_text d)) in
     [(dash_label ''Spend'' ''last 24h'', money (db_cost s) (js ''USD''), badge (delta_pct (db_cost s) (db_prev_cost s))),
      (dash_label ''Requests'' ''last 24h'', group_num (db_requests s), None),
      (dash_label ''Tokens'' ''last 24h'', fmt_tokens (dash_tokens s),
         badge (delta_pct (dash_tokens s) (jadd (db_prev_input s) (db_prev_output s)))),
      (dash_label ''Pass rate'' ''last 100'', num_str (db_pass_rate s) @ js ''%'', None)])"

text \<open>The pill over the panel, and one of its rows.\<close>

definition attention_pill :: "attention_item list \<Rightarrow> (status_tone \<times> jsstring) option" where
  "attention_pill xs = (if xs = [] then None
     else Some (if \<exists>x \<in> set xs. at_tone x = ToneRed then ToneRed else ToneAmber, int_str (int (length xs))))"

definition attention_cells :: "attention_item \<Rightarrow> (status_tone \<times> jsstring) \<times> jsstring \<times> jsstring \<times> jsstring option" where
  "attention_cells x = ((at_tone x, if at_tone x = ToneRed then js ''critical'' else tone_str (at_tone x)),
     at_title x, at_detail x, at_to x)"

definition activity_cells :: "date_reader \<Rightarrow> time_zone \<Rightarrow> int \<Rightarrow> recent_row \<Rightarrow> jsstring list \<times> status_tone" where
  "activity_cells rd tz now a =
    ([(if av_status a = js ''blocked'' then js ''Mask blocked''
       else if av_status a = js ''ok'' then js ''Request passed'' else js ''Request failed''),
      av_tenant_id a, str_or (av_model a) dash, av_status a, relative_time rd tz (av_created_at a) now],
     (if av_status a = js ''ok'' then ToneGreen else if av_status a = js ''blocked'' then ToneAmber else ToneRed))"

text \<open>The page: the welcome card with its two buttons, or the panels. A list that is empty shows its
  message instead.\<close>

definition rows_or :: "jsstring \<Rightarrow> 'a list \<Rightarrow> jsstring + 'a list" where
  "rows_or msg xs = (if xs = [] then Inl msg else Inr xs)"

record dash_panels =
  dv_metrics :: "(metric \<times> jsstring \<times> bool) list"
  dv_trend :: "jsstring + jsstring \<times> jsstring"
  dv_cards :: "((jsstring \<times> jsstring \<times> (jsstring \<times> jsstring) option) \<times> jsstring) list"
  dv_error :: "jsstring option"
  dv_pill :: "(status_tone \<times> jsstring) option"
  dv_attention :: "jsstring + ((status_tone \<times> jsstring) \<times> jsstring \<times> jsstring \<times> jsstring option) list"
  dv_actions :: "(jsstring \<times> jsstring) list"
  dv_activity :: "jsstring + (jsstring list \<times> status_tone) list"

definition quick_actions :: "(jsstring \<times> jsstring) list" where
  "quick_actions = [(js ''Create virtual key'', js ''/keys?create=1''), (js ''Add tenant'', js ''/tenants/new''),
     (js ''Set budget'', js ''/budgets''), (js ''Inspect routing'', js ''/routing'')]"

definition dash_view :: "date_reader \<Rightarrow> time_zone \<Rightarrow> int \<Rightarrow> dashboard \<Rightarrow> (jsstring \<times> jsstring) list + dash_panels" where
  "dash_view rd tz now s = (if first_run s then Inl (take 2 quick_actions)
     else Inr \<lparr>dv_metrics = segmented metrics (db_metric s),
       dv_trend = (case trend_chart (db_series s) (db_metric s) of None \<Rightarrow> Inl (js ''No data for this period'') | Some p \<Rightarrow> Inr p),
       dv_cards = map (\<lambda>c. (c, sparkline (db_series s) (db_metric s))) (dash_cards s),
       dv_error = (if db_error s = [] then None else Some (db_error s)),
       dv_pill = attention_pill (db_attention s),
       dv_attention = rows_or (js ''All systems nominal.'') (map attention_cells (db_attention s)),
       dv_actions = quick_actions,
       dv_activity = rows_or (js ''No traffic yet.'') (map (activity_cells rd tz now) (db_activity s))\<rparr>)"

section \<open>Bounds\<close>

lemma jle_jsub: "jle x x' \<Longrightarrow> jle (jsub (Fin c) x') (jsub (Fin c) x)"
  by (cases x; cases x') (auto simp: jsub_def intro!: jle_fl64_mono)

lemma jle_jsub_right: "jle x x' \<Longrightarrow> jle (jsub x (Fin c)) (jsub x' (Fin c))"
  by (cases x; cases x') (auto simp: jsub_def intro!: jle_fl64_mono)

lemma fl64_simple: "fl64 0 = Fin 0" "fl64 1 = Fin 1" "fl64 10 = Fin 10" "fl64 20 = Fin 20" "fl64 26 = Fin 26" "fl64 30 = Fin 30"
  "fl64 4 = Fin 4" "fl64 100 = Fin 100" "fl64 180 = Fin 180" "fl64 190 = Fin 190" "fl64 200 = Fin 200" "fl64 1000 = Fin 1000"
  using fl64_int [of 0] fl64_int [of 1] fl64_int [of 10] fl64_int [of 20] fl64_int [of 26] fl64_int [of 30] fl64_int [of 4]
    fl64_int [of 100] fl64_int [of 180] fl64_int [of 190] fl64_int [of 200] fl64_int [of 1000] by simp_all

lemma chart_max_Fin: "chart_max (map Fin vs) = Fin (foldl max 1 vs)"
proof -
  have "foldl jmax (Fin a) (map Fin vs) = Fin (foldl max a vs)" for a
    by (induction vs arbitrary: a) (auto simp: jmax_def max_def)
  then show ?thesis by (simp add: chart_max_def)
qed

lemma foldl_max_ge: "a \<le> foldl max a vs \<and> (\<forall>v \<in> set vs. v \<le> foldl max a (vs :: rat list))"
proof (induction vs arbitrary: a)
  case (Cons v vs)
  have "max a v \<le> foldl max (max a v) vs" "\<forall>u \<in> set vs. u \<le> foldl max (max a v) vs" using Cons by blast+
  then show ?case by auto
qed simp

text \<open>The charts stay inside their boxes: for a series of non-negative values every point of the trend
  line lies between 10 and 190 on its 200 units and every point of a sparkline between 4 and 30 on
  its 30; a zero lies at the bottom and the greatest value, when it is at least 1, at the top.\<close>

theorem charts_fit:
  assumes vs: "\<forall>v \<in> set vs. 0 \<le> v" and v: "v \<in> set vs"
  defines "mx \<equiv> chart_max (map Fin vs)"
  shows "jle (Fin 10) (trend_y mx (Fin v)) \<and> jle (trend_y mx (Fin v)) (Fin 190) \<and>
    jle (Fin 4) (spark_y mx (Fin v)) \<and> jle (spark_y mx (Fin v)) (Fin 30) \<and>
    trend_y mx (Fin 0) = Fin 190 \<and> spark_y mx (Fin 0) = Fin 30 \<and>
    (mx = Fin v \<longrightarrow> trend_y mx (Fin v) = Fin 10 \<and> spark_y mx (Fin v) = Fin 4)"
proof -
  define k where "k = foldl max 1 vs"
  have m: "mx = Fin k" by (simp add: mx_def k_def chart_max_Fin)
  have k: "1 \<le> k" "v \<le> k" "0 \<le> v" using foldl_max_ge [of 1 vs] v vs by (auto simp: k_def)
  have q: "jle (Fin 0) (jdiv (Fin v) (Fin k))" "jle (jdiv (Fin v) (Fin k)) (Fin 1)"
  proof -
    have "jle (jdiv (Fin 0) (Fin k)) (jdiv (Fin v) (Fin k))" "jle (jdiv (Fin v) (Fin k)) (jdiv (Fin k) (Fin k))"
      using k jle_jdiv [of "Fin 0" "Fin v" k] jle_jdiv [of "Fin v" "Fin k" k] by (simp_all del: jdiv.simps)
    then show "jle (Fin 0) (jdiv (Fin v) (Fin k))" "jle (jdiv (Fin v) (Fin k)) (Fin 1)"
      using k by (simp_all add: fl64_simple)
  qed
  have y: "jle (Fin 0) (jmul (jdiv (Fin v) (Fin k)) (Fin c))" "jle (jmul (jdiv (Fin v) (Fin k)) (Fin c)) (fl64 c)"
    if "0 < c" for c
    using jle_jmul [OF q(1) that] jle_jmul [OF q(2) that] by (simp_all add: fl64_simple)
  have t: "jle (jsub (Fin 200) (Fin 180)) (jsub (Fin 200) (jmul (jdiv (Fin v) (Fin k)) (Fin 180)))"
    "jle (jsub (Fin 200) (jmul (jdiv (Fin v) (Fin k)) (Fin 180))) (jsub (Fin 200) (Fin 0))"
    using y [of 180] by (intro jle_jsub; simp add: fl64_simple)+
  have "jle (jsub (jsub (Fin 200) (Fin 180)) (Fin 10)) (trend_y mx (Fin v))"
    "jle (trend_y mx (Fin v)) (jsub (jsub (Fin 200) (Fin 0)) (Fin 10))"
    using jle_jsub_right [OF t(1), of 10] jle_jsub_right [OF t(2), of 10] by (simp_all add: trend_y_def m)
  moreover have "jle (jsub (Fin 30) (Fin 26)) (spark_y mx (Fin v))" "jle (spark_y mx (Fin v)) (jsub (Fin 30) (Fin 0))"
    using y [of 26] by (simp_all add: spark_y_def m fl64_simple jle_jsub)
  moreover have "trend_y mx (Fin 0) = Fin 190" "spark_y mx (Fin 0) = Fin 30"
    using k by (simp_all add: trend_y_def spark_y_def m jsub_def fl64_simple)
  moreover have "trend_y mx (Fin v) = Fin 10 \<and> spark_y mx (Fin v) = Fin 4" if "mx = Fin v"
    using k m that by (simp add: trend_y_def spark_y_def jsub_def fl64_simple)
  ultimately show ?thesis by (simp add: jsub_def fl64_simple)
qed

theorem charts_fit_witness:
  "jle (Fin 10) (trend_y (chart_max (map Fin [3, 5, 0])) (Fin 3)) \<and> trend_y (chart_max (map Fin [3, 5, 0])) (Fin 5) = Fin 10"
  using charts_fit [of "[3, 5, 0]" 3] charts_fit [of "[3, 5, 0]" 5] chart_max_Fin [of "[3, 5, 0]"] by simp

subsection \<open>The pass rate\<close>

lemma jle_trans: "jle x y \<Longrightarrow> jle y z \<Longrightarrow> jle x z"
  by (cases y; cases x; simp; cases z; simp)

definition rate_of :: "rat \<Rightarrow> jsnum" where
  "rate_of q = jdiv (jround (jmul (fl64 q) (Fin 1000))) (Fin 10)"

lemma rate_of_mono: "q \<le> q' \<Longrightarrow> jle (rate_of q) (rate_of q')"
  unfolding rate_of_def by (intro jle_jdiv jle_jround jle_jmul jle_fl64_mono) simp_all

lemma floor_half: "\<lfloor>1 / 2 :: rat\<rfloor> = 0" "\<lfloor>2001 / 2 :: rat\<rfloor> = 1000" "\<lfloor>1987 / 2 :: rat\<rfloor> = 993"
  by (rule floor_unique; simp)+

lemma rate_of_ends: "rate_of 0 = Fin 0" "rate_of 1 = Fin 100"
  by (simp_all add: rate_of_def fl64_simple jround_def jlift_def floor_half)

lemma fl_raw_99: "fl_raw (127 / 128) = 127 / 128" "fl_raw (993 / 10) < 100"
  by code_simp+

lemma rate_of_99: "\<not> jle (Fin 100) (rate_of (99 / 100))"
proof -
  have f: "fl64 993 = Fin 993" using fl64_int [of 993] by simp
  have h: "fl64 (127 / 128) = Fin (127 / 128)" by (simp add: fl64_small fl_raw_99)
  have "jle (fl64 (99 / 100)) (Fin (127 / 128))" using jle_fl64_mono [of "99 / 100" "127 / 128"] h by simp
  then have "jle (jmul (fl64 (99 / 100)) (Fin 1000)) (fl64 (127 / 128 * 1000))"
    using jle_jmul [of "fl64 (99 / 100)" "Fin (127 / 128)" 1000] by simp
  moreover have "jle (fl64 (127 / 128 * 1000)) (Fin 993)" using jle_fl64_mono [of "127 / 128 * 1000" 993] f by simp
  ultimately have "jle (jmul (fl64 (99 / 100)) (Fin 1000)) (Fin 993)" by (rule jle_trans)
  moreover have "jround (Fin 993) = Fin 993"
    using floor_half f by (simp add: jround_def jlift_def)
  ultimately have "jle (rate_of (99 / 100)) (fl64 (993 / 10))"
    using jle_jdiv [OF jle_jround, of _ "Fin 993" 10] by (simp add: rate_of_def)
  then show ?thesis using jle_trans [of "Fin 100" "rate_of (99 / 100)" "fl64 (993 / 10)"] fl64_small [of "993 / 10"] fl_raw_99(2) by auto
qed

lemma pass_rate_rate_of:
  "cs \<noteq> [] \<Longrightarrow> pass_rate cs = rate_of (of_nat (length (filter (\<lambda>c. cv_status c = js ''ok'') cs)) / of_nat (length cs))"
  by (simp add: pass_rate_def rate_of_def)

lemma pass_rate_bounds: "jle (Fin 0) (pass_rate cs) \<and> jle (pass_rate cs) (Fin 100)"
proof (cases "cs = []")
  case False
  let ?q = "of_nat (length (filter (\<lambda>c. cv_status c = js ''ok'') cs)) / of_nat (length cs) :: rat"
  have "0 \<le> ?q" "?q \<le> 1" using length_filter_le [of "\<lambda>c. cv_status c = js ''ok''" cs] by (simp_all add: divide_le_eq_1)
  then show ?thesis using rate_of_mono [of 0 ?q] rate_of_mono [of ?q 1] False
    by (simp add: pass_rate_rate_of rate_of_ends)
qed (simp add: pass_rate_def)

text \<open>Over the last hundred requests it is 100 exactly when all of them passed.\<close>

lemma pass_rate_full:
  assumes "cs \<noteq> []" "length cs \<le> 100"
  shows "pass_rate cs = Fin 100 \<longleftrightarrow> (\<forall>c \<in> set cs. cv_status c = js ''ok'')"
proof
  show "pass_rate cs = Fin 100" if "\<forall>c \<in> set cs. cv_status c = js ''ok''"
    using that assms(1) rate_of_ends by (simp add: pass_rate_rate_of)
  show "\<forall>c \<in> set cs. cv_status c = js ''ok''" if full: "pass_rate cs = Fin 100"
  proof (rule ccontr)
    let ?k = "length (filter (\<lambda>c. cv_status c = js ''ok'') cs)"
    assume "\<not> (\<forall>c \<in> set cs. cv_status c = js ''ok'')"
    then have "?k < length cs" using length_filter_less [of _ cs "\<lambda>c. cv_status c = js ''ok''"] by blast
    then have "100 * ?k \<le> 99 * length cs" using assms(2) by linarith
    then have "(of_nat (100 * ?k) :: rat) \<le> of_nat (99 * length cs)" by (simp only: of_nat_le_iff)
    then have "(of_nat ?k / of_nat (length cs) :: rat) \<le> 99 / 100" using assms(1) by (simp add: field_simps)
    from rate_of_mono [OF this] show False using full assms(1) rate_of_99 by (simp add: pass_rate_rate_of)
  qed
qed

section \<open>The invariant of the page\<close>

definition dash_ok :: "dashboard \<Rightarrow> bool" where
  "dash_ok s \<longleftrightarrow> length (db_attention s) \<le> 5 \<and> length (db_activity s) \<le> 6 \<and>
     jle (Fin 0) (db_pass_rate s) \<and> jle (db_pass_rate s) (Fin 100) \<and> db_error s \<in> {[], js ''No data yet''}"

lemma dash_ok_simps [simp]:
  "dash_ok (s\<lparr>db_range := v\<rparr>) = dash_ok s" "dash_ok (s\<lparr>db_workspace := w\<rparr>) = dash_ok s"
  "dash_ok (s\<lparr>db_metric := m\<rparr>) = dash_ok s" "dash_ok (s\<lparr>db_series := ps\<rparr>) = dash_ok s"
  "dash_ok (s\<lparr>db_pass_run := n\<rparr>) = dash_ok s"
  by (simp_all add: dash_ok_def)

lemma dash_ok_kpis [simp]:
  "dash_ok s \<Longrightarrow> dash_ok (s\<lparr>db_input := a, db_output := b, db_cost := c, db_requests := d, db_prev_input := e,
     db_prev_output := f, db_prev_cost := g, db_error := []\<rparr>)"
  "dash_ok s \<Longrightarrow> dash_ok (s\<lparr>db_error := js ''No data yet''\<rparr>)"
  by (simp_all add: dash_ok_def)

lemma dash_ok_panels [simp]:
  "dash_ok s \<Longrightarrow> dash_ok (s\<lparr>db_attention := take 5 xs\<rparr>)"
  "dash_ok s \<Longrightarrow> dash_ok (s\<lparr>db_attention := []\<rparr>)"
  "dash_ok s \<Longrightarrow> dash_ok (s\<lparr>db_activity := map f (take 6 cs)\<rparr>)"
  "dash_ok s \<Longrightarrow> dash_ok (s\<lparr>db_activity := []\<rparr>)"
  by (simp_all add: dash_ok_def)

lemma dash_ok_rate [simp]:
  "dash_ok s \<Longrightarrow> dash_ok (s\<lparr>db_pass_rate := pass_rate cs\<rparr>)"
  "dash_ok s \<Longrightarrow> dash_ok (s\<lparr>db_pass_rate := Fin 0\<rparr>)"
  using pass_rate_bounds [of cs] by (simp_all add: dash_ok_def)

lemma load_kpis_keeps: "keeps (load_kpis rd t) dash_ok adm (\<lambda>s. s)"
  by (simp add: load_kpis_def split: sum.split prod.split dash_reply.split)

lemma load_series_keeps: "keeps (load_series t) dash_ok adm (\<lambda>s. s)"
  by (simp add: load_series_def split: dash_reply.split)

lemma load_attention_keeps: "keeps (load_attention rd t) dash_ok adm (\<lambda>s. s)"
  by (simp add: load_attention_def Let_def del: take_append)

lemma load_recent_keeps: "keeps load_recent dash_ok adm (\<lambda>s. s)"
  by (simp add: load_recent_def split: dash_reply.split)

lemma load_pass_rate_keeps: "keeps (load_pass_rate t) dash_ok adm (\<lambda>s. s)"
  by (simp add: load_pass_rate_def Let_def split: dash_reply.split)

lemmas dash_loads_keep = load_kpis_keeps load_series_keeps load_attention_keeps load_recent_keeps load_pass_rate_keeps

lemma dash_handler_keeps: "keeps (dash_handler rd e s) dash_ok adm (\<lambda>s. s)"
proof (cases e)
  case (DRange v)
  then show ?thesis using dash_loads_keep keeps_after_update [OF load_kpis_keeps, of "\<lambda>s. s\<lparr>db_range := v\<rparr>"]
    by (simp add: Let_def first_effect_def)
next
  case (DWorkspace w)
  then show ?thesis using dash_loads_keep keeps_after_update [OF load_kpis_keeps, of "\<lambda>s. s\<lparr>db_workspace := w\<rparr>"]
    by (simp add: Let_def first_effect_def)
next
  case (DMetric m)
  then show ?thesis using load_series_keeps keeps_after_update [OF load_series_keeps, of "\<lambda>s. s\<lparr>db_metric := m\<rparr>"] by simp
qed (use dash_loads_keep in \<open>simp_all add: first_effect_def\<close>)

interpretation dash_inv: page_invariant "dash_handler rd" dash_enabled "dash_adm b" "dashboard_init ws" dash_ok
  for rd b ws
  by unfold_locales (simp_all add: dash_handler_keeps, simp add: dash_ok_def dashboard_init_def)

text \<open>C18. Whatever the answers and their order, the landing page shows at most five items that need
  attention and at most six requests, its pass rate is a number between 0 and 100, and its error
  line is empty or says that there are no data.\<close>

theorem dashboard_invariant:
  assumes "sys_reach (dash_handler rd) dash_enabled (dash_adm b) (mount (dashboard_init ws)) m"
  shows "length (db_attention (ui m)) \<le> 5 \<and> length (db_activity (ui m)) \<le> 6 \<and>
    jle (Fin 0) (db_pass_rate (ui m)) \<and> jle (db_pass_rate (ui m)) (Fin 100) \<and>
    db_error (ui m) \<in> {[], js ''No data yet''}"
  using dash_inv.reach_inv [OF assms] by (simp add: dash_ok_def)

definition seen_conv :: "string \<Rightarrow> conversation_item" where
  "seen_conv st = \<lparr>cv_id = js ''c'', cv_tenant_id = js ''acme'', cv_model = js ''gpt-4o'', cv_status = js st,
     cv_masked = False, cv_streamed = False, cv_mask_id = None, cv_created_at = []\<rparr>"

lemma first_load:
  "load_kpis read_iso (dashboard_init None) =
     Await (DKpis \<lparr>pd_from = [], pd_to = [], pd_workspace = []\<rparr> [] []) (\<lambda>r. case r of
        GotKpis t c pt pc \<Rightarrow> Upd (\<lambda>s. s\<lparr>db_input := tokens_total_input t, db_output := tokens_total_output t,
            db_cost := costs_total c, db_requests := costs_requests c, db_prev_input := tokens_total_input pt,
            db_prev_output := tokens_total_output pt, db_prev_cost := costs_total pc, db_error := []\<rparr>) Done
      | _ \<Rightarrow> Upd (\<lambda>s. s\<lparr>db_error := js ''No data yet''\<rparr>) Done)"
  using empty_invalid_read_iso
  by (simp add: load_kpis_def dash_period_def dashboard_init_def default_range_def bound_text_def shift_window_def empty_invalid_def)

lemma answered_morning:
  "do_moves (dash_handler read_iso) dash_enabled (dash_adm b)
     [Fire DMount, Answer 4 (GotConvs (replicate 7 (seen_conv ''ok''))), Answer 2 (GotConvs (replicate 7 (seen_conv ''ok'')))]
     (mount (dashboard_init None)) = Some m \<Longrightarrow> length (db_activity (ui m)) = 6"
  by (auto simp: mount_def resume_def first_effect_def first_load load_attention_def load_recent_def load_series_def
      load_pass_rate_def dash_adm_def)

theorem dashboard_invariant_witness:
  "\<forall>b. \<exists>m. sys_reach (dash_handler read_iso) dash_enabled (dash_adm b) (mount (dashboard_init None)) m \<and>
     length (db_activity (ui m)) = 6 \<and> length (db_attention (ui m)) \<le> 5 \<and> jle (db_pass_rate (ui m)) (Fin 100)"
proof
  fix b
  have "\<exists>m. do_moves (dash_handler read_iso) dash_enabled (dash_adm b)
     [Fire DMount, Answer 4 (GotConvs (replicate 7 (seen_conv ''ok''))), Answer 2 (GotConvs (replicate 7 (seen_conv ''ok'')))]
     (mount (dashboard_init None)) = Some m"
    by (simp add: mount_def resume_def first_effect_def first_load load_attention_def load_recent_def load_series_def
      load_pass_rate_def dash_adm_def conv_100_def)
  then obtain m where m: "sys_reach (dash_handler read_iso) dash_enabled (dash_adm b) (mount (dashboard_init None)) m"
    "length (db_activity (ui m)) = 6" using answered_morning schedule_reach by blast
  then show "\<exists>m. sys_reach (dash_handler read_iso) dash_enabled (dash_adm b) (mount (dashboard_init None)) m \<and>
     length (db_activity (ui m)) = 6 \<and> length (db_attention (ui m)) \<le> 5 \<and> jle (db_pass_rate (ui m)) (Fin 100)"
    using dashboard_invariant [OF m(1)] by blast
qed

section \<open>The attention panel\<close>

text \<open>A budget whose amounts are proper doubles, and one that has reached its limit.\<close>

definition plain_budget :: "budget \<Rightarrow> bool" where
  "plain_budget b \<longleftrightarrow> (case bud_spent b of Fin s \<Rightarrow> is_double s \<and> 0 \<le> s | _ \<Rightarrow> False) \<and>
     (case bud_hard_limit b of None \<Rightarrow> True | Some (Fin h) \<Rightarrow> is_double h \<and> 0 \<le> h | Some _ \<Rightarrow> False)"

definition over_limit :: "budget \<Rightarrow> bool" where
  "over_limit b \<longleftrightarrow> (case (bud_spent b, bud_hard_limit b) of (Fin s, Some (Fin h)) \<Rightarrow> 0 < h \<and> h \<le> s | _ \<Rightarrow> False)"

abbreviation is_red :: "attention_item \<Rightarrow> bool" where
  "is_red x \<equiv> at_tone x = ToneRed"

lemma budget_attention_red:
  assumes "plain_budget b"
  shows "filter is_red (budget_attention b) = (if over_limit b then budget_attention b else [])"
    "length (budget_attention b) \<le> 1" "over_limit b \<Longrightarrow> length (budget_attention b) = 1"
proof -
  obtain s where s: "bud_spent b = Fin s" "is_double s" "0 \<le> s"
    using assms by (auto simp: plain_budget_def split: jsnum.splits)
  consider "bud_hard_limit b = None" | h where "bud_hard_limit b = Some (Fin h)" "is_double h" "0 \<le> h"
    using assms by (auto simp: plain_budget_def split: option.splits jsnum.splits)
  then have "filter is_red (budget_attention b) = (if over_limit b then budget_attention b else []) \<and>
    length (budget_attention b) \<le> 1 \<and> (over_limit b \<longrightarrow> length (budget_attention b) = 1)"
  proof cases
    case 1
    then show ?thesis by (simp add: budget_attention_def over_limit_def split: jsnum.split)
  next
    case (2 h)
    then consider "h = 0" | "0 < h" "h \<le> s" | "0 < h" "s < h" by linarith
    then show ?thesis
    proof cases
      case 2
      then show ?thesis using percent_reached [of h s] \<open>bud_hard_limit b = _\<close> s
        by (simp add: budget_attention_def over_limit_def truthy_num_def Let_def)
    next
      case 3
      then obtain p where p: "percent_of (Fin s) (Fin h) = Fin p" "p < 100" using percent_below [of s h] s 2 by blast
      then show ?thesis using 3 2 s by (simp add: budget_attention_def over_limit_def truthy_num_def Let_def)
    qed (use 2 s in \<open>simp add: budget_attention_def over_limit_def truthy_num_def\<close>)
  qed
  then show "filter is_red (budget_attention b) = (if over_limit b then budget_attention b else [])"
    "length (budget_attention b) \<le> 1" "over_limit b \<Longrightarrow> length (budget_attention b) = 1" by blast+
qed

lemma budgets_red:
  assumes "\<forall>b \<in> set bs. plain_budget b"
  shows "length (filter is_red (concat (map budget_attention bs))) = length (filter over_limit bs)"
  using assms by (induction bs) (simp_all add: budget_attention_red)

lemma providers_red:
  "length (filter is_red (concat (map provider_attention ps))) =
   length (filter (\<lambda>p. pv_status p = Some (js ''down'')) ps)"
  by (induction ps) (auto simp: provider_attention_def js_def)

lemma rest_not_red: "filter is_red (keys_attention rd now ks) = []" "filter is_red (blocked_attention cs) = []"
  by (simp_all add: keys_attention_def blocked_attention_def Let_def)

lemma budget_links: "x \<in> set (concat (map budget_attention bs)) \<Longrightarrow> at_to x = Some (js ''/budgets'')"
  by (auto simp: budget_attention_def Let_def split: option.splits if_splits)

text \<open>The items an answer contributes; a failed request contributes none.\<close>

definition contributed :: "date_reader \<Rightarrow> dash_reply \<Rightarrow> attention_item list" where
  "contributed rd r = (case r of GotBudgets bs \<Rightarrow> concat (map budget_attention bs)
     | GotProviders ps \<Rightarrow> concat (map provider_attention ps) | GotKeys now ks \<Rightarrow> keys_attention rd now ks
     | GotConvs cs \<Rightarrow> blocked_attention cs | _ \<Rightarrow> [])"


definition seen_budget :: budget where
  "seen_budget = \<lparr>bud_id = js ''b'', bud_tenant_id = js ''acme'', bud_virtual_key_id = [], bud_model = [],
     bud_scope = js ''tenant'', bud_type = js ''monthly'', bud_custom_days = Fin 0, bud_soft_limit = None,
     bud_hard_limit = Some (Fin 3), bud_currency = js ''USD'', bud_notify_at = [], bud_enabled = True,
     bud_spent = Fin 3, bud_created_at = [], bud_updated_at = []\<rparr>"


end
