(* ===== verification/Chart.thy ===== *)
theory Chart
  imports Api Ratio Windows
begin

text \<open>
  ui/src/components/TimeSeriesChart.tsx: what the chart library is given to draw, the formatters of
  its axes and its tooltip. \<open>rd\<close> reads a date string (None is an invalid date, whose fields are all
  NaN), \<open>tz\<close> is the time zone, \<open>now\<close> the time of the render, \<open>num\<close> Number.toLocaleString.
\<close>

section \<open>Formatters\<close>

definition fmt_short :: "jsnum \<Rightarrow> jsstring" where
  "fmt_short n = (if jle (Fin 1000000) n then to_fixed 1 (jdiv n (Fin 1000000)) @ js ''M''
     else if jle (Fin 1000) n then to_fixed 1 (jdiv n (Fin 1000)) @ js ''K''
     else num_str n)"

text \<open>\<open>(now.getTime() - d.getTime()) / 3600_000\<close>\<close>

definition hours_since :: "int \<Rightarrow> int option \<Rightarrow> jsnum" where
  "hours_since now d = (case d of None \<Rightarrow> NaN
     | Some t \<Rightarrow> jdiv (jsub (Fin (of_int now)) (Fin (of_int t))) (Fin 3600000))"

text \<open>The fields of a date, as they are printed: day, month, hours, minutes, padded or not.\<close>

definition date_field :: "(int \<Rightarrow> jsstring) \<Rightarrow> (int \<Rightarrow> int) \<Rightarrow> int option \<Rightarrow> jsstring" where
  "date_field print f d = (case d of None \<Rightarrow> js ''NaN'' | Some t \<Rightarrow> print (f t))"

definition clock :: "time_zone \<Rightarrow> int option \<Rightarrow> jsstring" where
  "clock tz d = date_field pad (local_hours tz) d @ js '':'' @ date_field pad (local_minutes tz) d"

definition day_month :: "(int \<Rightarrow> jsstring) \<Rightarrow> time_zone \<Rightarrow> int option \<Rightarrow> jsstring" where
  "day_month print tz d = date_field int_str (\<lambda>t. day (local_date tz t)) d @ js ''.'' @
     date_field print (\<lambda>t. month (local_date tz t)) d"

definition fmt_tick :: "date_reader \<Rightarrow> time_zone \<Rightarrow> int \<Rightarrow> jsstring \<Rightarrow> jsstring" where
  "fmt_tick rd tz now x = (let d = rd x; h = hours_since now d in
     if jlt h (Fin 24) then clock tz d
     else if jlt h (Fin 168) then day_month int_str tz d @ js '' '' @ clock tz d
     else day_month int_str tz d)"

definition fmt_label :: "date_reader \<Rightarrow> time_zone \<Rightarrow> int \<Rightarrow> jsstring \<Rightarrow> jsstring" where
  "fmt_label rd tz now x = (let d = rd x in
     if jlt (hours_since now d) (Fin 24) then clock tz d
     else day_month pad tz d @ js '' '' @ clock tz d)"

section \<open>The chart and its tooltip\<close>

record chart_point =
  cp_bucket :: jsstring
  cp_label :: jsstring
  cp_input :: jsnum
  cp_output :: jsnum
  cp_compare :: "jsnum option"

text \<open>\<open>compare?.[i]\<close>\<close>

definition compared :: "series_point list option \<Rightarrow> nat \<Rightarrow> jsnum option" where
  "compared cmp i = (case cmp of None \<Rightarrow> None
     | Some ps \<Rightarrow> if i < length ps then Some (jadd (sr_input_tokens (ps ! i)) (sr_output_tokens (ps ! i))) else None)"

definition chart_data :: "date_reader \<Rightarrow> time_zone \<Rightarrow> int \<Rightarrow> series_point list \<Rightarrow> series_point list option \<Rightarrow> chart_point list" where
  "chart_data rd tz now ps cmp = map (\<lambda>(i, d). \<lparr>cp_bucket = sr_bucket d, cp_label = fmt_label rd tz now (sr_bucket d),
     cp_input = sr_input_tokens d, cp_output = sr_output_tokens d, cp_compare = compared cmp i\<rparr>) (enumerate 0 ps)"

text \<open>The areas drawn and the legend: the comparison only where there is one.\<close>

definition chart_areas :: "series_point list option \<Rightarrow> jsstring list" where
  "chart_areas cmp = [js ''Input'', js ''Output''] @ (if cmp = None then [] else [js ''Compare''])"

definition chart_legend :: "series_point list option \<Rightarrow> jsstring list" where
  "chart_legend cmp = [js ''Input'', js ''Output''] @ (if cmp = None then [] else [js ''prev period''])"

definition time_series_chart :: "date_reader \<Rightarrow> time_zone \<Rightarrow> int \<Rightarrow> series_point list \<Rightarrow> series_point list option \<Rightarrow>
    jsstring + chart_point list \<times> jsstring list \<times> jsstring list" where
  "time_series_chart rd tz now ps cmp = (if ps = [] then Inl (js ''No data for this period'')
     else Inr (chart_data rd tz now ps cmp, chart_areas cmp, chart_legend cmp))"

text \<open>An entry of the payload: name and value.\<close>

definition chart_tooltip :: "date_reader \<Rightarrow> time_zone \<Rightarrow> int \<Rightarrow> (jsnum \<Rightarrow> jsstring) \<Rightarrow> bool \<Rightarrow>
    (jsstring \<times> jsnum) list option \<Rightarrow> jsstring option \<Rightarrow> (jsstring \<times> (jsstring \<times> jsstring) list) option" where
  "chart_tooltip rd tz now num active entries label =
    (if \<not> active \<or> entries = None \<or> entries = Some [] then None
     else Some (case label of None \<Rightarrow> [] | Some l \<Rightarrow> if l = [] then [] else fmt_label rd tz now l,
       map (\<lambda>(n, v). (n @ js '':'', num v)) (the entries)))"

section \<open>Exactness of the bands\<close>

lemma fmt_short_tokens: "is_finite n \<Longrightarrow> fmt_short n = fmt_tokens n"
  by (simp add: fmt_short_def fmt_tokens_def)

text \<open>The two roundings of the quotient do not move a time across a whole number of hours.\<close>

lemma hours_since_less:
  assumes "0 < k" "k \<le> 2 ^ 31"
  shows "jlt (hours_since now (Some t)) (Fin (of_int k)) \<longleftrightarrow> now - t < k * 3600000"
proof -
  have sub: "jsub (Fin (of_int now)) (Fin (of_int t)) = fl64 (of_int (now - t))" by (simp add: jsub_def)
  define K where "K = k * 3600000"
  have K: "0 < K" "\<bar>K\<bar> \<le> 2 ^ 53" "\<bar>K - 1\<bar> \<le> 2 ^ 53" using assms by (simp_all add: K_def)
  show ?thesis
  proof (cases "now - t < K")
    case True
    then have "jle (fl64 (of_int (now - t))) (fl64 (of_int (K - 1)))" by (intro jle_fl64_mono) (simp only: of_int_le_iff)
    then have "jle (fl64 (of_int (now - t))) (Fin (of_int (K - 1)))" using fl64_int [OF K(3)] by simp
    then have q: "jle (hours_since now (Some t)) (fl64 (of_int (K - 1) / 3600000))"
      using jle_jdiv [of "fl64 (of_int (now - t))" "Fin (of_int (K - 1))" 3600000] by (simp add: hours_since_def sub)
    have "(of_int (K - 1) :: rat) / 3600000 \<le> of_int k - pow2 (- 22)" by (simp add: K_def pow2_def field_simps)
    then have "fl_raw (of_int (K - 1) / 3600000) < of_int k" using assms by (intro fl_raw_below_int) simp_all
    moreover have "\<bar>of_int (K - 1) / 3600000\<bar> \<le> (9007199254740992 :: rat)"
    proof -
      have "(0 :: rat) \<le> of_int (K - 1)" "(of_int (K - 1) :: rat) \<le> of_int (2 ^ 53)" using K by (simp_all only: of_int_0_le_iff of_int_le_iff)
      then show ?thesis by simp
    qed
    ultimately have "jlt (hours_since now (Some t)) (Fin (of_int k))" using q
      by (cases "hours_since now (Some t)") (simp_all add: fl64_small)
    then show ?thesis using True by (simp add: K_def)
  next
    case False
    then have "jle (fl64 (of_int K)) (fl64 (of_int (now - t)))" by (intro jle_fl64_mono) (simp only: of_int_le_iff not_less)
    then have "jle (jdiv (Fin (of_int K)) (Fin 3600000)) (hours_since now (Some t))"
      using fl64_int [OF K(2)] jle_jdiv [of "Fin (of_int K)" "fl64 (of_int (now - t))" 3600000] by (simp add: hours_since_def sub del: jdiv.simps)
    moreover have "jdiv (Fin (of_int K)) (Fin 3600000) = Fin (of_int k)" using fl64_int [of k] assms by (simp add: K_def)
    ultimately have "\<not> jlt (hours_since now (Some t)) (Fin (of_int k))"
      by (cases "hours_since now (Some t)") simp_all
    then show ?thesis using False by (simp add: K_def)
  qed
qed

text \<open>What the chart says of a time: a tick shows the clock below 24 hours of age (a time to come
  included), day, month and clock below 168 hours, and day and month from then on; the tooltip
  shows the same clock below 24 hours, and otherwise day, month and clock, with the month padded. A
  date that cannot be read prints NaN for each field.\<close>

theorem chart_times:
  assumes "rd x = Some t"
  shows "fmt_tick rd tz now x = (if now - t < 86400000 then clock tz (Some t)
      else if now - t < 7 * 86400000 then day_month int_str tz (Some t) @ js '' '' @ clock tz (Some t)
      else day_month int_str tz (Some t)) \<and>
    fmt_label rd tz now x = (if now - t < 86400000 then clock tz (Some t)
      else day_month pad tz (Some t) @ js '' '' @ clock tz (Some t)) \<and>
    clock tz (Some t) = pad (local_hours tz t) @ js '':'' @ pad (local_minutes tz t) \<and>
    (rd y = None \<longrightarrow> fmt_tick rd tz now y = js ''NaN.NaN'' \<and> fmt_label rd tz now y = js ''NaN.NaN NaN:NaN'')"
proof -
  have "jlt (hours_since now (Some t)) (Fin 24) \<longleftrightarrow> now - t < 86400000"
    "jlt (hours_since now (Some t)) (Fin 168) \<longleftrightarrow> now - t < 7 * 86400000"
    using hours_since_less [of 24 now t] hours_since_less [of 168 now t] by simp_all
  moreover have "js ''NaN'' @ js ''.'' @ js ''NaN'' = js ''NaN.NaN''"
    "js ''NaN.NaN'' @ js '' '' @ js ''NaN'' @ js '':'' @ js ''NaN'' = js ''NaN.NaN NaN:NaN''" by code_simp+
  moreover have "hours_since now None = NaN" by (simp add: hours_since_def)
  ultimately show ?thesis using assms
    by (simp add: fmt_tick_def fmt_label_def Let_def clock_def day_month_def date_field_def)
qed

theorem chart_times_witness:
  "fmt_tick read_iso (\<lambda>_. 0) 90000000 (iso_string 0) = js ''1.1 00:00'' \<and> fmt_label read_iso (\<lambda>_. 0) 90000000 (iso_string 0) = js ''1.01 00:00''"
proof -
  have r: "read_iso (iso_string 0) = Some 0" using reads_iso_read_iso by (simp add: reads_iso_def max_time_def)
  have "day_month int_str (\<lambda>_. 0) (Some 0) @ js '' '' @ clock (\<lambda>_. 0) (Some 0) = js ''1.1 00:00''"
    "day_month pad (\<lambda>_. 0) (Some 0) @ js '' '' @ clock (\<lambda>_. 0) (Some 0) = js ''1.01 00:00''" by code_simp+
  then show ?thesis using chart_times [where rd = read_iso and x = "iso_string 0" and tz = "\<lambda>_. 0" and now = 90000000, OF r] by simp
qed

text \<open>What is drawn: one point per bucket with its own figures, compared by position with the previous
  period; buckets beyond its end have nothing to be compared with, and the comparison has an area
  and a legend exactly when there is one.\<close>

theorem chart_points:
  assumes "i < length ps"
  shows "length (chart_data rd tz now ps cmp) = length ps \<and>
    (let c = chart_data rd tz now ps cmp ! i in
      cp_bucket c = sr_bucket (ps ! i) \<and> cp_input c = sr_input_tokens (ps ! i) \<and> cp_output c = sr_output_tokens (ps ! i) \<and>
      cp_label c = fmt_label rd tz now (sr_bucket (ps ! i)) \<and>
      (cp_compare c = None \<longleftrightarrow> cmp = None \<or> (\<exists>qs. cmp = Some qs \<and> length qs \<le> i)) \<and>
      (\<forall>qs. cmp = Some qs \<and> i < length qs \<longrightarrow>
         cp_compare c = Some (jadd (sr_input_tokens (qs ! i)) (sr_output_tokens (qs ! i))))) \<and>
    (js ''Compare'' \<in> set (chart_areas cmp) \<longleftrightarrow> cmp \<noteq> None) \<and> (js ''prev period'' \<in> set (chart_legend cmp) \<longleftrightarrow> cmp \<noteq> None)"
  using assms
  by (auto simp: chart_data_def compared_def chart_areas_def chart_legend_def js_def nth_enumerate_eq split: option.split)

end
