(* ===== verification/AuditLog.thy ===== *)
theory AuditLog
  imports AsyncPage Windows Sorting Widgets
begin

text \<open>
  ui/src/pages/AuditLog.tsx: the audit entries, read once through useAsyncData, filtered by the
  picked range and sorted. The request uses fetch directly. \<open>rd\<close> reads a date string, \<open>loc\<close> is
  the locale's date formatter.
\<close>

section \<open>Request and state\<close>

record audit_entry =
  au_id :: jsnum
  au_admin_username :: jsstring
  au_action :: jsstring
  au_target :: jsstring
  au_details :: jsstring
  au_created_at :: jsstring

definition audit_request :: http_request where
  "audit_request = plain_get (js ''/api/v1/audit'') True"

definition audit_result :: "outcome \<Rightarrow> js_error + json list" where
  "audit_result out = (case out of
      NetFail \<Rightarrow> Inl fetch_failed
    | Resp r \<Rightarrow> if \<not> resp_ok r then Inl (GenErr (js ''fetch failed''))
        else (case read_json r of Inl e \<Rightarrow> Inl e
          | Inr b \<Rightarrow> (case unwrap_data b of Inl e \<Rightarrow> Inl e
              | Inr d \<Rightarrow> (case get_prop (js ''items'') d of Inl e \<Rightarrow> Inl e
                  | Inr i \<Rightarrow> Inr (case i of Some (JArr xs) \<Rightarrow> xs | _ \<Rightarrow> [])))))"

datatype audit_column = AuCreated | AuAdmin | AuAction | AuTarget

record audit_page =
  au_data :: "(unit, audit_entry list, js_error) async_data"
  au_sort :: "audit_column sort_state"
  au_range :: range_value

text \<open>The range starts as the last seven days before the page was mounted.\<close>

definition audit_init :: "int \<Rightarrow> audit_page" where
  "audit_init now = \<lparr>au_data = mounted_data, au_sort = \<lparr>sort_key = Some AuCreated, sort_dir = Desc\<rparr>,
     au_range = ms_range (js ''7d'') (now - 7 * 86400000, now)\<rparr>"

section \<open>Rows\<close>

definition audit_in_range :: "date_reader \<Rightarrow> audit_page \<Rightarrow> audit_entry list" where
  "audit_in_range rd s = (let xs = nullish (ad_data (au_data s)) [] in
     if rg_mode (au_range s) = js ''all'' then xs
     else filter (\<lambda>e. time_in_range rd (au_range s) (au_created_at e)) xs)"

fun audit_cell :: "audit_entry \<Rightarrow> audit_column \<Rightarrow> cell" where
  "audit_cell e AuCreated = CStr (au_created_at e)"
| "audit_cell e AuAdmin = CStr (au_admin_username e)"
| "audit_cell e AuAction = CStr (au_action e)"
| "audit_cell e AuTarget = CStr (au_target e)"

definition audit_rows :: "date_reader \<Rightarrow> audit_page \<Rightarrow> audit_entry list" where
  "audit_rows rd s = sort_rows audit_cell (audit_in_range rd s) (sort_key (au_sort s)) (sort_dir (au_sort s))"

text \<open>A header: its label, aria-sort and whether it is the active one.\<close>

definition audit_heads :: "audit_page \<Rightarrow> (audit_column \<times> jsstring \<times> jsstring) list" where
  "audit_heads s = map (\<lambda>(c, l). (c, js l, aria_sort (sort_key (au_sort s) = Some c) (sort_dir (au_sort s))))
     [(AuCreated, ''Timestamp''), (AuAdmin, ''Admin''), (AuAction, ''Action''), (AuTarget, ''Target'')]"

text \<open>The cells of a row, and the text its copy button copies where it has one.\<close>

definition audit_cells :: "(jsstring \<Rightarrow> jsstring) \<Rightarrow> audit_entry \<Rightarrow> jsstring list \<times> jsstring option" where
  "audit_cells loc e = ([loc (au_created_at e), au_admin_username e, au_action e, au_target e, str_or (au_details e) dash],
     if au_details e = [] then None else Some (au_details e))"

record audit_view =
  avw_heads :: "(audit_column \<times> jsstring \<times> jsstring) list"
  avw_rows :: "(jsstring list \<times> jsstring option) list"
  avw_empty :: "jsstring option"
  avw_skeleton :: "jsstring list list option"

definition audit_render :: "date_reader \<Rightarrow> (jsstring \<Rightarrow> jsstring) \<Rightarrow> audit_page \<Rightarrow> audit_view" where
  "audit_render rd loc s = \<lparr>avw_heads = audit_heads s, avw_rows = map (audit_cells loc) (audit_rows rd s),
     avw_empty = (if \<not> ad_loading (au_data s) \<and> audit_rows rd s = [] then Some (js ''No events'') else None),
     avw_skeleton = (if ad_loading (au_data s) then Some (table_skeleton (Some 4) (Some 5)) else None)\<rparr>"

section \<open>Events\<close>

datatype audit_event =
    AuSettle nat "(audit_entry list, js_error) promise"
  | AuSort audit_column
  | AuRange range_value

fun audit_step :: "audit_event \<Rightarrow> audit_page \<Rightarrow> audit_page" where
  "audit_step (AuSettle i p) s = s\<lparr>au_data := ad_settle i p (au_data s)\<rparr>"
| "audit_step (AuSort c) s = s\<lparr>au_sort := sort_toggle c (au_sort s)\<rparr>"
| "audit_step (AuRange v) s = s\<lparr>au_range := v\<rparr>"

definition is_settle :: "audit_event \<Rightarrow> bool" where
  "is_settle e = (case e of AuSettle _ _ \<Rightarrow> True | _ \<Rightarrow> False)"

lemma audit_before: "\<forall>e \<in> set evs. \<not> is_settle e \<Longrightarrow> au_data (fold audit_step evs s) = au_data s"
proof (induction evs arbitrary: s)
  case (Cons e evs)
  then show ?case by (cases e) (simp_all add: is_settle_def)
qed simp

lemma audit_after: "au_data s = loaded_once es \<Longrightarrow> au_data (fold audit_step evs s) = loaded_once es"
proof (induction evs arbitrary: s)
  case (Cons e evs)
  then have "au_data (audit_step e s) = loaded_once es" by (cases e) simp_all
  then show ?case using Cons.IH by simp
qed simp

lemma audit_loaded:
  assumes "\<forall>e \<in> set evs. \<not> is_settle e"
  shows "au_data (fold audit_step (evs @ AuSettle 0 (Fulfilled es) # evs') (audit_init now)) = loaded_once es"
proof -
  have "au_data (fold audit_step evs (audit_init now)) = mounted_data"
    using audit_before [OF assms, of "audit_init now"] by (simp add: audit_init_def)
  then have "au_data (audit_step (AuSettle 0 (Fulfilled es)) (fold audit_step evs (audit_init now))) = loaded_once es"
    by (simp add: loaded_once_def)
  from audit_after [OF this, of evs'] show ?thesis by simp
qed

lemma audit_sort_key: "sort_key (au_sort (fold audit_step evs (audit_init now))) \<noteq> None"
proof -
  have "sort_key (au_sort s) \<noteq> None \<Longrightarrow> sort_key (au_sort (fold audit_step evs s)) \<noteq> None" for s
  proof (induction evs arbitrary: s)
    case (Cons e evs)
    then have "sort_key (au_sort (audit_step e s)) \<noteq> None" by (cases e) (simp_all add: sort_toggle_def)
    then show ?case using Cons.IH by simp
  qed simp
  then show ?thesis by (simp add: audit_init_def)
qed

lemma audit_consistent: "consistent_comparator (row_cmp audit_cell k dir) UNIV"
  by (rule text_consistent) (cases k; simp add: text_cell_def)

text \<open>C40. The audit log shows what was asked for: once the entries have arrived, whatever was sorted or picked
  before and whatever happens after, choosing a preset shows exactly the entries whose time can be
  read and lies within its bounds (all of them for the preset 'all'), ordered by the current
  column; the first click on another column sorts it ascending.\<close>

theorem audit_rows_correct:
  fixes tz :: time_zone and es :: "audit_entry list" and evs' :: "audit_event list" and now :: int
  assumes rd: "reads_iso rd" and early: "\<forall>e \<in> set evs. \<not> is_settle e"
    and bounds: "\<bar>fst (preset_range tz utc t p)\<bar> \<le> max_time" "\<bar>snd (preset_range tz utc t p)\<bar> \<le> max_time"
  defines "s \<equiv> fold audit_step (evs @ AuSettle 0 (Fulfilled es) # evs') (audit_init now)"
  shows "let s' = audit_step (AuRange (handle_preset tz utc t p)) s in
    mset (audit_rows rd s') = filter_mset (\<lambda>e. p = AllTime \<or> (\<exists>ts. rd (au_created_at e) = Some ts \<and>
       fst (preset_range tz utc t p) \<le> ts \<and> ts \<le> snd (preset_range tz utc t p))) (mset es) \<and>
    (\<exists>k. sort_key (au_sort s') = Some k \<and>
       sorted_wrt (\<lambda>x y. row_cmp audit_cell k (sort_dir (au_sort s')) x y \<le> 0) (audit_rows rd s')) \<and>
    avw_skeleton (audit_render rd loc s') = None"
proof -
  define s' where "s' = audit_step (AuRange (handle_preset tz utc t p)) s"
  have d: "au_data s' = loaded_once es" using audit_loaded [OF early, of es evs' now] by (simp add: s'_def s_def del: fold_append)
  have r: "au_range s' = ms_range (preset_mode p) (preset_range tz utc t p)" by (simp add: s'_def handle_preset_def)
  have m: "rg_mode (au_range s') = js ''all'' \<longleftrightarrow> p = AllTime"
    by (cases p) (simp_all add: r ms_range_def preset_mode_def js_def)
  have i: "audit_in_range rd s' = filter (\<lambda>e. p = AllTime \<or> (\<exists>ts. rd (au_created_at e) = Some ts \<and>
       fst (preset_range tz utc t p) \<le> ts \<and> ts \<le> snd (preset_range tz utc t p))) es"
    using time_in_ms_range [OF rd bounds] by (simp add: audit_in_range_def d m Let_def) (simp add: r)
  obtain k where k: "sort_key (au_sort s') = Some k"
    using audit_sort_key [of "evs @ AuSettle 0 (Fulfilled es) # evs'" now] by (auto simp: s'_def s_def)
  have "sorted_wrt (\<lambda>x y. row_cmp audit_cell k (sort_dir (au_sort s')) x y \<le> 0) (audit_rows rd s')"
    using consistent_comparator.ordered_array_sort [OF audit_consistent, of "audit_in_range rd s'"]
    by (simp add: audit_rows_def sort_rows_def k)
  moreover have "mset (audit_rows rd s') = mset (audit_in_range rd s')" by (simp add: audit_rows_def sort_rows_def k)
  ultimately show ?thesis unfolding s'_def [symmetric] Let_def
    by (simp add: i k audit_render_def d)
qed

definition demo_entry :: "int \<Rightarrow> audit_entry" where
  "demo_entry t = \<lparr>au_id = Fin 1, au_admin_username = js ''admin'', au_action = js ''login'', au_target = [], au_details = [],
     au_created_at = iso_string t\<rparr>"

theorem audit_rows_correct_witness:
  "mset (audit_rows read_iso (audit_step (AuRange (handle_preset (\<lambda>_. 0) id 864000000 Week))
     (fold audit_step [AuSort AuAdmin, AuSettle 0 (Fulfilled [demo_entry 0, demo_entry 500000000]), AuSort AuTarget]
       (audit_init 864000000)))) = {#demo_entry 500000000#}"
proof -
  have b: "\<bar>fst (preset_range (\<lambda>_. 0) id 864000000 Week)\<bar> \<le> max_time" "\<bar>snd (preset_range (\<lambda>_. 0) id 864000000 Week)\<bar> \<le> max_time"
    by (simp_all add: preset_range_def max_time_def)
  have e: "\<forall>e \<in> set [AuSort AuAdmin]. \<not> is_settle e" by (simp add: is_settle_def)
  have t: "read_iso (iso_string 0) = Some 0" "read_iso (iso_string 500000000) = Some 500000000"
    using reads_iso_read_iso by (simp_all add: reads_iso_def max_time_def)
  show ?thesis
    using audit_rows_correct [OF reads_iso_read_iso e b, of "[demo_entry 0, demo_entry 500000000]" "[AuSort AuTarget]" 864000000]
    by (simp add: Let_def t demo_entry_def preset_range_def)
qed

end
