(* ===== verification/TenantList.thy ===== *)
theory TenantList
  imports AsyncPage Widgets Format
begin

text \<open>
  ui/src/pages/Tenants/TenantList.tsx: the tenants, read once through useAsyncData, whose onError
  shows a message for four seconds. \<open>loc\<close> is the locale's date formatter.
\<close>

section \<open>State\<close>

text \<open>The error cell is null or the one message; \<open>tnl_timer\<close> is the time left of the timeout that clears it,
  in milliseconds.\<close>

record tenant_list =
  tnl_data :: "(unit, tenant_list_item list, js_error) async_data"
  tnl_error :: "jsstring option"
  tnl_timer :: "int option"

definition tenant_list_init :: tenant_list where
  "tenant_list_init = \<lparr>tnl_data = mounted_data, tnl_error = None, tnl_timer = None\<rparr>"

definition load_failed :: jsstring where
  "load_failed = js ''Failed to load tenants. Please try again.''"

text \<open>A change of the cell runs the effect: the old timeout is cleared, and a message starts a new one.\<close>

definition set_list_error :: "jsstring option \<Rightarrow> tenant_list \<Rightarrow> tenant_list" where
  "set_list_error e s = (if e = tnl_error s then s
     else s\<lparr>tnl_error := e, tnl_timer := (case e of None \<Rightarrow> None | Some _ \<Rightarrow> Some 4000)\<rparr>)"

datatype tenant_list_event =
    TlSettle nat "(tenant_list_item list, js_error) promise"
  | TlElapse nat

fun tenant_list_step :: "tenant_list_event \<Rightarrow> tenant_list \<Rightarrow> tenant_list" where
  "tenant_list_step (TlSettle i p) s =
     (let d = ad_settle i p (tnl_data s); s' = s\<lparr>tnl_data := d\<rparr> in
      if ad_reported d = ad_reported (tnl_data s) then s' else set_list_error (Some load_failed) s')"
| "tenant_list_step (TlElapse ms) s = (case tnl_timer s of None \<Rightarrow> s
     | Some t \<Rightarrow> if t \<le> int ms then set_list_error None s else s\<lparr>tnl_timer := Some (t - int ms)\<rparr>)"

section \<open>What is shown\<close>

text \<open>A row: slug, name, badge with its class, date, and the target of its link.\<close>

definition tenant_list_row :: "(jsstring \<Rightarrow> jsstring) \<Rightarrow> tenant_list_item \<Rightarrow> jsstring list \<times> jsstring \<times> jsstring" where
  "tenant_list_row loc t = (let b = (case tl_pii_config t of Some c \<Rightarrow> if pii_enabled c then js ''On'' else js ''No rules''
       | None \<Rightarrow> js ''No rules'') in
     ([tl_slug t, tl_name t, b, if tl_created_at t = [] then dash else loc (tl_created_at t)], badge_tone b,
      js ''/tenants/'' @ tl_slug t))"

text \<open>The spinner, or the banner with the empty message or the rows.\<close>

datatype list_body = EmptyBody jsstring jsstring | RowsBody "(jsstring list \<times> jsstring \<times> jsstring) list"

definition tenant_list_render :: "(jsstring \<Rightarrow> jsstring) \<Rightarrow> tenant_list \<Rightarrow> jsstring + jsstring option \<times> list_body" where
  "tenant_list_render loc s = (if ad_loading (tnl_data s) then Inl (spinner (Some (js ''Loading tenants...'')))
     else Inr (case tnl_error s of Some e \<Rightarrow> if e = [] then None else Some e | None \<Rightarrow> None,
       case ad_data (tnl_data s) of None \<Rightarrow> EmptyBody (js ''No tenants yet.'') (js ''/tenants/new'')
       | Some ts \<Rightarrow> if ts = [] then EmptyBody (js ''No tenants yet.'') (js ''/tenants/new'')
           else RowsBody (map (tenant_list_row loc) ts)))"

section \<open>A list that cannot be loaded\<close>

lemma elapse_failed:
  assumes "tnl_error s = Some load_failed" "tnl_timer s = Some (4000 - int t0)" "t0 < 4000"
  shows "tnl_data (fold (\<lambda>ms. tenant_list_step (TlElapse ms)) ds s) = tnl_data s \<and>
    tnl_error (fold (\<lambda>ms. tenant_list_step (TlElapse ms)) ds s) = (if t0 + sum_list ds < 4000 then Some load_failed else None)"
  using assms
proof (induction ds arbitrary: s t0)
  case (Cons d ds)
  have idle: "fold (\<lambda>ms. tenant_list_step (TlElapse ms)) xs u = u" if "tnl_timer u = None" for xs u
    using that by (induction xs) simp_all
  show ?case
  proof (cases "t0 + d < 4000")
    case True
    then have "tenant_list_step (TlElapse d) s = s\<lparr>tnl_timer := Some (4000 - int (t0 + d))\<rparr>" using Cons.prems by simp
    then show ?thesis using Cons.IH [of "s\<lparr>tnl_timer := Some (4000 - int (t0 + d))\<rparr>" "t0 + d"] Cons.prems True
      by (simp add: add.assoc diff_diff_eq)
  next
    case False
    then have "tenant_list_step (TlElapse d) s = s\<lparr>tnl_error := None, tnl_timer := None\<rparr>"
      using Cons.prems by (simp add: set_list_error_def)
    then have "fold (\<lambda>ms. tenant_list_step (TlElapse ms)) (d # ds) s = s\<lparr>tnl_error := None, tnl_timer := None\<rparr>"
      using idle [of "s\<lparr>tnl_error := None, tnl_timer := None\<rparr>" ds] by (simp only: fold_simps tenant_list.select_convs tenant_list.update_convs) simp
    then show ?thesis using False by (simp only: sum_list.Cons) simp
  qed
qed simp

text \<open>A failed load shows its message for exactly four seconds, next to the message of a gateway without
  tenants; afterwards the page cannot be told from an empty one. A load that succeeds shows its
  tenants and no message.\<close>

theorem tenant_list_after_load:
  "tenant_list_render loc tenant_list_init = Inl (js ''Loading tenants...'') \<and>
   tenant_list_render loc (fold (\<lambda>ms. tenant_list_step (TlElapse ms)) ds
      (tenant_list_step (TlSettle 0 (Rejected e)) tenant_list_init)) =
     Inr (if sum_list ds < 4000 then Some load_failed else None, EmptyBody (js ''No tenants yet.'') (js ''/tenants/new'')) \<and>
   tenant_list_render loc (tenant_list_step (TlSettle 0 (Fulfilled [])) tenant_list_init) =
     Inr (None, EmptyBody (js ''No tenants yet.'') (js ''/tenants/new'')) \<and>
   tenant_list_render loc (tenant_list_step (TlSettle 0 (Fulfilled (t # ts))) tenant_list_init) =
     Inr (None, RowsBody (map (tenant_list_row loc) (t # ts)))"
proof -
  let ?s = "tenant_list_step (TlSettle 0 (Rejected e)) tenant_list_init"
  have s: "tnl_error ?s = Some load_failed" "tnl_timer ?s = Some (4000 - int 0)" "ad_data (tnl_data ?s) = None" "\<not> ad_loading (tnl_data ?s)"
    by (simp_all add: tenant_list_init_def set_list_error_def loaded_once_defs)
  have "load_failed \<noteq> []" by (simp add: load_failed_def js_def)
  then have "tenant_list_render loc (fold (\<lambda>ms. tenant_list_step (TlElapse ms)) ds ?s) =
      Inr (if sum_list ds < 4000 then Some load_failed else None, EmptyBody (js ''No tenants yet.'') (js ''/tenants/new''))"
    using elapse_failed [OF s(1,2), of ds] s(3,4) by (simp add: tenant_list_render_def)
  then show ?thesis by (simp add: tenant_list_render_def tenant_list_init_def loaded_once_defs spinner_def nullish_def)
qed

end
