(* ===== verification/Settings.thy ===== *)
theory Settings
  imports PageBase Ratio Widgets Grouping Format
begin

text \<open>
  ui/src/pages/Settings.tsx: the status of the gateway, read when the page is mounted and at each
  click on Refresh; the uptime in days, hours and minutes.
\<close>

section \<open>Uptime and health\<close>

text \<open>The remainder of JavaScript: exact, with the sign of the dividend.\<close>

fun jrem :: "jsnum \<Rightarrow> jsnum \<Rightarrow> jsnum" where
  "jrem (Fin x) (Fin y) = (if y = 0 then NaN
     else Fin (x - y * of_int (if x / y < 0 then \<lceil>x / y\<rceil> else \<lfloor>x / y\<rfloor>)))"
| "jrem (Fin x) NaN = NaN"
| "jrem (Fin x) _ = Fin x"
| "jrem _ _ = NaN"

definition human_uptime :: "jsnum \<Rightarrow> jsstring" where
  "human_uptime seconds =
    (let d = jfloor (jdiv seconds (Fin 86400)); h = jfloor (jdiv (jrem seconds (Fin 86400)) (Fin 3600));
         m = jfloor (jdiv (jrem seconds (Fin 3600)) (Fin 60)) in
     if jlt (Fin 0) d then num_str d @ js ''d '' @ num_str h @ js ''h '' @ num_str m @ js ''m''
     else if jlt (Fin 0) h then num_str h @ js ''h '' @ num_str m @ js ''m''
     else num_str m @ js ''m'')"

definition health_tone :: "jsstring \<Rightarrow> status_tone" where
  "health_tone st = (if st = js ''ok'' \<or> st = js ''up'' then ToneGreen else if st = js ''down'' then ToneRed
     else if st = js ''degraded'' then ToneAmber else ToneGray)"

section \<open>State\<close>

record health_check =
  hc_status :: jsstring
  hc_latency_ms :: jsnum
  hc_error :: "jsstring option"

text \<open>The status as the page reads it; a section that is missing is None.\<close>

record system_status =
  sy_version :: jsstring
  sy_uptime_seconds :: jsnum
  sy_configured :: bool
  sy_cipher :: "jsstring option"
  sy_health :: "jsstring option"
  sy_checks :: "health_check dict option"
  sy_watched :: bool
  sy_sections :: "jsstring list option"

record settings_page =
  st_status :: "system_status option"
  st_loading :: bool
  st_error :: jsstring

definition settings_init :: settings_page where
  "settings_init = \<lparr>st_status = None, st_loading = True, st_error = []\<rparr>"

section \<open>Loading\<close>

type_synonym settings_act = "(settings_page, page_out, unit, js_error + system_status) act"

definition settings_load :: settings_act where
  "settings_load = Upd (\<lambda>s. s\<lparr>st_loading := True\<rparr>) (Await () (\<lambda>r. case r of
      Inr v \<Rightarrow> Upd (\<lambda>s. s\<lparr>st_status := Some v, st_error := []\<rparr>) (Upd (\<lambda>s. s\<lparr>st_loading := False\<rparr>) Done)
    | Inl _ \<Rightarrow> Upd (\<lambda>s. s\<lparr>st_error := js ''Failed to load system status''\<rparr>) (Upd (\<lambda>s. s\<lparr>st_loading := False\<rparr>) Done)))"

datatype settings_event = StMount | StRefresh

definition settings_handler :: "settings_event \<Rightarrow> settings_page \<Rightarrow> settings_act" where
  "settings_handler e s = settings_load"

text \<open>Refresh is a button of the page; before the first status, the page is a placeholder.\<close>

fun settings_enabled :: "settings_event \<Rightarrow> settings_page \<Rightarrow> bool" where
  "settings_enabled StMount s \<longleftrightarrow> True"
| "settings_enabled StRefresh s \<longleftrightarrow> \<not> (st_loading s \<and> st_status s = None)"

definition settings_adm :: "unit \<Rightarrow> (js_error + system_status) \<Rightarrow> bool" where
  "settings_adm q r \<longleftrightarrow> True"

section \<open>What is shown\<close>

definition check_row :: "jsstring \<times> health_check \<Rightarrow> jsstring list \<times> status_tone" where
  "check_row e = (case e of (n, c) \<Rightarrow>
     ([n, hc_status c, num_str (hc_latency_ms c) @ js '' ms'', nullish (hc_error c) dash], health_tone (hc_status c)))"

record settings_card =
  sc_version :: jsstring
  sc_uptime :: jsstring
  sc_at_rest :: "status_tone \<times> jsstring"
  sc_cipher :: "jsstring option"
  sc_health :: "status_tone \<times> jsstring"
  sc_checks :: "(jsstring list \<times> status_tone) list option"
  sc_config :: "jsstring + jsstring \<times> jsstring list"

text \<open>The configuration: a message, or the banner with the sections that differ.\<close>

definition config_view :: "system_status \<Rightarrow> jsstring + jsstring \<times> jsstring list" where
  "config_view v =
    (if \<not> sy_watched v then Inl (js ''Config watch is disabled '' @ dash @ js '' config changes apply on restart.'')
     else case sy_sections v of
       None \<Rightarrow> Inl (js ''Config is in sync '' @ dash @ js '' no live/full file differences detected.'')
     | Some xs \<Rightarrow> if xs = [] then Inl (js ''Config is in sync '' @ dash @ js '' no live/full file differences detected.'')
         else Inr (js ''Sections: '' @ join_with (js '', '') xs @ js ''.'', xs))"

definition status_card :: "system_status \<Rightarrow> settings_card" where
  "status_card v = (let h = nullish (sy_health v) (js ''unknown'') in
    \<lparr>sc_version = sy_version v, sc_uptime = human_uptime (sy_uptime_seconds v),
     sc_at_rest = (if sy_configured v then (ToneGreen, js ''configured'') else (ToneGray, js ''not configured'')),
     sc_cipher = (case sy_cipher v of None \<Rightarrow> None | Some c \<Rightarrow> if c = [] then None else Some c),
     sc_health = (health_tone h, h), sc_checks = map_option (\<lambda>d. map check_row (object_entries d)) (sy_checks v),
     sc_config = config_view v\<rparr>)"

text \<open>The placeholder, or the error banner and the cards.\<close>

definition settings_render :: "settings_page \<Rightarrow> jsstring + jsstring option \<times> settings_card option" where
  "settings_render s = (if st_loading s \<and> st_status s = None then Inl (js ''Loading system status'' @ [0x2026])
     else Inr (if st_error s = [] then None else Some (st_error s), map_option status_card (st_status s)))"

section \<open>The uptime\<close>

lemma jrem_ints: "0 \<le> n \<Longrightarrow> 0 < d \<Longrightarrow> jrem (Fin (of_int n)) (Fin (of_int d)) = Fin (of_int (n mod d))"
proof -
  assume a: "0 \<le> n" "0 < d"
  have "\<lfloor>(of_int n :: rat) / of_int d\<rfloor> = n div d" by (rule floor_divide_of_int_eq)
  moreover have "\<not> (of_int n :: rat) / of_int d < 0" using a by (simp add: not_less)
  moreover have "n mod d = n - d * (n div d)" by (simp add: minus_mult_div_eq_mod)
  ultimately show ?thesis using a by simp
qed

text \<open>The uptime is read back exactly: for every whole number of seconds below 2^31 days the printed
  days, hours and minutes are the ones that make it up, hours below 24 and minutes below 60, and a
  leading unit that is zero is left out.\<close>

theorem uptime_prints_parts:
  assumes "0 \<le> d" "d < 2 ^ 31" "0 \<le> h" "h < 24" "0 \<le> m" "m < 60" "0 \<le> r" "r < 60"
  shows "human_uptime (Fin (of_int (d * 86400 + h * 3600 + m * 60 + r))) =
    (if 0 < d then int_str d @ js ''d '' @ int_str h @ js ''h '' @ int_str m @ js ''m''
     else if 0 < h then int_str h @ js ''h '' @ int_str m @ js ''m'' else int_str m @ js ''m'')"
proof -
  define n where "n = d * 86400 + h * 3600 + m * 60 + r"
  have s: "n = (h * 3600 + m * 60 + r) + 86400 * d" "n = (m * 60 + r) + 3600 * (d * 24 + h)" by (simp_all add: n_def)
  have n: "0 \<le> n" "n div 86400 = d" using assms by (simp_all add: n_def)
  have "n mod 86400 = (h * 3600 + m * 60 + r) mod 86400" "n mod 3600 = (m * 60 + r) mod 3600"
    by (simp only: s(1) mod_mult_self2, simp only: s(2) mod_mult_self2)
  then have n': "n mod 86400 = h * 3600 + m * 60 + r" "n mod 3600 = m * 60 + r" using assms by simp_all
  have d: "jfloor (jdiv (Fin (of_int n)) (Fin 86400)) = Fin (of_int d)"
    using floor_quotient [of n 86400] n assms(2) by simp
  have h: "jfloor (jdiv (jrem (Fin (of_int n)) (Fin 86400)) (Fin 3600)) = Fin (of_int h)"
    using jrem_ints [of n 86400] floor_quotient [of "n mod 86400" 3600] n n' assms by simp
  have m: "jfloor (jdiv (jrem (Fin (of_int n)) (Fin 3600)) (Fin 60)) = Fin (of_int m)"
    using jrem_ints [of n 3600] floor_quotient [of "n mod 3600" 60] n n' assms by simp
  have "num_str (Fin (of_int d)) = int_str d" "num_str (Fin (of_int h)) = int_str h" "num_str (Fin (of_int m)) = int_str m"
    using assms num_str_int [of d] num_str_int [of h] num_str_int [of m] by (simp_all add: int_str_def del: num_str.simps)
  then show ?thesis unfolding n_def [symmetric] human_uptime_def Let_def d h m by (simp del: num_str.simps)
qed

theorem uptime_prints_parts_witness:
  "human_uptime (Fin 93784) = js ''1d 2h 3m''"
proof -
  have "human_uptime (Fin (of_int (1 * 86400 + 2 * 3600 + 3 * 60 + 4))) =
      int_str 1 @ js ''d '' @ int_str 2 @ js ''h '' @ int_str 3 @ js ''m''"
    using uptime_prints_parts [of 1 2 3 4] by simp
  moreover have "int_str 1 @ js ''d '' @ int_str 2 @ js ''h '' @ int_str 3 @ js ''m'' = js ''1d 2h 3m''" by code_simp
  ultimately show ?thesis by simp
qed

section \<open>The page never goes blank\<close>

definition settings_ok :: "settings_page \<Rightarrow> bool" where
  "settings_ok s \<longleftrightarrow> (\<not> st_loading s \<longrightarrow> st_status s \<noteq> None \<or> st_error s \<noteq> [])"

interpretation settings_inv: page_invariant settings_handler settings_enabled settings_adm settings_init settings_ok
proof unfold_locales
  show "settings_ok settings_init" by (simp add: settings_ok_def settings_init_def)
  fix s e
  show "keeps (settings_handler e s) settings_ok settings_adm (\<lambda>s. s)"
    by (simp add: settings_handler_def settings_load_def settings_ok_def js_def split: sum.split)
qed

text \<open>Whatever is refreshed and answered, in any order, the page shows the placeholder, a status, or the
  error, and never nothing; a refresh that fails leaves the last status in place.\<close>

theorem settings_never_blank:
  assumes "sys_reach settings_handler settings_enabled settings_adm (mount settings_init) m"
  shows "(case settings_render (ui m) of Inl _ \<Rightarrow> True | Inr (e, c) \<Rightarrow> e \<noteq> None \<or> c \<noteq> None) \<and>
    st_status (fst (run settings_load (ui m) [Inl err])) = st_status (ui m)"
  using settings_inv.reach_inv [OF assms]
  by (auto simp: settings_ok_def settings_render_def settings_load_def)

theorem settings_never_blank_witness:
  "\<exists>m. sys_reach settings_handler settings_enabled settings_adm (mount settings_init) m \<and> st_error (ui m) \<noteq> [] \<and>
     (case settings_render (ui m) of Inl _ \<Rightarrow> True | Inr (e, c) \<Rightarrow> e \<noteq> None \<or> c \<noteq> None)"
proof -
  have "\<exists>m. do_moves settings_handler settings_enabled settings_adm [Fire StMount, Answer 0 (Inl fetch_failed)]
      (mount settings_init) = Some m \<and> st_error (ui m) \<noteq> []"
    by (simp add: mount_def resume_def settings_handler_def settings_load_def settings_adm_def js_def)
  then obtain m where "sys_reach settings_handler settings_enabled settings_adm (mount settings_init) m" "st_error (ui m) \<noteq> []"
    using schedule_reach by blast
  then show ?thesis using settings_never_blank by blast
qed

end
