(* ===== verification/EditorStates.thy ===== *)
theory EditorStates
  imports Editors
begin

text \<open>
  The profile editors as they are mounted: the list in the parent, the expanded flag, and the inputs
  of the rows (EntryInput and RuleInput), each of which holds the text typed into it. The rows carry
  their position as React key, so that a row's input belongs to the position and not to the item.
\<close>

section \<open>Rows keyed by position\<close>

record ('a, 'b) list_editor =
  le_open :: bool
  le_items :: "'a list"
  le_drafts :: "'b list"   \<comment> \<open>the inputs that are mounted\<close>

text \<open>After a render with n rows: a position that is gone is unmounted, a new one starts afresh, and a
  collapsed editor has no inputs.\<close>

definition reconcile :: "'b \<Rightarrow> ('a, 'b) list_editor \<Rightarrow> ('a, 'b) list_editor" where
  "reconcile d0 s = s\<lparr>le_drafts := (if le_open s
     then take (length (le_items s)) (le_drafts s) @ replicate (length (le_items s) - length (le_drafts s)) d0 else [])\<rparr>"

definition editor_mount :: "'a list \<Rightarrow> ('a, 'b) list_editor" where
  "editor_mount xs = \<lparr>le_open = False, le_items = xs, le_drafts = []\<rparr>"

definition set_draft :: "nat \<Rightarrow> 'b \<Rightarrow> ('a, 'b) list_editor \<Rightarrow> ('a, 'b) list_editor" where
  "set_draft i d s = s\<lparr>le_drafts := (le_drafts s)[i := d]\<rparr>"

text \<open>\<open>onChange\<close>; None is a handler that threw.\<close>

definition set_items :: "'a list option \<Rightarrow> ('a, 'b) list_editor \<Rightarrow> ('a, 'b) list_editor" where
  "set_items xs s = (case xs of None \<Rightarrow> s | Some ys \<Rightarrow> s\<lparr>le_items := ys\<rparr>)"

definition toggle_open :: "('a, 'b) list_editor \<Rightarrow> ('a, 'b) list_editor" where
  "toggle_open s = s\<lparr>le_open := \<not> le_open s\<rparr>"

definition toggle_label :: "string \<Rightarrow> ('a, 'b) list_editor \<Rightarrow> jsstring" where
  "toggle_label what s = (if le_open s then [0x25BE] else [0x25B8]) @ js '' '' @ js what @ js '' ('' @
     int_str (int (length (le_items s))) @ js '')''"

inductive edit_reach :: "('e \<Rightarrow> 's \<Rightarrow> bool) \<Rightarrow> ('e \<Rightarrow> 's \<Rightarrow> 's) \<Rightarrow> 's \<Rightarrow> 's \<Rightarrow> bool" for en st s0 where
  fresh: "edit_reach en st s0 s0"
| edit: "edit_reach en st s0 s \<Longrightarrow> en e s \<Longrightarrow> edit_reach en st s0 (st e s)"

inductive_cases edit_reachE: "edit_reach en st s0 s"

text \<open>The contract of an editor: a property of the items that each of its edits keeps holds in every
  reachable state, and the inputs stay aligned with the rows.\<close>

locale keyed_editor =
  fixes en :: "'e \<Rightarrow> ('a, 'b) list_editor \<Rightarrow> bool"
    and handle :: "'e \<Rightarrow> ('a, 'b) list_editor \<Rightarrow> ('a, 'b) list_editor"
    and d0 :: 'b
    and ok :: "'a \<Rightarrow> bool"
  assumes handle_ok: "en e s \<Longrightarrow> \<forall>x \<in> set (le_items s). ok x \<Longrightarrow> \<forall>x \<in> set (le_items (handle e s)). ok x"
begin

definition aligned :: "('a, 'b) list_editor \<Rightarrow> bool" where
  "aligned s \<longleftrightarrow> length (le_drafts s) = (if le_open s then length (le_items s) else 0)"

lemma aligned_reconcile: "aligned (reconcile d0 s)"
  by (auto simp: aligned_def reconcile_def min_def)

lemma reach_aligned:
  "edit_reach en (\<lambda>e s. reconcile d0 (handle e s)) (editor_mount xs) s \<Longrightarrow>
   length (le_drafts s) = (if le_open s then length (le_items s) else 0)"
proof (induction rule: edit_reach.induct)
  case (edit s e)
  then show ?case using aligned_reconcile by (simp add: aligned_def)
qed (simp add: editor_mount_def)

lemma reach_ok:
  "edit_reach en (\<lambda>e s. reconcile d0 (handle e s)) (editor_mount xs) s \<Longrightarrow> \<forall>x \<in> set xs. ok x \<Longrightarrow>
   \<forall>x \<in> set (le_items s). ok x"
proof (induction rule: edit_reach.induct)
  case (edit s e)
  from handle_ok [OF edit.hyps(2) edit.IH [OF edit.prems]] show ?case by (simp add: reconcile_def)
qed (simp add: editor_mount_def)

end

section \<open>DictionaryEditor\<close>

type_synonym dict_editor = "(dictionary_dto, jsstring) list_editor"

datatype dict_event =
    DeToggle
  | DeAdd
  | DeRemove nat
  | DeName nat jsstring
  | DeMode nat match_mode
  | DeType nat jsstring
  | DeSubmit nat   \<comment> \<open>Enter in the input, or the Add button\<close>
  | DeRemoveEntry nat nat

definition submit_entry :: "nat \<Rightarrow> dict_editor \<Rightarrow> dict_editor" where
  "submit_entry i s = (case entry_input_add (le_drafts s ! i) of
      (None, _) \<Rightarrow> s
    | (Some e, left) \<Rightarrow> set_draft i left (set_items (add_entry i e (le_items s)) s))"

fun dict_handle :: "dict_event \<Rightarrow> dict_editor \<Rightarrow> dict_editor" where
  "dict_handle DeToggle s = toggle_open s"
| "dict_handle DeAdd s = s\<lparr>le_items := add_dictionary (le_items s)\<rparr>"
| "dict_handle (DeRemove i) s = s\<lparr>le_items := remove_dictionary i (le_items s)\<rparr>"
| "dict_handle (DeName i n) s = s\<lparr>le_items := update_dictionary i (\<lambda>d. d\<lparr>dd_name := n\<rparr>) (le_items s)\<rparr>"
| "dict_handle (DeMode i m) s = s\<lparr>le_items := update_dictionary i (\<lambda>d. d\<lparr>dd_match_mode := m\<rparr>) (le_items s)\<rparr>"
| "dict_handle (DeType i v) s = set_draft i v s"
| "dict_handle (DeSubmit i) s = submit_entry i s"
| "dict_handle (DeRemoveEntry i j) s = set_items (remove_entry i j (le_items s)) s"

fun dict_enabled :: "dict_event \<Rightarrow> dict_editor \<Rightarrow> bool" where
  "dict_enabled DeToggle s \<longleftrightarrow> True"
| "dict_enabled DeAdd s \<longleftrightarrow> le_open s"
| "dict_enabled (DeRemove i) s \<longleftrightarrow> le_open s \<and> i < length (le_items s)"
| "dict_enabled (DeName i n) s \<longleftrightarrow> le_open s \<and> i < length (le_items s)"
| "dict_enabled (DeMode i m) s \<longleftrightarrow> le_open s \<and> i < length (le_items s)"
| "dict_enabled (DeType i v) s \<longleftrightarrow> le_open s \<and> i < length (le_items s)"
| "dict_enabled (DeSubmit i) s \<longleftrightarrow> le_open s \<and> i < length (le_items s)"
| "dict_enabled (DeRemoveEntry i j) s \<longleftrightarrow> le_open s \<and> i < length (le_items s) \<and> j < length (dd_entries (le_items s ! i))"

definition dict_step :: "dict_event \<Rightarrow> dict_editor \<Rightarrow> dict_editor" where
  "dict_step e s = reconcile [] (dict_handle e s)"

text \<open>The editor: its toggle, and for each row name, mode, entries and the text in its input.\<close>

definition dict_editor_view :: "dict_editor \<Rightarrow> jsstring \<times> (jsstring \<times> match_mode \<times> jsstring list \<times> jsstring) list option" where
  "dict_editor_view s = (toggle_label ''Dictionaries'' s, if le_open s
     then Some (map (\<lambda>(i, d). (dd_name d, dd_match_mode d, dd_entries d, le_drafts s ! i)) (enumerate 0 (le_items s))) else None)"

definition entries_ok :: "dictionary_dto \<Rightarrow> bool" where
  "entries_ok d \<longleftrightarrow> (\<forall>e \<in> set (dd_entries d). e \<noteq> [] \<and> trimmed e)"

lemma upd_ok: "\<forall>x \<in> set xs. ok x \<Longrightarrow> ok z \<Longrightarrow> \<forall>x \<in> set (xs[i := z]). ok x"
  using set_update_subset_insert [of xs i z] by auto

lemma del_ok: "\<forall>x \<in> set xs. ok x \<Longrightarrow> \<forall>x \<in> set (filter_index_not i xs). ok x"
  by (auto simp: filter_index_not_eq dest: in_set_takeD in_set_dropD)

lemma entry_input_add_ok: "fst (entry_input_add v) = Some e \<Longrightarrow> e \<noteq> [] \<and> trimmed e"
  by (auto simp: entry_input_add_def Let_def trimmed_trim split: if_splits)

lemma submit_entry_items: "i < length (le_items s) \<Longrightarrow> le_items (submit_entry i s) =
  (case fst (entry_input_add (le_drafts s ! i)) of None \<Rightarrow> le_items s
   | Some e \<Rightarrow> (le_items s)[i := (le_items s ! i)\<lparr>dd_entries := dd_entries (le_items s ! i) @ [e]\<rparr>])"
  by (simp add: submit_entry_def add_entry_def set_items_def set_draft_def Let_def dictionaries.upd_at split: prod.split option.split)

interpretation dict_rows: keyed_editor dict_enabled dict_handle "[]" entries_ok
proof
  fix e s
  assume en: "dict_enabled e s" and all: "\<forall>x \<in> set (le_items s). entries_ok x"
  show "\<forall>x \<in> set (le_items (dict_handle e s)). entries_ok x"
  proof (cases e)
    case (DeSubmit i)
    have i: "i < length (le_items s)" "entries_ok (le_items s ! i)" using DeSubmit en all by simp_all
    show ?thesis
    proof (cases "fst (entry_input_add (le_drafts s ! i))")
      case None
      then show ?thesis using DeSubmit i(1) all by (simp add: submit_entry_items)
    next
      case (Some v)
      have "entries_ok ((le_items s ! i)\<lparr>dd_entries := dd_entries (le_items s ! i) @ [v]\<rparr>)"
        using entry_input_add_ok [OF Some] i(2) by (auto simp: entries_ok_def)
      from upd_ok [OF all this] show ?thesis using DeSubmit i(1) Some by (simp add: submit_entry_items)
    qed
  next
    case (DeRemoveEntry i j)
    have i: "i < length (le_items s)" "entries_ok (le_items s ! i)" using DeRemoveEntry en all by simp_all
    have "entries_ok ((le_items s ! i)\<lparr>dd_entries := filter_index_not j (dd_entries (le_items s ! i))\<rparr>)"
      using del_ok [OF i(2) [unfolded entries_ok_def], of j] by (simp add: entries_ok_def)
    from upd_ok [OF all this, of i] show ?thesis using DeRemoveEntry i(1)
      by (simp add: remove_entry_def set_items_def Let_def dictionaries.upd_at)
  next
    case (DeRemove i)
    then show ?thesis using del_ok [OF all, of i] by (simp add: remove_dictionary_def)
  next
    case (DeName i n)
    then have i: "i < length (le_items s)" "entries_ok (le_items s ! i)" using en all by simp_all
    then have "entries_ok ((le_items s ! i)\<lparr>dd_name := n\<rparr>)" by (simp add: entries_ok_def)
    from upd_ok [OF all this, of i] show ?thesis using DeName i(1) by (simp add: dictionaries.upd_at)
  next
    case (DeMode i m)
    then have i: "i < length (le_items s)" "entries_ok (le_items s ! i)" using en all by simp_all
    then have "entries_ok ((le_items s ! i)\<lparr>dd_match_mode := m\<rparr>)" by (simp add: entries_ok_def)
    from upd_ok [OF all this, of i] show ?thesis using DeMode i(1) by (simp add: dictionaries.upd_at)
  qed (use all in \<open>simp_all add: toggle_open_def set_draft_def add_dictionary_def new_dictionary_def entries_ok_def\<close>)
qed

lemma dict_step_alt: "dict_step = (\<lambda>e s. reconcile [] (dict_handle e s))"
  by (simp add: fun_eq_iff dict_step_def)

lemma dict_aligned:
  "edit_reach dict_enabled dict_step (editor_mount ds) s \<Longrightarrow>
   length (le_drafts s) = (if le_open s then length (le_items s) else 0)"
  using dict_rows.reach_aligned [of ds s] by (simp add: dict_step_alt)

text \<open>C16. Whatever is added, renamed, typed, submitted, removed or collapsed: every mounted row has exactly one
  input, a collapsed editor has none, and every entry of every dictionary is trimmed and not empty,
  as long as those the editor was given are.\<close>

theorem dict_editor_typed:
  assumes "edit_reach dict_enabled dict_step (editor_mount ds) s"
  shows "length (le_drafts s) = (if le_open s then length (le_items s) else 0) \<and>
    ((\<forall>d \<in> set ds. entries_ok d) \<longrightarrow> (\<forall>d \<in> set (le_items s). entries_ok d))"
  using dict_aligned [OF assms] dict_rows.reach_ok [of ds s] assms by (simp add: dict_step_alt)

theorem dict_editor_typed_witness:
  "\<exists>s. edit_reach dict_enabled dict_step (editor_mount []) s \<and> map dd_entries (le_items s) = [[js ''x'']] \<and>
     length (le_drafts s) = (if le_open s then length (le_items s) else 0)"
proof -
  let ?s = "dict_step (DeSubmit 0) (dict_step (DeType 0 (js '' x '')) (dict_step DeAdd (dict_step DeToggle (editor_mount []))))"
  have e: "map dd_entries (le_items ?s) = [[js ''x'']]" by code_simp
  have "edit_reach dict_enabled dict_step (editor_mount []) ?s"
    by (intro edit_reach.edit edit_reach.fresh) (simp_all add: dict_step_def reconcile_def toggle_open_def editor_mount_def
      add_dictionary_def set_draft_def)
  note r = this
  have "length (le_drafts ?s) = (if le_open ?s then length (le_items ?s) else 0)" using dict_editor_typed [OF r] by (rule conjunct1)
  with r e show ?thesis by (intro exI [of _ ?s] conjI)
qed

text \<open>C23. The text being typed belongs to the position: removing a dictionary leaves the inputs of the rows
  where they are, so that the text typed for the next dictionary is lost to the one after it (and
  submitting it there adds it to the wrong dictionary).\<close>

theorem drafts_stay_in_place:
  assumes "edit_reach dict_enabled dict_step (editor_mount ds) s" "dict_enabled (DeRemove i) s"
  shows "le_drafts (dict_step (DeRemove i) s) = butlast (le_drafts s) \<and>
    (\<forall>j. i \<le> j \<and> Suc j < length (le_items s) \<longrightarrow>
       le_items (dict_step (DeRemove i) s) ! j = le_items s ! Suc j \<and>
       le_drafts (dict_step (DeRemove i) s) ! j = le_drafts s ! j)"
proof -
  have al: "length (le_drafts s) = length (le_items s)" and i: "i < length (le_items s)" "le_open s"
    using dict_aligned [OF assms(1)] assms(2) by simp_all
  let ?s = "dict_step (DeRemove i) s"
  have items: "le_items ?s = take i (le_items s) @ drop (Suc i) (le_items s)"
    by (simp add: dict_step_def reconcile_def dictionaries.del_at)
  then have "length (le_items ?s) = length (le_items s) - 1" using i by simp
  then have d: "le_drafts ?s = butlast (le_drafts s)"
    using al i by (simp add: dict_step_def reconcile_def butlast_conv_take)
  then show ?thesis using items al i by (auto simp: nth_append nth_butlast min_def)
qed

theorem drafts_stay_in_place_witness:
  "\<exists>s. edit_reach dict_enabled dict_step (editor_mount []) s \<and> map dd_name (le_items s) = [[], js ''b'', []] \<and>
     map dd_name (le_items (dict_step (DeRemove 0) s)) = [js ''b'', []] \<and>
     le_drafts (dict_step (DeRemove 0) s) = [[], js ''typed for b'']"
proof -
  let ?s = "dict_step (DeType 1 (js ''typed for b'')) (dict_step (DeName 1 (js ''b'')) (dict_step DeAdd (dict_step DeAdd
    (dict_step DeAdd (dict_step DeToggle (editor_mount []))))))"
  have e: "map dd_name (le_items ?s) = [[], js ''b'', []]" "map dd_name (le_items (dict_step (DeRemove 0) ?s)) = [js ''b'', []]"
    "butlast (le_drafts ?s) = [[], js ''typed for b'']" "dict_enabled (DeRemove 0) ?s" by code_simp+
  have r: "edit_reach dict_enabled dict_step (editor_mount []) ?s"
    by (intro edit_reach.edit edit_reach.fresh; code_simp)
  have "le_drafts (dict_step (DeRemove 0) ?s) = butlast (le_drafts ?s)" using drafts_stay_in_place [OF r e(4)] by (rule conjunct1)
  with r e(1,2) show ?thesis unfolding e(3) by (intro exI [of _ ?s] conjI)
qed

section \<open>PreprocessorEditor\<close>

text \<open>RuleInput: the column names, the path and the mask.\<close>

record rule_draft =
  rd_columns :: jsstring
  rd_path :: jsstring
  rd_mask :: mask_mode

type_synonym preprocessor_editor = "(preprocessor_def, rule_draft) list_editor"

definition rule_draft0 :: rule_draft where
  "rule_draft0 = \<lparr>rd_columns = [], rd_path = [], rd_mask = MaskFull\<rparr>"

datatype pp_event =
    PeToggle
  | PeAdd
  | PeRemove nat
  | PeName nat jsstring
  | PeType nat jsstring
  | PeColumns nat jsstring
  | PePath nat jsstring
  | PeMask nat mask_mode
  | PeSubmit nat
  | PeRemoveRule nat nat

text \<open>\<open>handleAdd\<close> of the row's RuleInput, with the type of its preprocessor; the mask stays.\<close>

definition submit_rule :: "nat \<Rightarrow> preprocessor_editor \<Rightarrow> preprocessor_editor" where
  "submit_rule i s = (let d = le_drafts s ! i in
     case rule_input_add (pp_type (le_items s ! i)) (rd_columns d) (rd_path d) (rd_mask d) of
      None \<Rightarrow> s
    | Some r \<Rightarrow> set_draft i (d\<lparr>rd_columns := [], rd_path := []\<rparr>) (set_items (add_rule i r (le_items s)) s))"

fun pp_handle :: "pp_event \<Rightarrow> preprocessor_editor \<Rightarrow> preprocessor_editor" where
  "pp_handle PeToggle s = toggle_open s"
| "pp_handle PeAdd s = s\<lparr>le_items := add_preprocessor (le_items s)\<rparr>"
| "pp_handle (PeRemove i) s = s\<lparr>le_items := remove_preprocessor i (le_items s)\<rparr>"
| "pp_handle (PeName i n) s = s\<lparr>le_items := update_preprocessor i (\<lambda>p. p\<lparr>pp_name := n\<rparr>) (le_items s)\<rparr>"
| "pp_handle (PeType i t) s = s\<lparr>le_items := update_preprocessor i (\<lambda>p. p\<lparr>pp_type := t\<rparr>) (le_items s)\<rparr>"
| "pp_handle (PeColumns i v) s = set_draft i ((le_drafts s ! i)\<lparr>rd_columns := v\<rparr>) s"
| "pp_handle (PePath i v) s = set_draft i ((le_drafts s ! i)\<lparr>rd_path := v\<rparr>) s"
| "pp_handle (PeMask i m) s = set_draft i ((le_drafts s ! i)\<lparr>rd_mask := m\<rparr>) s"
| "pp_handle (PeSubmit i) s = submit_rule i s"
| "pp_handle (PeRemoveRule i j) s = set_items (remove_rule i j (le_items s)) s"

text \<open>The inputs a row offers depend on its type: column names for csv, otherwise a path.\<close>

fun pp_enabled :: "pp_event \<Rightarrow> preprocessor_editor \<Rightarrow> bool" where
  "pp_enabled PeToggle s \<longleftrightarrow> True"
| "pp_enabled PeAdd s \<longleftrightarrow> le_open s"
| "pp_enabled (PeRemove i) s \<longleftrightarrow> le_open s \<and> i < length (le_items s)"
| "pp_enabled (PeName i n) s \<longleftrightarrow> le_open s \<and> i < length (le_items s)"
| "pp_enabled (PeType i t) s \<longleftrightarrow> le_open s \<and> i < length (le_items s) \<and> t \<in> {js ''csv'', js ''json''}"
| "pp_enabled (PeColumns i v) s \<longleftrightarrow> le_open s \<and> i < length (le_items s) \<and> pp_type (le_items s ! i) = js ''csv''"
| "pp_enabled (PePath i v) s \<longleftrightarrow> le_open s \<and> i < length (le_items s) \<and> pp_type (le_items s ! i) \<noteq> js ''csv''"
| "pp_enabled (PeMask i m) s \<longleftrightarrow> le_open s \<and> i < length (le_items s)"
| "pp_enabled (PeSubmit i) s \<longleftrightarrow> le_open s \<and> i < length (le_items s)"
| "pp_enabled (PeRemoveRule i j) s \<longleftrightarrow> le_open s \<and> i < length (le_items s) \<and> j < length (pp_rules (le_items s ! i))"

definition pp_step :: "pp_event \<Rightarrow> preprocessor_editor \<Rightarrow> preprocessor_editor" where
  "pp_step e s = reconcile rule_draft0 (pp_handle e s)"

definition pp_editor_view :: "preprocessor_editor \<Rightarrow> jsstring \<times> (jsstring \<times> jsstring \<times> jsstring list \<times> rule_draft) list option" where
  "pp_editor_view s = (toggle_label ''Preprocessors'' s, if le_open s
     then Some (map (\<lambda>(i, p). (pp_name p, pp_type p, map rule_detail (pp_rules p), le_drafts s ! i)) (enumerate 0 (le_items s))) else None)"

definition rule_ok :: "preprocessor_rule \<Rightarrow> bool" where
  "rule_ok r \<longleftrightarrow> (case (ppr_columns r, ppr_path r) of
      (Some cs, None) \<Rightarrow> cs \<noteq> [] \<and> (\<forall>c \<in> set cs. trimmed c \<and> 44 \<notin> set c)
    | (None, Some p) \<Rightarrow> p \<noteq> [] \<and> trimmed p | _ \<Rightarrow> False)"

definition rules_ok :: "preprocessor_def \<Rightarrow> bool" where
  "rules_ok p \<longleftrightarrow> (\<forall>r \<in> set (pp_rules p). rule_ok r)"

lemma rule_input_add_ok: "rule_input_add t c p m = Some r \<Longrightarrow> rule_ok r"
proof -
  assume r: "rule_input_add t c p m = Some r"
  have clean: "44 \<notin> set (trim x)" if "x \<in> set (split_on 44 c)" for x
    using split_on_parts [OF that] set_trim [of x] by blast
  have ne: "split_on 44 c \<noteq> []" by (induction c) (auto split: list.splits)
  have cj: "js ''csv'' \<noteq> js ''json''" by code_simp
  show ?thesis using r clean ne cj by (auto simp: rule_input_add_def rule_ok_def Let_def trimmed_trim split: if_splits)
qed

lemma submit_rule_items: "i < length (le_items s) \<Longrightarrow> le_items (submit_rule i s) =
  (case rule_input_add (pp_type (le_items s ! i)) (rd_columns (le_drafts s ! i)) (rd_path (le_drafts s ! i)) (rd_mask (le_drafts s ! i)) of
     None \<Rightarrow> le_items s
   | Some r \<Rightarrow> (le_items s)[i := (le_items s ! i)\<lparr>pp_rules := pp_rules (le_items s ! i) @ [r]\<rparr>])"
  by (simp add: submit_rule_def add_rule_def set_items_def set_draft_def Let_def preprocessors.upd_at split: option.split)

interpretation pp_rows: keyed_editor pp_enabled pp_handle rule_draft0 rules_ok
proof
  fix e s
  assume en: "pp_enabled e s" and all: "\<forall>x \<in> set (le_items s). rules_ok x"
  show "\<forall>x \<in> set (le_items (pp_handle e s)). rules_ok x"
  proof (cases e)
    case (PeSubmit i)
    have i: "i < length (le_items s)" "rules_ok (le_items s ! i)" using PeSubmit en all by simp_all
    let ?a = "rule_input_add (pp_type (le_items s ! i)) (rd_columns (le_drafts s ! i)) (rd_path (le_drafts s ! i)) (rd_mask (le_drafts s ! i))"
    show ?thesis
    proof (cases ?a)
      case None
      then show ?thesis using PeSubmit i(1) all by (simp add: submit_rule_items)
    next
      case (Some r)
      have "rules_ok ((le_items s ! i)\<lparr>pp_rules := pp_rules (le_items s ! i) @ [r]\<rparr>)"
        using rule_input_add_ok [OF Some] i(2) by (auto simp: rules_ok_def)
      from upd_ok [OF all this] show ?thesis using PeSubmit i(1) Some by (simp add: submit_rule_items)
    qed
  next
    case (PeRemoveRule i j)
    have i: "i < length (le_items s)" "rules_ok (le_items s ! i)" using PeRemoveRule en all by simp_all
    have "rules_ok ((le_items s ! i)\<lparr>pp_rules := filter_index_not j (pp_rules (le_items s ! i))\<rparr>)"
      using i(2) del_ok [of "pp_rules (le_items s ! i)" rule_ok j] by (simp add: rules_ok_def)
    from upd_ok [OF all this, of i] show ?thesis using PeRemoveRule i(1)
      by (simp add: remove_rule_def set_items_def Let_def preprocessors.upd_at)
  next
    case (PeRemove i)
    then show ?thesis using del_ok [OF all, of i] by (simp add: remove_preprocessor_def)
  next
    case (PeName i n)
    then have i: "i < length (le_items s)" "rules_ok (le_items s ! i)" using en all by simp_all
    then have "rules_ok ((le_items s ! i)\<lparr>pp_name := n\<rparr>)" by (simp add: rules_ok_def)
    from upd_ok [OF all this, of i] show ?thesis using PeName i(1) by (simp add: preprocessors.upd_at)
  next
    case (PeType i t)
    then have i: "i < length (le_items s)" "rules_ok (le_items s ! i)" using en all by simp_all
    then have "rules_ok ((le_items s ! i)\<lparr>pp_type := t\<rparr>)" by (simp add: rules_ok_def)
    from upd_ok [OF all this, of i] show ?thesis using PeType i(1) by (simp add: preprocessors.upd_at)
  qed (use all in \<open>simp_all add: toggle_open_def set_draft_def add_preprocessor_def new_preprocessor_def rules_ok_def\<close>)
qed

text \<open>The same of the preprocessor editor: its inputs are aligned with its rows, and each rule masks either
  trimmed columns without commas or a trimmed path, never both and never neither.\<close>

theorem pp_editor_typed:
  assumes "edit_reach pp_enabled pp_step (editor_mount ps) s"
  shows "length (le_drafts s) = (if le_open s then length (le_items s) else 0) \<and>
    ((\<forall>p \<in> set ps. rules_ok p) \<longrightarrow> (\<forall>p \<in> set (le_items s). rules_ok p))"
proof -
  have "pp_step = (\<lambda>e s. reconcile rule_draft0 (pp_handle e s))" by (simp add: fun_eq_iff pp_step_def)
  then show ?thesis using pp_rows.reach_aligned [of ps s] pp_rows.reach_ok [of ps s] assms by simp
qed

theorem pp_editor_typed_witness:
  "\<exists>s. edit_reach pp_enabled pp_step (editor_mount []) s \<and> map (map rule_detail \<circ> pp_rules) (le_items s) \<noteq> [[]] \<and>
     (\<forall>p \<in> set (le_items s). rules_ok p)"
proof -
  let ?s = "pp_step (PeSubmit 0) (pp_step (PeColumns 0 (js ''a, b'')) (pp_step PeAdd (pp_step PeToggle (editor_mount []))))"
  have e: "map (map rule_detail \<circ> pp_rules) (le_items ?s) \<noteq> [[]]" by code_simp
  have r: "edit_reach pp_enabled pp_step (editor_mount []) ?s"
    by (intro edit_reach.edit edit_reach.fresh; code_simp)
  have "(\<forall>p \<in> set []. rules_ok p) \<longrightarrow> (\<forall>p \<in> set (le_items ?s). rules_ok p)" using pp_editor_typed [OF r] by (rule conjunct2)
  then have "\<forall>p \<in> set (le_items ?s). rules_ok p" by (rule mp) (simp only: list.set ball_empty)
  with r e show ?thesis by (intro exI [of _ ?s] conjI)
qed

end
