(* ===== verification/Dialogs.thy ===== *)
theory Dialogs
  imports Keys Budgets Routing
begin

text \<open>
  The dialogs the pages open, as what they show: a heading, the error, the labelled inputs and the
  buttons. An input shows a value; a select without an option for its value shows its first option,
  as HTML has it. The contract of a dialog with controlled inputs is the locale
  \<open>controlled_dialog\<close>: an edit shows what was typed in its input and leaves the others alone.
\<close>

datatype form_input =
    TextIn jsstring jsstring                                  \<comment> \<open>value and placeholder\<close>
  | SelectIn "jsstring option" "(jsstring \<times> jsstring) list"   \<comment> \<open>value, and its options with their labels\<close>
  | ChipsIn "jsstring list" jsstring
  | PickIn jsstring "(jsstring \<times> jsstring) list"             \<comment> \<open>a segmented control\<close>

record dialog_view =
  dg_title :: jsstring
  dg_error :: "jsstring option"
  dg_fields :: "(string \<times> form_input) list"
  dg_actions :: "string list"

definition form_field :: "dialog_view \<Rightarrow> string \<Rightarrow> form_input option" where
  "form_field d l = map_of (dg_fields d) l"

fun shown_value :: "form_input \<Rightarrow> jsstring" where
  "shown_value (TextIn v p) = v"
| "shown_value (SelectIn v os) = (case List.find (\<lambda>x. Some (fst x) = v) os of Some x \<Rightarrow> fst x
     | None \<Rightarrow> (case os of [] \<Rightarrow> [] | x # _ \<Rightarrow> fst x))"
| "shown_value (ChipsIn vs p) = show_comma vs"
| "shown_value (PickIn v os) = v"

lemma shown_option: "v \<in> fst ` set os \<Longrightarrow> shown_value (SelectIn (Some v) os) = v"
proof -
  assume "v \<in> fst ` set os"
  then obtain x where "List.find (\<lambda>x. Some (fst x) = Some v) os = Some x"
    by (cases "List.find (\<lambda>x. Some (fst x) = Some v) os") (auto simp: find_None_iff)
  moreover from this have "fst x = v" by (auto simp: find_Some_iff)
  ultimately show ?thesis by simp
qed

text \<open>The value of a numeric input; the browser shows nothing for what is not a number.\<close>

definition number_text :: "jsnum option \<Rightarrow> jsstring" where
  "number_text n = (case n of Some (Fin x) \<Rightarrow> num_str (Fin x) | _ \<Rightarrow> [])"

text \<open>The tenant options of the two create dialogs.\<close>

definition tenant_options :: "(jsstring \<times> jsstring) list \<Rightarrow> (jsstring \<times> jsstring) list" where
  "tenant_options ts = (if ts = [] then [([], js ''No tenants'')] else []) @
     map (\<lambda>(s, n). (s, n @ js '' ('' @ s @ js '')'')) ts"

lemma tenant_options_values: "ts \<noteq> [] \<Longrightarrow> fst ` set (tenant_options ts) = fst ` set ts"
  by (force simp: tenant_options_def)

section \<open>Contract: controlled inputs\<close>

locale controlled_dialog =
  fixes dialog :: "'f \<Rightarrow> dialog_view"
    and apply_edit :: "'e \<Rightarrow> 'f \<Rightarrow> 'f"
    and offered :: "'f \<Rightarrow> 'e \<Rightarrow> bool"
    and label_of :: "'e \<Rightarrow> string"
    and typed :: "'e \<Rightarrow> jsstring"
  assumes edit_shown: "offered f e \<Longrightarrow> map_option shown_value (form_field (dialog (apply_edit e f)) (label_of e)) = Some (typed e)"
    and edit_local: "offered f e \<Longrightarrow> l \<noteq> label_of e \<Longrightarrow> form_field (dialog (apply_edit e f)) l = form_field (dialog f) l"
    and edit_offered: "offered f e \<Longrightarrow> offered (apply_edit e f) e' \<longleftrightarrow> offered f e'"
begin

lemma edits_offered: "\<forall>e \<in> set es. offered f e \<Longrightarrow> offered (fold apply_edit es f) e' \<longleftrightarrow> offered f e'"
  by (induction es arbitrary: f) (simp_all add: edit_offered)

text \<open>After any edits, an input shows what was typed last in it, or what it showed before.\<close>

lemma edits_shown:
  "\<forall>e \<in> set es. offered f e \<Longrightarrow>
   map_option shown_value (form_field (dialog (fold apply_edit es f)) l) =
     (case List.find (\<lambda>e. label_of e = l) (rev es) of Some e \<Rightarrow> Some (typed e)
      | None \<Rightarrow> map_option shown_value (form_field (dialog f) l))"
proof (induction es rule: rev_induct)
  case (snoc e es)
  have e: "offered (fold apply_edit es f) e" using snoc.prems edits_offered [of es f e] by simp
  show ?case
  proof (cases "label_of e = l")
    case True
    then show ?thesis using edit_shown [OF e] by simp
  next
    case False
    then have "map_option shown_value (form_field (dialog (fold apply_edit (es @ [e]) f)) l) =
        map_option shown_value (form_field (dialog (fold apply_edit es f)) l)"
      using edit_local [OF e, of l] by simp
    then show ?thesis using snoc False by simp
  qed
qed simp

end

section \<open>The dialog that creates a key\<close>

definition expiry_presets :: "(jsstring \<times> jsstring) list" where
  "expiry_presets = [(js ''7d'', js ''7 days''), (js ''30d'', js ''30 days''), (js ''never'', js ''Never'')]"

definition add_model_hint :: jsstring where
  "add_model_hint = js ''press Enter to add a model''"

definition create_key_dialog :: "(jsstring \<times> jsstring) list \<Rightarrow> create_modal \<Rightarrow> dialog_view" where
  "create_key_dialog ts c = \<lparr>dg_title = js ''Create key'', dg_error = or_undefined (cm_err c),
     dg_fields = [(''Tenant'', SelectIn (Some (cm_tenant c)) (tenant_options ts)),
       (''Label'', TextIn (cm_label c) (js ''e.g. payments-gw, ci-pipeline'')),
       (''Allowed models (empty = all)'', ChipsIn (cm_allowed c) add_model_hint),
       (''Blocked models'', ChipsIn (cm_blocked c) add_model_hint),
       (''Budget limit (USD)'', TextIn (cm_budget c) (js ''e.g. 500'')),
       (''Expiry'', PickIn (cm_expiry c) expiry_presets)],
     dg_actions = [''Cancel'', ''Create'']\<rparr>"

datatype key_edit =
    KeTenant jsstring
  | KeLabel jsstring
  | KeAllowed "jsstring list"
  | KeBlocked "jsstring list"
  | KeBudget jsstring
  | KeExpiry jsstring

fun apply_key_edit :: "key_edit \<Rightarrow> create_modal \<Rightarrow> create_modal" where
  "apply_key_edit (KeTenant v) c = c\<lparr>cm_tenant := v\<rparr>"
| "apply_key_edit (KeLabel v) c = c\<lparr>cm_label := v\<rparr>"
| "apply_key_edit (KeAllowed vs) c = c\<lparr>cm_allowed := vs\<rparr>"
| "apply_key_edit (KeBlocked vs) c = c\<lparr>cm_blocked := vs\<rparr>"
| "apply_key_edit (KeBudget v) c = c\<lparr>cm_budget := v\<rparr>"
| "apply_key_edit (KeExpiry v) c = c\<lparr>cm_expiry := v\<rparr>"

text \<open>A select and a segmented control offer their options only.\<close>

fun key_edit_offered :: "(jsstring \<times> jsstring) list \<Rightarrow> key_edit \<Rightarrow> bool" where
  "key_edit_offered ts (KeTenant v) \<longleftrightarrow> v \<in> fst ` set (tenant_options ts)"
| "key_edit_offered ts (KeExpiry v) \<longleftrightarrow> v \<in> fst ` set expiry_presets"
| "key_edit_offered ts e \<longleftrightarrow> True"

fun key_edit_label :: "key_edit \<Rightarrow> string" where
  "key_edit_label (KeTenant v) = ''Tenant''"
| "key_edit_label (KeLabel v) = ''Label''"
| "key_edit_label (KeAllowed vs) = ''Allowed models (empty = all)''"
| "key_edit_label (KeBlocked vs) = ''Blocked models''"
| "key_edit_label (KeBudget v) = ''Budget limit (USD)''"
| "key_edit_label (KeExpiry v) = ''Expiry''"

fun key_edit_typed :: "key_edit \<Rightarrow> jsstring" where
  "key_edit_typed (KeTenant v) = v"
| "key_edit_typed (KeLabel v) = v"
| "key_edit_typed (KeAllowed vs) = show_comma vs"
| "key_edit_typed (KeBlocked vs) = show_comma vs"
| "key_edit_typed (KeBudget v) = v"
| "key_edit_typed (KeExpiry v) = v"

interpretation key_dialog: controlled_dialog "create_key_dialog ts" apply_key_edit "\<lambda>_. key_edit_offered ts"
    key_edit_label key_edit_typed for ts
proof
  fix f e l
  assume e: "key_edit_offered ts e"
  show "map_option shown_value (form_field (create_key_dialog ts (apply_key_edit e f)) (key_edit_label e)) = Some (key_edit_typed e)"
    using e by (cases e) (simp_all add: form_field_def create_key_dialog_def shown_option del: shown_value.simps(2))
  show "form_field (create_key_dialog ts (apply_key_edit e f)) l = form_field (create_key_dialog ts f) l"
    if "l \<noteq> key_edit_label e"
    using that by (cases e) (simp_all add: form_field_def create_key_dialog_def)
qed simp

section \<open>The dialog that creates a budget\<close>

definition scope_options :: "(jsstring \<times> jsstring) list" where
  "scope_options = [(js ''tenant'', js ''Tenant''), (js ''key'', js ''Virtual key''), (js ''model'', js ''Model'')]"

definition period_options :: "(jsstring \<times> jsstring) list" where
  "period_options = [(js ''monthly'', js ''Monthly''), (js ''daily'', js ''Daily''), (js ''custom'', js ''Custom'')]"

definition key_options :: "key_option list \<Rightarrow> create_budget_request \<Rightarrow> (jsstring \<times> jsstring) list" where
  "key_options ks q = ([], js ''Select key'') # map (\<lambda>k. (ko_id k, ko_label k)) (tenant_keys ks q)"

definition create_budget_dialog :: "(jsstring \<times> jsstring) list \<Rightarrow> key_option list \<Rightarrow> budget_modal \<Rightarrow> dialog_view" where
  "create_budget_dialog ts ks c = (let q = bm_req c in
     \<lparr>dg_title = js ''Create Budget'', dg_error = or_undefined (bm_err c),
      dg_fields = [(''Tenant'', SelectIn (Some (cb_tenant_id q)) (tenant_options ts)),
        (''Scope'', SelectIn (Some (cb_scope q)) scope_options)] @
        (if cb_scope q = js ''key'' then [(''Key'', SelectIn (Some (nullish (cb_virtual_key_id q) [])) (key_options ks q))] else []) @
        (if cb_scope q = js ''model'' then [(''Model'', TextIn (nullish (cb_model q) []) (js ''gpt-4o''))] else []) @
        [(''Period'', SelectIn (Some (cb_type q)) period_options)] @
        (if cb_type q = js ''custom''
         then [(''Days per period'', TextIn (number_text (Some (nullish (cb_custom_days q) (Fin 30)))) [])] else []) @
        [(''Hard limit (USD)'', TextIn (number_text (cb_hard_limit q)) (js ''100.00'')),
         (''Soft limit (USD)'', TextIn (number_text (cb_soft_limit q)) (js ''80.00'')),
         (''Notify at % of hard limit (comma separated)'', TextIn (notify_text (cb_notify_at q)) (js ''50, 80, 100'')),
         (''Currency'', TextIn (nullish (cb_currency q) (js ''USD'')) [])],
      dg_actions = [''Cancel'', ''Create'']\<rparr>)"

text \<open>The edits that leave the set of inputs as it is.\<close>

fun budget_edit_offered :: "key_option list \<Rightarrow> budget_modal \<Rightarrow> budget_edit \<Rightarrow> bool" where
  "budget_edit_offered ks c (EditKey v) \<longleftrightarrow> cb_scope (bm_req c) = js ''key'' \<and> v \<in> fst ` set (key_options ks (bm_req c))"
| "budget_edit_offered ks c (EditModel v) \<longleftrightarrow> cb_scope (bm_req c) = js ''model''"
| "budget_edit_offered ks c (EditDays v) \<longleftrightarrow> cb_type (bm_req c) = js ''custom''"
| "budget_edit_offered ks c (EditTenant v) \<longleftrightarrow> False"
| "budget_edit_offered ks c (EditScope v) \<longleftrightarrow> False"
| "budget_edit_offered ks c (EditType v) \<longleftrightarrow> False"
| "budget_edit_offered ks c e \<longleftrightarrow> True"

fun budget_edit_label :: "budget_edit \<Rightarrow> string" where
  "budget_edit_label (EditTenant v) = ''Tenant''"
| "budget_edit_label (EditScope v) = ''Scope''"
| "budget_edit_label (EditKey v) = ''Key''"
| "budget_edit_label (EditModel v) = ''Model''"
| "budget_edit_label (EditType v) = ''Period''"
| "budget_edit_label (EditDays v) = ''Days per period''"
| "budget_edit_label (EditHard v) = ''Hard limit (USD)''"
| "budget_edit_label (EditSoft v) = ''Soft limit (USD)''"
| "budget_edit_label (EditNotify v) = ''Notify at % of hard limit (comma separated)''"
| "budget_edit_label (EditCurrency v) = ''Currency''"

text \<open>What comes back of the text typed: itself, or the number or numbers that were read.\<close>

fun budget_edit_typed :: "budget_edit \<Rightarrow> jsstring" where
  "budget_edit_typed (EditDays v) = number_text (Some (parse_days v))"
| "budget_edit_typed (EditHard v) = number_text (parse_limit v)"
| "budget_edit_typed (EditSoft v) = number_text (parse_limit v)"
| "budget_edit_typed (EditNotify v) = notify_text (Some (parse_notify v))"
| "budget_edit_typed (EditTenant v) = v"
| "budget_edit_typed (EditScope v) = v"
| "budget_edit_typed (EditKey v) = v"
| "budget_edit_typed (EditModel v) = v"
| "budget_edit_typed (EditType v) = v"
| "budget_edit_typed (EditCurrency v) = v"

definition budget_modal_edit :: "budget_edit \<Rightarrow> budget_modal \<Rightarrow> budget_modal" where
  "budget_modal_edit e c = c\<lparr>bm_req := apply_budget_edit e (bm_req c)\<rparr>"

lemma budget_same_options:
  "budget_edit_offered ks c e \<Longrightarrow> key_options ks (apply_budget_edit e (bm_req c)) = key_options ks (bm_req c)"
  by (cases e) (simp_all add: key_options_def tenant_keys_def)

lemma scopes_differ: "js ''key'' \<noteq> js ''model''" "js ''model'' \<noteq> js ''key''"
  by (simp_all add: js_def)

interpretation budget_dialog: controlled_dialog "create_budget_dialog ts ks" budget_modal_edit "budget_edit_offered ks"
    budget_edit_label budget_edit_typed for ts ks
proof
  fix f e l e'
  assume e: "budget_edit_offered ks f e"
  show "map_option shown_value (form_field (create_budget_dialog ts ks (budget_modal_edit e f)) (budget_edit_label e)) =
      Some (budget_edit_typed e)"
    using e budget_same_options [OF e]
    by (cases e) (simp_all add: form_field_def create_budget_dialog_def budget_modal_edit_def Let_def shown_option scopes_differ
        del: shown_value.simps(2))
  show "form_field (create_budget_dialog ts ks (budget_modal_edit e f)) l = form_field (create_budget_dialog ts ks f) l"
    if "l \<noteq> budget_edit_label e"
    using that e budget_same_options [OF e]
    by (cases e) (simp_all add: form_field_def create_budget_dialog_def budget_modal_edit_def Let_def scopes_differ)
  show "budget_edit_offered ks (budget_modal_edit e f) e' \<longleftrightarrow> budget_edit_offered ks f e'"
    using e budget_same_options [OF e] by (cases e; cases e') (simp_all add: budget_modal_edit_def)
qed

section \<open>The dialog that saves a provider, a rule or a cost rate\<close>

definition provider_types :: "jsstring list" where
  "provider_types = map js [''openai'', ''anthropic'', ''ollama'', ''proxy'', ''gemini'', ''bedrock'']"

definition crud_fields :: "crud_kind \<Rightarrow> crud_form \<Rightarrow> (string \<times> form_input) list" where
  "crud_fields k f = (let p = cf_p f; r = cf_r f; c = cf_c f; shown = (\<lambda>v. nullish v []) in case k of
      ProviderKind \<Rightarrow> [(''Name'', TextIn (shown (pv_name p)) (js ''my-provider'')),
        (''API Type'', SelectIn (pv_api_type p) (map (\<lambda>t. (t, t)) provider_types)),
        (''Base URL'', TextIn (shown (pv_base_url p)) (js ''https://api.openai.com/v1'')),
        (''Health Endpoint'', TextIn (shown (pv_health_endpoint p)) []),
        (''API Keys (comma separated)'', TextIn (keys_text f) []),
        (''Auth Scheme'', TextIn (shown (pv_auth_scheme p)) (js ''Bearer'')),
        (''Auth Header'', TextIn (shown (pv_auth_header p)) (js ''Authorization'')),
        (''Timeout'', TextIn (shown (pv_timeout p)) (js ''30s'')),
        (''Priority'', TextIn (number_text (Some (nullish (pv_priority p) (Fin 0)))) [])]
    | RouteKind \<Rightarrow> [(''Model'', TextIn (rt_model r) (js ''gpt-4o'')), (''Tenant'', TextIn (rt_tenant r) (js ''default'')),
        (''Providers (comma separated, first = primary)'', TextIn (providers_text f) (js ''openai, fallback''))]
    | RateKind \<Rightarrow> [(''Model'', TextIn (rate_model c) (js ''gpt-4o'')),
        (''Input Price / 1K'', TextIn (number_text (Some (rate_input c))) []),
        (''Output Price / 1K'', TextIn (number_text (Some (rate_output c))) []),
        (''Currency'', TextIn (rate_currency c) (js ''USD''))])"

definition crud_dialog :: "jsstring \<Rightarrow> crud_kind \<Rightarrow> crud_form \<Rightarrow> dialog_view" where
  "crud_dialog title k f = \<lparr>dg_title = title, dg_error = or_undefined (cf_err f), dg_fields = crud_fields k f,
     dg_actions = [''Cancel'', ''Save'']\<rparr>"

definition routing_dialog :: "routing_page \<Rightarrow> dialog_view option" where
  "routing_dialog s = (case rp_form s of None \<Rightarrow> None | Some f \<Rightarrow>
     if crud_shown s then Some (crud_dialog (crud_title s) (shown_kind s) f) else None)"

fun crud_edit_kind :: "crud_edit \<Rightarrow> crud_kind" where
  "crud_edit_kind (SetRModel v) = RouteKind"
| "crud_edit_kind (SetRTenant v) = RouteKind"
| "crud_edit_kind (SetRProviders v) = RouteKind"
| "crud_edit_kind (SetCModel v) = RateKind"
| "crud_edit_kind (SetCInput v) = RateKind"
| "crud_edit_kind (SetCOutput v) = RateKind"
| "crud_edit_kind (SetCCurrency v) = RateKind"
| "crud_edit_kind e = ProviderKind"

fun crud_edit_offered :: "crud_kind \<Rightarrow> crud_edit \<Rightarrow> bool" where
  "crud_edit_offered k (SetPType v) \<longleftrightarrow> k = ProviderKind \<and> v \<in> set provider_types"
| "crud_edit_offered k e \<longleftrightarrow> crud_edit_kind e = k"

fun crud_edit_label :: "crud_edit \<Rightarrow> string" where
  "crud_edit_label (SetPName v) = ''Name''"
| "crud_edit_label (SetPType v) = ''API Type''"
| "crud_edit_label (SetPUrl v) = ''Base URL''"
| "crud_edit_label (SetPHealth v) = ''Health Endpoint''"
| "crud_edit_label (SetPKeys v) = ''API Keys (comma separated)''"
| "crud_edit_label (SetPScheme v) = ''Auth Scheme''"
| "crud_edit_label (SetPHeader v) = ''Auth Header''"
| "crud_edit_label (SetPTimeout v) = ''Timeout''"
| "crud_edit_label (SetPPriority v) = ''Priority''"
| "crud_edit_label (SetRModel v) = ''Model''"
| "crud_edit_label (SetRTenant v) = ''Tenant''"
| "crud_edit_label (SetRProviders v) = ''Providers (comma separated, first = primary)''"
| "crud_edit_label (SetCModel v) = ''Model''"
| "crud_edit_label (SetCInput v) = ''Input Price / 1K''"
| "crud_edit_label (SetCOutput v) = ''Output Price / 1K''"
| "crud_edit_label (SetCCurrency v) = ''Currency''"

fun crud_edit_typed :: "(jsstring \<Rightarrow> jsstring) \<Rightarrow> crud_edit \<Rightarrow> jsstring" where
  "crud_edit_typed upper (SetPKeys v) = show_comma (parse_comma v)"
| "crud_edit_typed upper (SetRProviders v) = show_comma (parse_comma v)"
| "crud_edit_typed upper (SetPPriority v) = number_text (Some (js_number v))"
| "crud_edit_typed upper (SetCInput v) = number_text (Some (js_number v))"
| "crud_edit_typed upper (SetCOutput v) = number_text (Some (js_number v))"
| "crud_edit_typed upper (SetCCurrency v) = upper v"
| "crud_edit_typed upper (SetPName v) = v"
| "crud_edit_typed upper (SetPType v) = v"
| "crud_edit_typed upper (SetPUrl v) = v"
| "crud_edit_typed upper (SetPHealth v) = v"
| "crud_edit_typed upper (SetPScheme v) = v"
| "crud_edit_typed upper (SetPHeader v) = v"
| "crud_edit_typed upper (SetPTimeout v) = v"
| "crud_edit_typed upper (SetRModel v) = v"
| "crud_edit_typed upper (SetRTenant v) = v"
| "crud_edit_typed upper (SetCModel v) = v"

interpretation crud_form: controlled_dialog "crud_dialog title k" "apply_crud_edit upper" "\<lambda>_. crud_edit_offered k"
    crud_edit_label "crud_edit_typed upper" for title k upper
proof
  fix f e l
  assume e: "crud_edit_offered k e"
  show "map_option shown_value (form_field (crud_dialog title k (apply_crud_edit upper e f)) (crud_edit_label e)) =
      Some (crud_edit_typed upper e)"
    using e by (cases e) (auto simp: form_field_def crud_dialog_def crud_fields_def Let_def shown_option image_image
        keys_text_def providers_text_def simp del: shown_value.simps(2))
  show "form_field (crud_dialog title k (apply_crud_edit upper e f)) l = form_field (crud_dialog title k f) l"
    if "l \<noteq> crud_edit_label e"
    using that e by (cases e) (auto simp: form_field_def crud_dialog_def crud_fields_def Let_def keys_text_def providers_text_def)
qed simp

section \<open>What the inputs show\<close>


section \<open>The tenant of a create dialog\<close>

text \<open>The keys page: its effect gives the dialog a tenant as soon as there is one.\<close>

definition dialog_has_tenant :: "keys_page \<Rightarrow> bool" where
  "dialog_has_tenant s \<longleftrightarrow> (case kp_modal s of None \<Rightarrow> True | Some c \<Rightarrow>
     cm_tenant c = [] \<longrightarrow> (case kp_tenants s of [] \<Rightarrow> True | t # _ \<Rightarrow> fst t = []))"

lemma modal_effect_tenant: "cm_tenant (modal_effect ts c) = [] \<Longrightarrow> (case ts of [] \<Rightarrow> True | t # _ \<Rightarrow> fst t = [])"
  by (auto simp: modal_effect_def split: list.splits if_splits)

lemma modal_submit_tenant: "cm_tenant (fst (modal_submit now c)) = cm_tenant c"
  by (simp add: modal_submit_def Let_def)

lemma dialog_tenant_intros:
  "dialog_has_tenant (keys_loaded v s)" "dialog_has_tenant s \<Longrightarrow> dialog_has_tenant (show_modal s)"
  "dialog_has_tenant (s\<lparr>kp_modal := map_option (\<lambda>c. modal_effect (kp_tenants s) (f c)) (kp_modal s)\<rparr>)"
  "dialog_has_tenant s \<Longrightarrow> dialog_has_tenant (s\<lparr>kp_modal := map_option (\<lambda>c. fst (modal_submit now c)) (kp_modal s)\<rparr>)"
  by (auto simp: dialog_has_tenant_def keys_loaded_def show_modal_def modal_open_def Let_def modal_submit_tenant
      split: option.splits list.splits dest!: modal_effect_tenant)

lemma dialog_tenant_kept [simp]:
  "dialog_has_tenant (s\<lparr>kp_loading := a\<rparr>) = dialog_has_tenant s" "dialog_has_tenant (s\<lparr>kp_busy := a\<rparr>) = dialog_has_tenant s"
  "dialog_has_tenant (s\<lparr>kp_deleting := d\<rparr>) = dialog_has_tenant s" "dialog_has_tenant (s\<lparr>kp_created := cr\<rparr>) = dialog_has_tenant s"
  "dialog_has_tenant (s\<lparr>kp_search := v\<rparr>) = dialog_has_tenant s" "dialog_has_tenant (s\<lparr>kp_keys := ks\<rparr>) = dialog_has_tenant s"
  "dialog_has_tenant (s\<lparr>kp_tenant_filter := v\<rparr>) = dialog_has_tenant s"
  "dialog_has_tenant (s\<lparr>kp_status_filter := v\<rparr>) = dialog_has_tenant s"
  "dialog_has_tenant (s\<lparr>kp_modal := None\<rparr>)"
  by (auto simp: dialog_has_tenant_def split: option.split)

lemma keys_reload_keeps:
  "keeps keys_reload_rest dialog_has_tenant adm (\<lambda>s. s)" "keeps keys_reload dialog_has_tenant adm (\<lambda>s. s)"
  "keeps keys_reload dialog_has_tenant adm (\<lambda>s. s\<lparr>kp_modal := None, kp_created := d\<rparr>)"
  by (simp_all add: keys_reload_rest_def keys_reload_def dialog_tenant_intros split: sum.split)

interpretation keys_tenant: page_invariant keys_handler keys_enabled "keys_adm b" keys_init dialog_has_tenant for b
proof unfold_locales
  show "dialog_has_tenant keys_init" by (simp add: dialog_has_tenant_def keys_init_def)
next
  fix s e
  show "keeps (keys_handler e s) dialog_has_tenant (keys_adm b) (\<lambda>s. s)"
    by (cases e) (auto simp: keys_mount_def keys_do_delete_def keys_handle_create_def keys_handle_toggle_def
        keys_reload_def keys_reload_rest_def dialog_tenant_intros Let_def split: option.split sum.split)
qed

text \<open>Once the page has tenants (with proper slugs) its dialog has one of its own accord, and never refuses
  for want of one.\<close>

theorem key_dialog_has_tenant:
  assumes "sys_reach keys_handler keys_enabled (keys_adm b) (mount keys_init) m"
    and "kp_modal (ui m) = Some c" "kp_tenants (ui m) \<noteq> []" "\<forall>t \<in> set (kp_tenants (ui m)). fst t \<noteq> []"
  shows "cm_tenant c \<noteq> [] \<and> cm_err (fst (modal_submit now c)) \<noteq> js ''Tenant is required''"
proof -
  have "dialog_has_tenant (ui m)" by (rule keys_tenant.reach_inv [OF assms(1)])
  then have "cm_tenant c \<noteq> []" using assms(2-4) by (auto simp: dialog_has_tenant_def split: list.splits)
  then show ?thesis by (simp add: modal_submit_def Let_def js_def)
qed

text \<open>The budgets page has no such effect: a dialog opened before the tenants have arrived shows the first
  of them, and refuses to create the budget because no tenant is chosen.\<close>

definition two_tenants :: budgets_value where
  "two_tenants = \<lparr>bv_budgets = None, bv_tenants = Some [\<lparr>tl_slug = js ''acme'', tl_name = js ''Acme'', tl_auth_header = [],
     tl_pii_config = None, tl_retention_mode = None, tl_created_at = [], tl_updated_at = []\<rparr>], bv_keys = None, bv_history = None\<rparr>"

theorem budget_dialog_unselected:
  "\<exists>m c. sys_reach budgets_handler budgets_enabled (budgets_adm b) (mount budgets_init) m \<and> bp_modal (ui m) = Some c \<and>
     map_option shown_value (form_field (create_budget_dialog (bp_tenants (ui m)) (bp_keys (ui m)) c) ''Tenant'') = Some (js ''acme'') \<and>
     budget_submit c = (c\<lparr>bm_err := js ''Tenant is required''\<rparr>, None)"
proof -
  let ?sched = "[Fire BMount, Fire BOpenModal, Answer 0 (Inr two_tenants)] :: (budgets_event, budgets_reply) move list"
  have "\<exists>m. do_moves budgets_handler budgets_enabled (budgets_adm b) ?sched (mount budgets_init) = Some m \<and>
      bp_tenants (ui m) = [(js ''acme'', js ''Acme'')] \<and> bp_modal (ui m) = Some (budget_modal_open [])"
    by (simp add: budgets_act_defs resume_def mount_def budgets_init_def budgets_adm_def budgets_http_def two_tenants_def
        list_budgets_def list_tenants_def list_keys_def)
  then obtain m where r: "sys_reach budgets_handler budgets_enabled (budgets_adm b) (mount budgets_init) m"
    and m: "bp_tenants (ui m) = [(js ''acme'', js ''Acme'')]" "bp_modal (ui m) = Some (budget_modal_open [])"
    by (blast intro: schedule_reach)
  have "map_option shown_value (form_field (create_budget_dialog [(js ''acme'', js ''Acme'')] ks (budget_modal_open [])) ''Tenant'') =
      Some (js ''acme'')" for ks
    by (simp add: form_field_def create_budget_dialog_def budget_modal_open_def tenant_options_def Let_def js_def)
  moreover have "budget_submit (budget_modal_open []) = ((budget_modal_open [])\<lparr>bm_err := js ''Tenant is required''\<rparr>, None)"
    by (simp add: budget_submit_def budget_modal_open_def Let_def)
  ultimately show ?thesis using r m by metis
qed

section \<open>What the witnesses type\<close>


theorem key_dialog_has_tenant_witness:
  "\<forall>b. \<exists>m c. sys_reach keys_handler keys_enabled (keys_adm b) (mount keys_init) m \<and> kp_modal (ui m) = Some c \<and>
     kp_tenants (ui m) = [(js ''acme'', js ''Acme'')] \<and> cm_tenant c \<noteq> []"
proof
  fix b
  let ?v = "keys_value0\<lparr>kv_tenants := bv_tenants two_tenants\<rparr>"
  let ?sched = "[Fire (KMount True), Answer 0 (Inr ?v)] :: (keys_event, keys_reply) move list"
  have "\<exists>m. do_moves keys_handler keys_enabled (keys_adm b) ?sched (mount keys_init) = Some m \<and>
      kp_tenants (ui m) = [(js ''acme'', js ''Acme'')] \<and> kp_modal (ui m) \<noteq> None"
    by (simp add: keys_eval two_tenants_def keys_mount_def show_modal_def)
  then obtain m c where r: "sys_reach keys_handler keys_enabled (keys_adm b) (mount keys_init) m"
    and m: "kp_tenants (ui m) = [(js ''acme'', js ''Acme'')]" "kp_modal (ui m) = Some c"
    by (blast intro: schedule_reach)
  have "cm_tenant c \<noteq> []" using key_dialog_has_tenant [OF r m(2), of 0] m(1) by (simp add: js_def)
  then show "\<exists>m c. sys_reach keys_handler keys_enabled (keys_adm b) (mount keys_init) m \<and> kp_modal (ui m) = Some c \<and>
     kp_tenants (ui m) = [(js ''acme'', js ''Acme'')] \<and> cm_tenant c \<noteq> []" using r m by blast
qed

end
