(* ===== verification/PageViews.thy ===== *)
theory PageViews
  imports Dialogs Widgets
begin

text \<open>
  The pages over a table as they stand on the screen: the keys, budgets and routing pages with their
  cards, toolbars, column heads, rows and dialogs, and the buttons that each of them offers. A button is
  given as its text and the event it fires.
\<close>

section \<open>Confirmation dialogs\<close>

record confirm_view =
  cv_title :: jsstring
  cv_message :: jsstring
  cv_confirm :: jsstring
  cv_disabled :: bool

definition confirm_dialog :: "jsstring \<Rightarrow> jsstring \<Rightarrow> jsstring \<Rightarrow> bool \<Rightarrow> confirm_view" where
  "confirm_dialog title msg lbl busy = \<lparr>cv_title = title, cv_message = msg, cv_confirm = confirm_label busy lbl, cv_disabled = busy\<rparr>"

text \<open>Its two buttons, which a pending request disables.\<close>

definition confirm_buttons :: "(confirm_action \<Rightarrow> 'e) \<Rightarrow> bool \<Rightarrow> ('e \<times> string) list" where
  "confirm_buttons ev busy = (if busy then [] else [(ev CancelClick, ''Cancel''), (ev ConfirmClick, ''Delete'')])"

section \<open>The keys page\<close>

definition endpoint_base :: "jsstring \<Rightarrow> jsstring \<Rightarrow> jsstring" where
  "endpoint_base protocol host = protocol @ js ''//'' @ host @ js ''/v1''"

definition bearer :: jsstring where
  "bearer = js ''-H '' @ quoted (js ''Authorization: Bearer sk-mc-'' @ [0x2026])"

definition gateway_url :: jsstring where
  "gateway_url = js ''https://gw.maskchain.dev/v1/chat/completions''"

text \<open>What is shown of the command, and what its button copies: the same in two lines.\<close>

definition curl_shown :: jsstring where
  "curl_shown = js ''curl '' @ gateway_url @ js '' '' @ bearer"

definition curl_copied :: jsstring where
  "curl_copied = js ''curl '' @ gateway_url @ [32, 92, 10, 32, 32] @ bearer"

record connect_card =
  cn_title :: jsstring
  cn_texts :: "(jsstring \<times> jsstring) list"   \<comment> \<open>each shown text with what its button copies\<close>
  cn_note :: jsstring

definition connect_view :: "jsstring \<Rightarrow> jsstring \<Rightarrow> connect_card" where
  "connect_view protocol host = \<lparr>cn_title = js ''Connect your app'',
     cn_texts = [(endpoint_base protocol host, endpoint_base protocol host), (curl_shown, curl_copied)],
     cn_note = js ''Keys are hashed at rest''\<rparr>"

definition status_options :: "(jsstring \<times> jsstring) list" where
  "status_options = [([], js ''All statuses''), (js ''enabled'', js ''Enabled''), (js ''disabled'', js ''Disabled'')]"

definition keys_toolbar :: "keys_page \<Rightarrow> (string \<times> form_input) list" where
  "keys_toolbar s = [(''Search'', TextIn (kp_search s) (js ''Search by label, tenant or model'' @ [0x2026])),
     (''Tenant filter'', SelectIn (Some (kp_tenant_filter s)) (keys_tenant_options s)),
     (''Status filter'', SelectIn (Some (kp_status_filter s)) status_options)]"

definition keys_head :: "string list" where
  "keys_head = [''Tenant'', ''Label'', ''Models'', ''Budget & Spend'', ''Status'', ''Expires'', ''Actions'']"

text \<open>The dialog that shows a key once: its label and the secret to copy.\<close>

definition created_dialog :: "jsstring \<times> jsstring \<Rightarrow> jsstring \<times> jsstring \<times> jsstring" where
  "created_dialog kl = (js ''Copy the key now '' @ [0x2014] @ js '' it will not be shown again.'',
     js ''Key ('' @ snd kl @ js '')'', fst kl)"

definition revoke_dialog :: "keys_page \<Rightarrow> confirm_view option" where
  "revoke_dialog s = map_option (\<lambda>k. confirm_dialog (js ''Revoke key'')
     (js ''Revoke '' @ quoted (str_or (vk_label k) (vk_id k)) @ js ''? The key will stop working immediately.'')
     (js ''Delete'') (kp_busy s)) (kp_deleting s)"

record keys_view =
  kw_connect :: connect_card
  kw_onboarding :: "jsstring option"
  kw_toolbar :: "(string \<times> form_input) list"
  kw_head :: "string list"
  kw_rows :: "key_row_view list"
  kw_footer :: "jsstring list"
  kw_create :: "dialog_view option"
  kw_created :: "(jsstring \<times> jsstring \<times> jsstring) option"
  kw_revoke :: "confirm_view option"

text \<open>The page, given the protocol and host of the location and the rows in display order.\<close>

definition keys_screen :: "jsstring \<times> jsstring \<Rightarrow> date_reader \<Rightarrow> time_zone \<Rightarrow> int \<Rightarrow> virtual_key list \<Rightarrow> keys_page \<Rightarrow> keys_view" where
  "keys_screen loc rd tz now rows s = \<lparr>kw_connect = connect_view (fst loc) (snd loc), kw_onboarding = (if keys_onboarding s then Some (js ''Get your first key'') else None),
     kw_toolbar = keys_toolbar s, kw_head = keys_head, kw_rows = map (key_row rd tz now s) rows, kw_footer = keys_footer (kp_loading s) rows,
     kw_create = map_option (create_key_dialog (kp_tenants s)) (kp_modal s),
     kw_created = map_option created_dialog (kp_created s), kw_revoke = revoke_dialog s\<rparr>"

definition keys_row_buttons :: "virtual_key \<Rightarrow> (keys_event \<times> string) list" where
  "keys_row_buttons k = [(KToggleKey k, ''Toggle''), (KCopyId k, ''Copy key id''), (KAskDelete k, ''Revoke'')]"

definition keys_buttons :: "int \<Rightarrow> virtual_key list \<Rightarrow> keys_page \<Rightarrow> (keys_event \<times> string) list" where
  "keys_buttons now rows s = (if keys_onboarding s then [(KOpenModal, ''Create virtual key'')] else []) @
     [(KOpenModal, ''Create key'')] @ concat (map keys_row_buttons rows) @
     (if kp_modal s = None then [] else [(KCloseModal, ''Cancel''), (KSubmit now, ''Create'')]) @
     (if kp_created s = None then [] else [(KCloseCreated, ''Done'')]) @
     (if kp_deleting s = None then [] else confirm_buttons KConfirm (kp_busy s))"

section \<open>The budgets page\<close>

text \<open>A column head that sorts carries its aria-sort; the others are plain.\<close>

definition budgets_head :: "budgets_page \<Rightarrow> (string \<times> jsstring option) list" where
  "budgets_head s = (let th = (\<lambda>c. Some (aria_sort (sort_key (bp_sort s) = Some c) (sort_dir (bp_sort s)))) in
     [(''Tenant'', th ColTenant), (''Scope'', th ColScope), (''Period'', th ColType), (''Target'', None),
      (''Hard Limit'', th ColHardLimit), (''Spent'', None), (''Notify'', None), (''Status'', th ColEnabled),
      (''Actions'', None)])"

definition budget_delete_dialog :: "budgets_page \<Rightarrow> confirm_view option" where
  "budget_delete_dialog s = map_option (\<lambda>b. confirm_dialog (js ''Delete budget'')
     (js ''Delete budget for '' @ bud_tenant_id b @ js ''? Spend enforcement stops immediately.'') (js ''Delete'') (bp_busy s))
     (bp_deleting s)"

text \<open>The history dialog: its heading, its rows, and the message in place of no rows.\<close>

definition history_dialog :: "(jsstring \<Rightarrow> jsstring) \<Rightarrow> (jsstring \<Rightarrow> jsnum \<Rightarrow> jsstring option) \<Rightarrow> budgets_page \<Rightarrow>
    (jsstring \<times> string list \<times> jsstring list list \<times> jsstring option) option" where
  "history_dialog loc nf s = map_option (\<lambda>b. (js ''Spend history '' @ [0x2014] @ js '' '' @ bud_id b,
     [''Time'', ''Model'', ''Tokens'', ''Cost''], map (history_row loc nf b) (bp_history s),
     if bp_history s = [] then Some (js ''No spend recorded yet'') else None)) (bp_history_of s)"

record budgets_view =
  bw_head :: "(string \<times> jsstring option) list"
  bw_rows :: "budget_row_view list"
  bw_footer :: "jsstring list"
  bw_create :: "dialog_view option"
  bw_delete :: "confirm_view option"
  bw_history :: "(jsstring \<times> string list \<times> jsstring list list \<times> jsstring option) option"

definition budgets_screen :: "(jsstring \<Rightarrow> jsstring) \<Rightarrow> (jsstring \<Rightarrow> jsnum \<Rightarrow> jsstring option) \<Rightarrow> budgets_page \<Rightarrow> budgets_view" where
  "budgets_screen loc nf s = \<lparr>bw_head = budgets_head s, bw_rows = map (budget_row nf s) (budget_rows s),
     bw_footer = budgets_footer (bp_loading s) (budget_rows s),
     bw_create = map_option (create_budget_dialog (bp_tenants s) (bp_keys s)) (bp_modal s),
     bw_delete = budget_delete_dialog s, bw_history = history_dialog loc nf s\<rparr>"

definition budget_row_buttons :: "budget \<Rightarrow> (budgets_event \<times> string) list" where
  "budget_row_buttons b = [(BShowHistory b, ''History''), (BToggleBudget b, if bud_enabled b then ''Disable'' else ''Enable''),
     (BAskDelete b, ''Delete'')]"

definition budgets_buttons :: "budgets_page \<Rightarrow> (budgets_event \<times> string) list" where
  "budgets_buttons s = [(BOpenModal, ''Create Budget''), (BSort ColTenant, ''Tenant''), (BSort ColScope, ''Scope''),
       (BSort ColType, ''Period''), (BSort ColHardLimit, ''Hard Limit''), (BSort ColEnabled, ''Status'')] @
     concat (map budget_row_buttons (budget_rows s)) @
     (if bp_modal s = None then [] else [(BCloseModal, ''Cancel''), (BSubmit, ''Create'')]) @
     (if bp_deleting s = None then [] else confirm_buttons BConfirm (bp_busy s)) @
     (if bp_history_of s = None then [] else [(BCloseHistory, ''Close'')])"

section \<open>The routing page\<close>

definition rules_footer :: "routing_page \<Rightarrow> jsstring list" where
  "rules_footer s = table_footer (rp_loading s) (rp_rules s) (js ''No routing rules'') (js ''Loading routing rules'' @ [0x2026])"

text \<open>The table of rates has no loading row.\<close>

definition rates_footer :: "routing_page \<Rightarrow> jsstring list" where
  "rates_footer s = (if \<not> rp_loading s \<and> rp_rates s = [] then [js ''No cost rates configured''] else [])"

text \<open>The column heads of the two tables.\<close>

definition rules_head :: "string list" where
  "rules_head = [''Model'', ''Tenant'', ''Providers'', ''Health'', ''Source'', ''Actions'']"

definition rates_head :: "string list" where
  "rates_head = [''Model'', ''Input / 1K'', ''Output / 1K'', ''Currency'', ''Source'', ''Actions'']"

definition no_providers :: "routing_page \<Rightarrow> bool" where
  "no_providers s \<longleftrightarrow> \<not> rp_loading s \<and> rp_providers s = []"

record routing_view =
  rw_empty :: "jsstring option"
  rw_cards :: "provider_card_view list"
  rw_rules :: "(jsstring \<times> jsstring \<times> jsstring list \<times> (jsstring \<times> jsstring) \<times> jsstring) list"
  rw_heads :: "string list \<times> string list"
  rw_rules_footer :: "jsstring list"
  rw_rates :: "jsstring list list"
  rw_rates_footer :: "jsstring list"
  rw_dialog :: "dialog_view option"
  rw_delete :: "confirm_view option"

definition routing_delete_dialog :: "routing_page \<Rightarrow> confirm_view option" where
  "routing_delete_dialog s = (if rp_deleting s = None then None
     else Some (confirm_dialog (delete_title (rp_deleting s)) (delete_text (rp_deleting s)) (js ''Delete'') (rp_busy s)))"

definition routing_screen :: "date_reader \<Rightarrow> time_zone \<Rightarrow> int \<Rightarrow> provider list \<Rightarrow> routing_page \<Rightarrow> routing_view" where
  "routing_screen rd tz now cards s =
     \<lparr>rw_empty = (if no_providers s then Some (js ''No providers configured'') else None),
      rw_cards = (if no_providers s then [] else map (provider_card rd tz now (rp_rules s)) cards),
      rw_rules = map (rule_row (rp_providers s)) (rp_rules s), rw_heads = (rules_head, rates_head), rw_rules_footer = rules_footer s,
      rw_rates = map rate_row (rp_rates s), rw_rates_footer = rates_footer s,
      rw_dialog = routing_dialog s, rw_delete = routing_delete_dialog s\<rparr>"

text \<open>A provider of the gateway has a name.\<close>

definition provider_buttons :: "provider \<Rightarrow> (routing_event \<times> string) list" where
  "provider_buttons p = (REditProvider p, ''Edit'') #
     (case pv_name p of None \<Rightarrow> [] | Some n \<Rightarrow> [(RAskDelete (ProviderTarget n), ''Delete'')])"

definition rule_buttons :: "route \<Rightarrow> (routing_event \<times> string) list" where
  "rule_buttons r = [(REditRoute r, ''Edit''), (RAskDelete (RouteTarget (rt_tenant r @ js ''/'' @ rt_model r) r), ''Delete'')]"

definition rate_buttons :: "cost_rate \<Rightarrow> (routing_event \<times> string) list" where
  "rate_buttons c = [(REditRate c, ''Edit''), (RAskDelete (RateTarget (rate_model c)), ''Delete'')]"

definition routing_buttons :: "provider list \<Rightarrow> routing_page \<Rightarrow> (routing_event \<times> string) list" where
  "routing_buttons cards s = (RAddProvider, ''Add Provider'') #
     (if no_providers s then [(RAddProvider, ''Add Provider'')] else concat (map provider_buttons cards)) @
     concat (map rule_buttons (rp_rules s)) @ concat (map rate_buttons (rp_rates s)) @
     (if crud_shown s then [(RCloseModal, ''Cancel''), (RSubmit, ''Save'')] else []) @
     (if rp_deleting s = None then [] else confirm_buttons RConfirm (rp_busy s))"

section \<open>The buttons on screen are the events on offer\<close>

text \<open>Which events belong to a button, given what the tables show.\<close>

fun keys_button :: "int \<Rightarrow> virtual_key list \<Rightarrow> keys_event \<Rightarrow> bool" where
  "keys_button now rows KOpenModal \<longleftrightarrow> True"
| "keys_button now rows KCloseModal \<longleftrightarrow> True"
| "keys_button now rows (KSubmit t) \<longleftrightarrow> t = now"
| "keys_button now rows KCloseCreated \<longleftrightarrow> True"
| "keys_button now rows (KAskDelete k) \<longleftrightarrow> k \<in> set rows"
| "keys_button now rows (KToggleKey k) \<longleftrightarrow> k \<in> set rows"
| "keys_button now rows (KCopyId k) \<longleftrightarrow> k \<in> set rows"
| "keys_button now rows (KConfirm a) \<longleftrightarrow> a \<in> {ConfirmClick, CancelClick}"
| "keys_button now rows e \<longleftrightarrow> False"

fun budgets_button :: "budgets_event \<Rightarrow> bool" where
  "budgets_button BMount \<longleftrightarrow> False"
| "budgets_button (BEdit e) \<longleftrightarrow> False"
| "budgets_button (BConfirm a) \<longleftrightarrow> a \<in> {ConfirmClick, CancelClick}"
| "budgets_button e \<longleftrightarrow> True"

fun routing_button :: "routing_page \<Rightarrow> provider list \<Rightarrow> routing_event \<Rightarrow> bool" where
  "routing_button s cards RMount \<longleftrightarrow> False"
| "routing_button s cards (RFormEdit e) \<longleftrightarrow> False"
| "routing_button s cards (RConfirm a) \<longleftrightarrow> a \<in> {ConfirmClick, CancelClick}"
| "routing_button s cards e \<longleftrightarrow> True"

text \<open>The events of a list of buttons.\<close>

definition fired_by :: "('e \<times> string) list \<Rightarrow> 'e set" where
  "fired_by bs = fst ` set bs"

lemma fired_by_simps [simp]:
  "fired_by [] = {}" "fired_by ((e, l) # bs) = insert e (fired_by bs)" "fired_by (bs @ cs) = fired_by bs \<union> fired_by cs"
  "fired_by (concat (map f rows)) = (\<Union>r \<in> set rows. fired_by (f r))"
  "fired_by (if c then bs else cs) = (if c then fired_by bs else fired_by cs)"
  by (auto simp: fired_by_def image_Un image_UN)

lemma confirm_fired: "fired_by (confirm_buttons ev busy) = (if busy then {} else {ev CancelClick, ev ConfirmClick})"
  by (simp add: confirm_buttons_def)

lemma keys_buttons_iff:
  assumes "set rows \<subseteq> set (kp_keys s)"
  shows "e \<in> fired_by (keys_buttons now rows s) \<longleftrightarrow> keys_button now rows e \<and> keys_enabled e s"
  using assms by (cases e) (auto simp: keys_buttons_def keys_row_buttons_def confirm_fired confirm_enabled_def)

lemma set_budget_rows: "set (budget_rows s) = set (bp_budgets s)"
  using engine_sort_array_sort by (auto simp: budget_rows_def sort_rows_def engine_sort_def dest: mset_eq_setD split: option.split)

lemma budgets_buttons_iff: "e \<in> fired_by (budgets_buttons s) \<longleftrightarrow> budgets_button e \<and> budgets_enabled e s"
proof (cases e)
  case (BSort c)
  then show ?thesis by (cases c) (simp_all add: budgets_buttons_def)
qed (auto simp: budgets_buttons_def budget_row_buttons_def confirm_fired confirm_enabled_def set_budget_rows)

lemma provider_fired: "fired_by (provider_buttons p) = insert (REditProvider p) ((\<lambda>n. RAskDelete (ProviderTarget n)) ` set_option (pv_name p))"
  by (simp add: provider_buttons_def split: option.split)

lemma routing_buttons_iff:
  assumes "set cards = set (rp_providers s)"
  shows "e \<in> fired_by (routing_buttons cards s) \<longleftrightarrow> routing_button s cards e \<and> routing_enabled e s"
proof -
  have "no_providers s \<Longrightarrow> set cards = {}" using assms by (simp add: no_providers_def)
  then have "fired_by (routing_buttons cards s) = insert RAddProvider (\<Union>p \<in> set (rp_providers s). fired_by (provider_buttons p)) \<union>
      (\<Union>r \<in> set (rp_rules s). fired_by (rule_buttons r)) \<union> (\<Union>c \<in> set (rp_rates s). fired_by (rate_buttons c)) \<union>
      (if crud_shown s then {RCloseModal, RSubmit} else {}) \<union>
      (if rp_deleting s = None then {} else fired_by (confirm_buttons RConfirm (rp_busy s)))"
    using assms by (cases "no_providers s") (simp_all add: routing_buttons_def Un_assoc)
  note f = this [unfolded provider_fired confirm_fired, simplified rule_buttons_def rate_buttons_def fired_by_simps]
  show ?thesis
  proof (cases e)
    case (RAskDelete t)
    then show ?thesis unfolding f by (cases t) auto
  qed (unfold f, auto simp: confirm_enabled_def)
qed

end
