(* ===== verification/ListScreens.thy ===== *)
theory ListScreens
  imports PageViews Conversations Sessions
begin

text \<open>
  The sessions and conversations pages as they stand on the screen, the time range picker, and what all
  pages over a table share: the buttons on screen are the events on offer.
\<close>

section \<open>The time range picker\<close>

definition presets :: "preset list" where
  "presets = [Today, Yesterday, Week, Month, AllTime]"

definition preset_label :: "preset \<Rightarrow> string" where
  "preset_label p = (case p of Today \<Rightarrow> ''Today'' | Yesterday \<Rightarrow> ''Yesterday'' | Week \<Rightarrow> ''7d'' | Month \<Rightarrow> ''30d''
     | AllTime \<Rightarrow> ''All'')"

text \<open>Its buttons, each with whether it is marked, and the two inputs of the custom range.\<close>

definition picker_view :: "range_value \<Rightarrow> range_picker \<Rightarrow> (string \<times> bool) list \<times> (jsstring \<times> jsstring) option" where
  "picker_view v p = (let custom = rg_mode v = js ''custom'' in
     (map (\<lambda>q. (preset_label q, rg_mode v = preset_mode q)) presets @ [(if custom then ''Apply'' else ''Custom'', custom)],
      if custom then Some (custom_from p, custom_to p) else None))"

section \<open>The sessions page\<close>

definition refresh_choices :: "sessions_page \<Rightarrow> (int \<times> jsstring \<times> bool) list" where
  "refresh_choices s = map (\<lambda>n. (n, if n = 0 then js ''Off'' else int_str n @ js ''s'', sp_refresh s = n)) [0, 5, 10, 30]"

definition bulk_label :: "sessions_page \<Rightarrow> jsstring option" where
  "bulk_label s = (if sp_selected s = [] then None
     else Some (js ''Close '' @ int_str (int (length (sp_selected s))) @ js '' selected''))"

definition sessions_head :: "sessions_page \<Rightarrow> (string \<times> jsstring option) list" where
  "sessions_head s = (let th = (\<lambda>c. Some (aria_sort (sort_key (sp_sort s) = Some c) (sort_dir (sp_sort s)))) in
     [(''Session ID'', th SsId), (''Tenant'', th SsTenant), (''Model'', th SsModel), (''Status'', th SsStatus),
      (''Created'', th SsCreated), (''Expires'', None), (''Tokens Used'', th SsTokens), ([], None)])"

definition close_dialog :: "sessions_page \<Rightarrow> confirm_view option" where
  "close_dialog s = (let n = int_str (int (length (sp_selected s))) in map_option (\<lambda>t. case t of
      Bulk \<Rightarrow> confirm_dialog (js ''Close '' @ n @ js '' sessions'')
        (js ''This will close '' @ n @ js '' selected session(s). Continue?'') (js ''Close'') (sp_closing s)
    | One i \<Rightarrow> confirm_dialog (js ''Close session'') (js ''This session will be closed immediately. Continue?'')
        (js ''Close'') (sp_closing s)) (sp_confirm s))"

record sessions_view =
  sw_refresh :: jsstring
  sw_choices :: "(int \<times> jsstring \<times> bool) list"
  sw_bulk :: "jsstring option"
  sw_all :: "bool \<times> bool"   \<comment> \<open>the header checkbox: checked, disabled\<close>
  sw_head :: "(string \<times> jsstring option) list"
  sw_rows :: "(bool \<times> jsstring list \<times> bool) list"
  sw_footer :: "jsstring list"
  sw_close :: "confirm_view option"

definition sessions_screen :: "date_reader \<Rightarrow> (int \<Rightarrow> jsstring) \<Rightarrow> (jsstring \<Rightarrow> jsstring) \<Rightarrow> (jsnum \<Rightarrow> jsstring) \<Rightarrow>
    sessions_page \<Rightarrow> sessions_view" where
  "sessions_screen rd clock loc num s = (let rows = session_rows rd s in
     \<lparr>sw_refresh = refresh_label clock s, sw_choices = refresh_choices s, sw_bulk = bulk_label s,
      sw_all = (all_checked rows (sp_selected s), rows = []), sw_head = sessions_head s,
      sw_rows = map (session_cells loc num s) rows,
      sw_footer = table_footer (ad_loading (sp_data s)) rows (js ''No sessions'') (js ''TableSkeleton''),
      sw_close = close_dialog s\<rparr>)"

definition session_row_buttons :: "session_row \<Rightarrow> (sessions_event \<times> string) list" where
  "session_row_buttons r = (SsToggle (ss_id r), ''Select'') #
     (if ss_status r = js ''active'' then [(SsExtend (ss_id r), ''Extend''), (SsAskClose (ss_id r), ''Close'')] else [])"

definition sessions_buttons :: "date_reader \<Rightarrow> sessions_page \<Rightarrow> (sessions_event \<times> string) list" where
  "sessions_buttons rd s =
     [(SsSetRefresh 0, ''Off''), (SsSetRefresh 5, ''5s''), (SsSetRefresh 10, ''10s''), (SsSetRefresh 30, ''30s''),
      (SsRefresh, ''Refresh'')] @
     (if sp_selected s = [] then [] else [(SsAskBulk, ''Close selected'')]) @
     (if session_rows rd s = [] then [] else [(SsToggleAll, ''Select all sessions'')]) @
     [(SsSort SsId, ''Session ID''), (SsSort SsTenant, ''Tenant''), (SsSort SsModel, ''Model''), (SsSort SsStatus, ''Status''),
      (SsSort SsCreated, ''Created''), (SsSort SsTokens, ''Tokens Used'')] @
     concat (map session_row_buttons (session_rows rd s)) @
     (if sp_confirm s = None then [] else confirm_buttons SsConfirm (sp_closing s))"

fun sessions_button :: "sessions_event \<Rightarrow> bool" where
  "sessions_button (SsSettle i p) \<longleftrightarrow> False"
| "sessions_button (SsTick now) \<longleftrightarrow> False"
| "sessions_button (SsRange v) \<longleftrightarrow> False"
| "sessions_button (SsConfirm a) \<longleftrightarrow> a \<in> {ConfirmClick, CancelClick}"
| "sessions_button e \<longleftrightarrow> True"

lemma session_fired: "fired_by (session_row_buttons r) = {SsToggle (ss_id r)} \<union>
    (if ss_status r = js ''active'' then {SsExtend (ss_id r), SsAskClose (ss_id r)} else {})"
  by (simp add: session_row_buttons_def)

lemma sessions_buttons_iff: "e \<in> fired_by (sessions_buttons rd s) \<longleftrightarrow> sessions_button e \<and> sessions_enabled rd e s"
proof (cases e)
  case (SsSort c)
  then show ?thesis by (cases c) (auto simp: sessions_buttons_def session_fired confirm_fired)
qed (auto simp: sessions_buttons_def session_fired confirm_fired confirm_enabled_def)

section \<open>The conversations page\<close>

text \<open>The filters; the tenants and models offered are those of the rows the page has.\<close>

definition conv_filters_view :: "conv_page \<Rightarrow> (string \<times> form_input) list" where
  "conv_filters_view s = (let f = cp_filters s; own = map (\<lambda>t. (t, t)) in
     [(''Tenant'', SelectIn (Some (nullish (cf_tenant_id f) [])) (([], js ''All tenants'') # own (options_of cv_tenant_id s))),
      (''Status'', SelectIn (Some (nullish (cf_status f) [])) (([], js ''All statuses'') # own (map js [''ok'', ''error'', ''blocked'']))),
      (''Model'', SelectIn (Some (nullish (cf_model f) [])) (([], js ''All models'') # own (options_of cv_model s))),
      (''Masked'', SelectIn (Some (nullish (cf_masked f) []))
         [([], js ''All''), (js ''true'', js ''Masked''), (js ''false'', js ''Not masked'')])])"

definition conv_head :: "conv_page \<Rightarrow> (string \<times> jsstring) list" where
  "conv_head s = map (\<lambda>(l, c). (l, aria_sort (sort_key (cp_sort s) = Some c) (sort_dir (cp_sort s))))
     [(''ID'', CvId), (''Tenant'', CvTenant), (''Model'', CvModel), (''Status'', CvStatus), (''Masked'', CvMasked),
      (''Streamed'', CvStreamed), (''Created'', CvCreated)]"

record conv_view =
  vw_filters :: "(string \<times> form_input) list"
  vw_columns :: "(string \<times> jsstring) list"
  vw_rows :: "(bool \<times> jsstring list) list"
  vw_footer :: "jsstring list"
  vw_pager :: "(int \<times> jsnum \<times> jsnum) option"
  vw_failed :: "jsstring option"
  vw_detail :: "detail_view option"

text \<open>The page; a detail that does not decode throws.\<close>

definition conv_screen :: "(jsstring \<Rightarrow> json option) \<Rightarrow> date_reader \<Rightarrow> time_zone \<Rightarrow> conv_page \<Rightarrow> js_error + conv_view" where
  "conv_screen parse rd tz s = map_sum id (\<lambda>d. \<lparr>vw_filters = conv_filters_view s, vw_columns = conv_head s,
       vw_rows = map (conv_row rd tz s) (conv_rows s),
       vw_footer = table_footer (ad_loading (cp_data s)) (conv_rows s) (js ''No conversations'') (js ''TableSkeleton''),
       vw_pager = (if shows_pagination s then Some (cp_page s, total_pages s, conv_total s) else None),
       vw_failed = (if cp_detail_error s then Some (js ''Failed to load conversation detail'') else None),
       vw_detail = d\<rparr>)
     (case cp_detail s of None \<Rightarrow> Inr None | Some d \<Rightarrow> map_sum id Some (detail_render parse d))"

text \<open>The options come from the filtered rows themselves: when a filter leaves no row, its own option is gone,
  and the select shows "All tenants" while the page goes on filtering by the tenant.\<close>

theorem tenant_filter_hidden:
  fixes c :: conversation_item
  assumes "t \<noteq> []" "cv_tenant_id c = t"
  shows "\<exists>m. sys_reach conv_handler conv_enabled conv_adm (mount conv_init) m \<and> cf_tenant_id (cp_filters (ui m)) = Some t \<and>
    conv_rows (ui m) = [] \<and> map_option shown_value (map_of (conv_filters_view (ui m)) ''Tenant'') = Some []"
proof -
  let ?sched = "[Fire (CvSettle 0 (Fulfilled \<lparr>cd_items = [c], cd_total = None\<rparr>)), Fire (CvFilter TenantFilter t), Fire (CvSettle 1 (Fulfilled \<lparr>cd_items = [], cd_total = None\<rparr>))] :: (conv_event, conv_reply) move list"
  have key: "filter_key no_filters \<noteq> filter_key (no_filters\<lparr>cf_tenant_id := Some t\<rparr>)"
    using assms by (simp add: filter_key_def no_filters_def)
  have u: "or_undefined t = Some t" using assms by (simp add: or_undefined_def)
  have "\<exists>m. do_moves conv_handler conv_enabled conv_adm ?sched (mount conv_init) = Some m \<and>
      cf_tenant_id (cp_filters (ui m)) = Some t \<and> conv_items (ui m) = []"
    using key u assms by (simp add: options_of_def resume_def mount_def conv_init_def set_filter_def conv_render_def conv_items_def ad_effect_def
      ad_cleanup_def ad_init_def ad_settle_def ad_callbacks_def Let_def)
  then obtain m where r: "sys_reach conv_handler conv_enabled conv_adm (mount conv_init) m"
    and m: "cf_tenant_id (cp_filters (ui m)) = Some t" "conv_items (ui m) = []" by (blast intro: schedule_reach)
  have "conv_rows (ui m) = []" using m(2) by (simp add: conv_rows_def sort_rows_def array_sort_def split: option.split)
  moreover have "map_option shown_value (map_of (conv_filters_view (ui m)) ''Tenant'') = Some []"
    using m assms by (simp add: conv_filters_view_def options_of_def Let_def)
  ultimately show ?thesis using r m(1) by blast
qed

theorem tenant_filter_hidden_witness:
  "\<exists>m. sys_reach conv_handler conv_enabled conv_adm (mount conv_init) m \<and>
    cf_tenant_id (cp_filters (ui m)) = Some (js ''acme'') \<and> conv_rows (ui m) = []"
  using tenant_filter_hidden [of "js ''acme''" "\<lparr>cv_id = [], cv_tenant_id = js ''acme'', cv_model = [], cv_status = [],
     cv_masked = False, cv_streamed = False, cv_mask_id = None, cv_created_at = []\<rparr>"] by (auto simp: js_def)

section \<open>The buttons on screen are the events on offer\<close>



end
