(* ===== verification/Quiescence.thy ===== *)
theory Quiescence
  imports Async
begin

text \<open>
  How much a mounted page asks of the gateway. A handler that asks n makes at most n requests
  before it and what it forks have ended, whatever the answers; a page whose handlers all ask
  c makes at most c requests per event, and therefore comes to rest: between two events only
  finitely many answers can arrive. This is the contract \<open>request_bound\<close>.
\<close>

primrec asks :: "('s, 'o, 'q, 'r) act \<Rightarrow> nat \<Rightarrow> bool" where
  "asks Done n \<longleftrightarrow> True"
| "asks (Upd f a) n \<longleftrightarrow> asks a n"
| "asks (Emit x a) n \<longleftrightarrow> asks a n"
| "asks (Await q k) n \<longleftrightarrow> (case n of 0 \<Rightarrow> False | Suc m \<Rightarrow> \<forall>r. asks (k r) m)"
| "asks (Fork c a) n \<longleftrightarrow> (\<exists>i j. i + j \<le> n \<and> asks c i \<and> asks a j)"

lemma asks_Await: "asks (Await q k) n \<longleftrightarrow> 0 < n \<and> (\<forall>r. asks (k r) (n - 1))"
  by (cases n) simp_all

lemma asks_mono: "asks a i \<Longrightarrow> i \<le> j \<Longrightarrow> asks a j"
proof (induction a arbitrary: i j)
  case (Await q k)
  obtain u where u: "i = Suc u" using Await.prems by (cases i) simp_all
  obtain v where v: "j = Suc v" using Await.prems(2) u by (cases j) simp_all
  have "asks (k r) v" for r
    by (rule Await.IH [OF rangeI, of r u]) (use Await.prems u v in simp_all)
  then show ?case using v by simp
next
  case (Fork c a)
  then obtain u v where "u + v \<le> i" "asks c u" "asks a v" by auto
  then show ?case using Fork.prems(2) by (simp, intro exI [of _ u] exI [of _ v]) simp
qed simp_all

lemma asks_and_then: "asks a i \<Longrightarrow> asks b j \<Longrightarrow> asks (and_then a b) (i + j)"
proof (induction a arbitrary: i)
  case Done
  then show ?case using asks_mono [of b j "i + j"] by simp
next
  case (Await q k)
  obtain u where u: "i = Suc u" using Await.prems by (cases i) simp_all
  have "asks (and_then (k r) b) (u + j)" for r
    by (rule Await.IH [OF rangeI, of r u]) (use Await.prems u in simp_all)
  then show ?case using u by simp
next
  case (Fork c a)
  then obtain u v where uv: "u + v \<le> i" "asks c u" "asks a v" by auto
  from uv(2) Fork.IH(2) [OF uv(3) Fork.prems(2)] show ?case using uv(1)
    by (simp, intro exI [of _ u] exI [of _ "v + j"]) simp
qed simp_all

lemma asks_Fork: "asks c i \<Longrightarrow> asks a j \<Longrightarrow> i + j \<le> n \<Longrightarrow> asks (Fork c a) n"
  by auto

definition task_asks :: "('s, 'o, 'q, 'r) task \<Rightarrow> nat \<Rightarrow> bool" where
  "task_asks t n \<longleftrightarrow> (case n of 0 \<Rightarrow> False | Suc m \<Rightarrow> \<forall>r. asks (snd t r) m)"

text \<open>Running up to the next await leaves tasks whose shares add up to no more.\<close>

lemma asks_advance:
  "asks a n \<Longrightarrow> advance a s = (s', os, ts) \<Longrightarrow> \<exists>bs. list_all2 task_asks ts bs \<and> sum_list bs \<le> n"
proof (induction a arbitrary: n s s' os ts)
  case (Await q k)
  then have "task_asks (q, k) n" by (simp add: task_asks_def split: nat.splits)
  moreover have "ts = [(q, k)]" using Await.prems(2) by simp
  ultimately show ?case by (intro exI [of _ "[n]"]) simp
next
  case (Fork c a)
  obtain s1 os1 ts1 where c: "advance c s = (s1, os1, ts1)" by (cases "advance c s")
  obtain s2 os2 ts2 where a: "advance a s1 = (s2, os2, ts2)" by (cases "advance a s1")
  obtain i j where ij: "i + j \<le> n" "asks c i" "asks a j" using Fork.prems(1) by auto
  obtain us where us: "list_all2 task_asks ts1 us" "sum_list us \<le> i" using Fork.IH(1) [OF ij(2) c] by blast
  obtain vs where vs: "list_all2 task_asks ts2 vs" "sum_list vs \<le> j" using Fork.IH(2) [OF ij(3) a] by blast
  have "ts = ts1 @ ts2" using Fork.prems(2) c a by simp
  then show ?case using us vs ij(1) by (intro exI [of _ "us @ vs"]) (simp add: list_all2_appendI)
qed (auto split: prod.splits)

text \<open>A run with the number of events and of answers so far.\<close>

inductive sys_run :: "('e \<Rightarrow> 's \<Rightarrow> ('s, 'o, 'q, 'r) act) \<Rightarrow> ('e \<Rightarrow> 's \<Rightarrow> bool) \<Rightarrow> ('q \<Rightarrow> 'r \<Rightarrow> bool) \<Rightarrow>
    ('s, 'o, 'q, 'r) sys \<Rightarrow> ('s, 'o, 'q, 'r) sys \<Rightarrow> nat \<Rightarrow> nat \<Rightarrow> bool"
  for handler enabled adm m0 where
  idle: "sys_run handler enabled adm m0 m0 0 0"
| fired: "sys_run handler enabled adm m0 m f n \<Longrightarrow> enabled e (ui m) \<Longrightarrow>
     sys_run handler enabled adm m0 (resume (handler e (ui m)) m (tasks m) []) (Suc f) n"
| answered: "sys_run handler enabled adm m0 m f n \<Longrightarrow> tasks m = before @ (q, k) # after \<Longrightarrow> adm q r \<Longrightarrow>
     sys_run handler enabled adm m0 (resume (k r) m before after) f (Suc n)"

inductive_cases sys_runE: "sys_run handler enabled adm m0 m f n"

lemma sys_run_reach: "sys_run handler enabled adm m0 m f n \<Longrightarrow> sys_reach handler enabled adm m0 m"
  by (induction rule: sys_run.induct) (auto intro: sys_reach.intros sys_step.intros)

lemma sys_reach_run: "sys_reach handler enabled adm m0 m \<Longrightarrow> \<exists>f n. sys_run handler enabled adm m0 m f n"
proof (induction rule: sys_reach.induct)
  case start
  show ?case using sys_run.idle by blast
next
  case (step m m')
  then obtain f n where "sys_run handler enabled adm m0 m f n" by blast
  with step.hyps(2) show ?case by (cases rule: sys_step.cases) (blast intro: sys_run.intros)+
qed

lemma sys_run_trans:
  "sys_run handler enabled adm m0 m f n \<Longrightarrow> sys_run handler enabled adm m m' f' n' \<Longrightarrow>
   sys_run handler enabled adm m0 m' (f + f') (n + n')"
  by (rotate_tac 1, induction rule: sys_run.induct) (auto intro: sys_run.intros)

text \<open>A schedule with its numbers of events and of answers.\<close>

fun fires :: "('e, 'r) move list \<Rightarrow> nat" where
  "fires [] = 0"
| "fires (Fire e # xs) = Suc (fires xs)"
| "fires (Answer i r # xs) = fires xs"

lemma do_move_run: "do_move handler enabled adm x m = Some m' \<Longrightarrow> sys_run handler enabled adm m m' (fires [x]) (1 - fires [x])"
proof (cases x)
  case (Fire e)
  assume "do_move handler enabled adm x m = Some m'"
  then show ?thesis using Fire sys_run.fired [OF sys_run.idle] by (fastforce split: if_splits)
next
  case (Answer i r)
  assume d: "do_move handler enabled adm x m = Some m'"
  then obtain q k after where c: "drop i (tasks m) = (q, k) # after" using Answer by (cases "drop i (tasks m)") auto
  then have "tasks m = take i (tasks m) @ (q, k) # after" by (metis append_take_drop_id)
  then show ?thesis using d Answer c sys_run.answered [OF sys_run.idle, of m "take i (tasks m)" q k after]
    by (auto split: if_splits)
qed

lemma do_moves_run:
  "do_moves handler enabled adm xs m = Some m' \<Longrightarrow> sys_run handler enabled adm m m' (fires xs) (length xs - fires xs)"
proof (induction xs arbitrary: m)
  case Nil
  then show ?case using sys_run.idle by simp
next
  case (Cons x xs)
  then obtain m1 where m1: "do_move handler enabled adm x m = Some m1" "do_moves handler enabled adm xs m1 = Some m'"
    by (auto split: option.splits)
  have "fires xs \<le> length xs" by (induction xs rule: fires.induct) simp_all
  then show ?case using sys_run_trans [OF do_move_run [OF m1(1)] Cons.IH [OF m1(2)]]
    by (cases x) (simp_all add: Suc_diff_le)
qed

text \<open>A page comes to rest when its requests are bounded by its events and the answers alone lead,
  from every state it can be in, to one where nothing is pending.\<close>

definition comes_to_rest :: "('e \<Rightarrow> 's \<Rightarrow> ('s, 'o, 'q, 'r) act) \<Rightarrow> ('e \<Rightarrow> 's \<Rightarrow> bool) \<Rightarrow> ('q \<Rightarrow> 'r \<Rightarrow> bool) \<Rightarrow>
    ('s, 'o, 'q, 'r) sys \<Rightarrow> nat \<Rightarrow> bool" where
  "comes_to_rest handler enabled adm m0 c \<longleftrightarrow> (\<forall>m f n. sys_run handler enabled adm m0 m f n \<longrightarrow>
     n + length (tasks m) \<le> c * f \<and>
     (\<exists>m' k. sys_run handler enabled adm m m' 0 k \<and> tasks m' = [] \<and> n + k \<le> c * f))"

locale request_bound =
  fixes handler :: "'e \<Rightarrow> 's \<Rightarrow> ('s, 'o, 'q, 'r) act"
    and enabled :: "'e \<Rightarrow> 's \<Rightarrow> bool"
    and c :: nat
  assumes handler_asks: "enabled e s \<Longrightarrow> asks (handler e s) c"
begin

lemma run_shares:
  "sys_run handler enabled adm (mount init) m f n \<Longrightarrow>
   \<exists>bs. list_all2 task_asks (tasks m) bs \<and> sum_list bs + n \<le> c * f"
proof (induction rule: sys_run.induct)
  case idle
  show ?case by (intro exI [of _ "[]"]) (simp add: mount_def)
next
  case (fired m f n e)
  then obtain bs where bs: "list_all2 task_asks (tasks m) bs" "sum_list bs + n \<le> c * f" by blast
  obtain s' os ts where adv: "advance (handler e (ui m)) (ui m) = (s', os, ts)" by (cases "advance (handler e (ui m)) (ui m)")
  obtain us where us: "list_all2 task_asks ts us" "sum_list us \<le> c"
    using asks_advance [OF handler_asks [OF fired.hyps(2)] adv] by blast
  show ?case using bs us adv by (intro exI [of _ "bs @ us"]) (simp add: resume_def list_all2_appendI)
next
  case (answered m f n before q k after r)
  then obtain bs where bs: "list_all2 task_asks (before @ (q, k) # after) bs" "sum_list bs + n \<le> c * f" by auto
  then obtain us b vs where b: "bs = us @ b # vs" "list_all2 task_asks before us" "task_asks (q, k) b"
      "list_all2 task_asks after vs"
    by (auto simp: list_all2_append1 list_all2_Cons1)
  obtain s' os ts where adv: "advance (k r) (ui m) = (s', os, ts)" by (cases "advance (k r) (ui m)")
  obtain d where d: "b = Suc d" "asks (k r) d" using b(3) by (cases b) (simp_all add: task_asks_def)
  obtain ws where ws: "list_all2 task_asks ts ws" "sum_list ws \<le> d" using asks_advance [OF d(2) adv] by blast
  show ?case using bs(2) b ws adv d(1)
    by (intro exI [of _ "us @ ws @ vs"]) (simp add: resume_def list_all2_appendI)
qed

text \<open>What has been asked, answered or not, is at most c times the number of events.\<close>

lemma requests_bounded:
  assumes "sys_run handler enabled adm (mount init) m f n"
  shows "n + length (tasks m) \<le> c * f"
proof -
  obtain bs where bs: "list_all2 task_asks (tasks m) bs" "sum_list bs + n \<le> c * f" using run_shares [OF assms] by blast
  have "length xs \<le> sum_list cs" if "list_all2 task_asks xs cs" for xs cs
    using that by (induction rule: list_all2_induct) (auto simp: task_asks_def split: nat.splits)
  with bs show ?thesis by fastforce
qed

text \<open>From every state the answers still outstanding bring the page to rest, if each request has one.\<close>

lemma answers_run_out:
  assumes "sys_run handler enabled adm (mount init) m f n" and answer: "\<And>q. \<exists>r. adm q r"
  shows "\<exists>m' k. sys_run handler enabled adm m m' 0 k \<and> tasks m' = [] \<and> n + k \<le> c * f"
  using assms(1)
proof (induction "c * f - n" arbitrary: m n rule: less_induct)
  case less
  show ?case
  proof (cases "tasks m")
    case Nil
    then show ?thesis using requests_bounded [OF less.prems] sys_run.idle by fastforce
  next
    case (Cons t after)
    obtain q k where t: "t = (q, k)" by (cases t)
    obtain r where r: "adm q r" using answer by blast
    let ?m = "resume (k r) m [] after"
    have one: "sys_run handler enabled adm m ?m 0 (Suc 0)"
      by (rule sys_run.answered [OF sys_run.idle, of m "[]"]) (use Cons t r in simp_all)
    have run: "sys_run handler enabled adm (mount init) ?m f (Suc n)" using sys_run_trans [OF less.prems one] by simp
    have "c * f - Suc n < c * f - n" using requests_bounded [OF less.prems] Cons by simp
    from less.hyps [OF this run] obtain m' j where
      "sys_run handler enabled adm ?m m' 0 j" "tasks m' = []" "Suc n + j \<le> c * f" by blast
    then show ?thesis using sys_run_trans [OF one] by (intro exI [of _ m'] exI [of _ "Suc j"]) simp
  qed
qed

lemma rests:
  assumes "\<And>q. \<exists>r. adm q r"
  shows "comes_to_rest handler enabled adm (mount init) c"
  unfolding comes_to_rest_def using requests_bounded answers_run_out [of adm, OF _ assms] by blast

end

end
