(* ===== verification/RequestBounds.thy ===== *)
theory RequestBounds
  imports Quiescence Session Keys Budgets Routing TenantForm TenantDetail Sessions Conversations Settings
    Analytics Dashboard
begin

text \<open>
  The request bound of every page: how many requests one event can lead to, whatever the gateway
  answers. A page sends its own request and, after a success, reloads; applying a compliance pack
  is three requests in turn, mounting the dashboard starts five loads with eight requests.
\<close>

lemmas asks_facts = asks_Await asks_and_then asks_mono

lemma asks_then: "asks a n \<Longrightarrow> asks b 0 \<Longrightarrow> asks (and_then a b) n"
  using asks_and_then [of a n b 0] by simp

section \<open>Session\<close>

lemma session_asks: "asks (session_handler e s) 1"
  by (cases e) (auto simp: verify_on_mount_def handle_submit_def handle_logout_def asks_Await Let_def
      split: option.splits outcome.splits sum.splits intro!: asks_then)

interpretation session_bound: request_bound session_handler session_enabled 1
  by unfold_locales (rule session_asks)

section \<open>The pages over a table\<close>

lemma budgets_reload_asks: "asks budgets_reload 1"
  by (auto simp: budgets_reload_def asks_Await split: sum.splits)

lemma budgets_asks: "asks (budgets_handler e s) 2"
  by (cases e) (auto simp: budgets_do_delete_def budgets_handle_create_def budgets_handle_toggle_def
      budgets_show_history_def asks_Await asks_mono [OF budgets_reload_asks] budgets_reload_asks
      split: option.splits sum.splits intro!: asks_then)

interpretation budgets_bound: request_bound budgets_handler budgets_enabled 2
  by unfold_locales (rule budgets_asks)

lemma routing_reload_asks: "asks routing_reload 1"
  by (auto simp: routing_reload_def asks_Await split: sum.splits)

lemma routing_asks: "asks (routing_handler upper e s) 2"
  by (cases e) (auto simp: routing_do_delete_def routing_on_saved_def asks_Await
      asks_mono [OF routing_reload_asks] routing_reload_asks
      split: option.splits sum.splits intro!: asks_then)

interpretation routing_bound: request_bound "routing_handler upper" routing_enabled 2 for upper
  by unfold_locales (rule routing_asks)

lemma keys_reload_asks: "asks keys_reload_rest 1" "asks keys_reload 1"
  by (auto simp: keys_reload_rest_def keys_reload_def asks_Await split: sum.splits)

lemma keys_asks: "asks (keys_handler e s) 2"
  by (cases e) (auto simp: keys_do_delete_def keys_handle_create_def keys_handle_toggle_def keys_mount_def
      asks_Await asks_mono [OF keys_reload_asks(1)] asks_mono [OF keys_reload_asks(2)] keys_reload_asks Let_def
      split: option.splits sum.splits intro!: asks_then)

interpretation keys_bound: request_bound keys_handler keys_enabled 2
  by unfold_locales (rule keys_asks)

lemma sessions_asks: "asks (sessions_handler rd e s) 1"
  by (cases e) (auto simp: sessions_confirm_def exec_close_def handle_extend_def asks_Await Let_def
      split: option.splits sum.splits close_target.splits)

interpretation sessions_bound: request_bound "sessions_handler rd" "sessions_enabled rd" 1 for rd
  by unfold_locales (rule sessions_asks)

lemma conv_asks: "asks (conv_handler e s) 1"
  by (cases e) (auto simp: open_detail_def asks_Await split: option.splits sum.splits)

interpretation conv_bound: request_bound conv_handler conv_enabled 1
  by unfold_locales (rule conv_asks)

section \<open>Tenants and settings\<close>

lemma tenant_form_asks: "asks (tenant_form_handler lower tslug e s) 1"
  by (cases e) (auto simp: tenant_form_load_def handle_tenant_submit_def asks_Await Let_def
      split: option.splits sum.splits intro!: asks_then)

interpretation tenant_form_bound: request_bound "tenant_form_handler lower tslug" "tenant_form_enabled tslug" 1
  for lower tslug
  by unfold_locales (rule tenant_form_asks)

lemma when_slug_asks: "(\<And>s. asks (f s) n) \<Longrightarrow> asks (when_slug tslug f) n"
  by (auto simp: when_slug_def split: option.splits)

lemma detail_asks: "asks (detail_handler tslug e s) 3"
  by (cases e) (auto simp: load_tenant_def load_activity_def detail_delete_def apply_pack_def show_report_def
      asks_Await Let_def split: option.splits sum.splits intro!: asks_then when_slug_asks)

interpretation detail_bound: request_bound "detail_handler tslug" detail_enabled 3 for tslug
  by unfold_locales (rule detail_asks)

lemma settings_asks: "asks (settings_handler e s) 1"
  by (auto simp: settings_handler_def settings_load_def asks_Await split: sum.splits)

interpretation settings_bound: request_bound settings_handler settings_enabled 1
  by unfold_locales (rule settings_asks)

section \<open>Analytics and the dashboard\<close>

lemma analytics_load_asks: "asks (analytics_load b rd s) 1"
  by (auto simp: analytics_load_def asks_Await split: sum.splits option.splits)

lemma analytics_asks: "asks (analytics_handler b rd ser e s) 1"
  by (cases e) (auto simp: analytics_load_asks [simplified] Let_def split: sum.splits)

interpretation analytics_bound: request_bound "analytics_handler b rd ser" analytics_enabled 1 for b rd ser
  by unfold_locales (rule analytics_asks)

lemma dash_loads_asks:
  "asks (load_kpis rd s) 1" "asks (load_series s) 1" "asks (load_attention rd s) 4"
  "asks load_recent 1" "asks (load_pass_rate s) 1"
proof -
  show "asks (load_attention rd s) 4" by (simp add: load_attention_def asks_Await Let_def)
qed (auto simp: load_kpis_def load_series_def load_recent_def load_pass_rate_def asks_Await Let_def
      split: sum.splits dash_reply.splits)

lemma first_effect_asks: "asks (first_effect rd s) 6"
  unfolding first_effect_def
  by (intro asks_Fork [of _ 1 _ 5] asks_Fork [of _ 4 _ 1] dash_loads_asks) simp_all

lemma dash_asks: "asks (dash_handler rd e s) 8"
proof (cases e)
  case DMount
  show ?thesis unfolding DMount dash_handler.simps
    by (intro asks_Fork [of _ 6 _ 2] asks_Fork [of _ 1 _ 1] first_effect_asks dash_loads_asks) simp_all
next
  case (DRange v)
  have "asks (Fork (first_effect rd t) (load_series t)) 8" for t
    by (intro asks_Fork [of _ 6 _ 1] first_effect_asks dash_loads_asks) simp
  then show ?thesis using DRange by (simp add: Let_def)
next
  case (DWorkspace w)
  have "asks (Fork (first_effect rd t) (Fork (load_series t) (load_pass_rate t))) 8" for t
    by (intro asks_Fork [of _ 6 _ 2] asks_Fork [of _ 1 _ 1] first_effect_asks dash_loads_asks) simp_all
  then show ?thesis using DWorkspace by (simp add: Let_def)
next
  case (DMetric m)
  then show ?thesis using asks_mono [OF dash_loads_asks(2), of 8 s] by simp
qed simp

interpretation dash_bound: request_bound "dash_handler rd" dash_enabled 8 for rd
  by unfold_locales (rule dash_asks)

section \<open>Every page comes to rest\<close>

text \<open>Every request has an answer; those of the dashboard's four figures fail for one reason only.\<close>

lemma one_error: "\<exists>r. \<forall>e. Inl e = x \<longrightarrow> r = Inl e" "\<exists>r. \<forall>e. x = Inl e \<longrightarrow> r = Inl e"
  by (cases x; auto)+

lemma some_answer:
  "\<exists>r. session_adm q1 r" "\<exists>r. budgets_adm b q2 r" "\<exists>r. routing_adm b q3 r" "\<exists>r. keys_adm b q4 r"
  "\<exists>r. sessions_adm q5 r" "\<exists>r. conv_adm q6 r" "\<exists>r. tenant_form_adm b q7 r" "\<exists>r. detail_adm b q8 r"
  "\<exists>r. settings_adm q9 r"
proof -
  show "\<exists>r. session_adm q1 r" by (rule exI [of _ NetFail]) (simp add: session_adm_def login_result_def)
  show "\<exists>r. sessions_adm q5 r" by (rule exI [of _ "Inl fetch_failed"]) (simp add: sessions_adm_def)
  show "\<exists>r. budgets_adm b q2 r" by (cases q2) (auto simp: budgets_adm_def budgets_http_def one_error)
  show "\<exists>r. routing_adm b q3 r"
    by (cases q3) (auto simp: routing_adm_def routing_http_def one_error split: routing_target.splits crud_payload.splits)
  show "\<exists>r. keys_adm b q4 r" by (cases q4) (auto simp: keys_adm_def keys_http_def one_error)
  show "\<exists>r. conv_adm q6 r" by (cases q6) (auto simp: conv_adm_def one_error)
  show "\<exists>r. tenant_form_adm b q7 r" by (auto simp: tenant_form_adm_def one_error)
  show "\<exists>r. detail_adm b q8 r" by (auto simp: detail_adm_def one_error)
  show "\<exists>r. settings_adm q9 r" by (simp add: settings_adm_def)
qed

lemma dash_http_error: "Inl e \<in> set (dash_http b q) \<Longrightarrow> e = UriErr"
  by (cases q) (auto simp: get_analytics_tokens_def get_analytics_cost_def get_analytics_series_def
      list_budgets_by_tenant_def analytics_url_def with_tenant_def with_segment_def Let_def
      split: if_splits option.splits)

lemma some_dash_answer: "\<exists>r. dash_adm b q r"
  by (rule exI [of _ "DFail UriErr"]) (auto simp: dash_adm_def dest: dash_http_error)


text \<open>The first event of the dashboard makes all eight, its alerts being loaded one after the other.\<close>

lemma first_workspace: "db_workspace (dashboard_init None) = []"
  by (simp add: dashboard_init_def)

lemma dash_morning:
  "\<exists>m. do_moves (dash_handler read_iso) dash_enabled (dash_adm b)
     [Fire DMount, Answer 1 (GotBudgets []), Answer 1 (GotProviders []), Answer 1 (GotKeys 0 [])]
     (mount (dashboard_init None)) = Some m \<and> length (tasks m) = 5"
  by (simp add: mount_def resume_def first_effect_def first_load load_attention_def load_recent_def load_series_def
      load_pass_rate_def dash_adm_def list_budgets_def first_workspace)


end
