(* ===== verification/Loading.thy ===== *)
theory Loading
  imports RequestBounds
begin

text \<open>
  Loading flags. A page shows a placeholder while a flag of its state is set; the flag is set before a
  request and cleared by the handler that sent it. The contract \<open>loading_flag\<close>: a handler sets
  the flag only when it leaves a request whose answer, whatever it is, leads to clearing it again. Then no
  page loads forever. Unlike a busy flag, loads may overlap.
\<close>

text \<open>An \<open>act\<close> that clears the flag: at its next await or end it is cleared, or a pending
  continuation clears it. One that is safe leaves the flag unset unless it was set or such a continuation
  is pending. Forked calls are outside the contract.\<close>

primrec flag_fate :: "('s, 'o, 'q, 'r) act \<Rightarrow> ('s \<Rightarrow> bool) \<Rightarrow> bool \<Rightarrow> ('s \<Rightarrow> 's) \<Rightarrow> bool" where
  "flag_fate Done fl clr f \<longleftrightarrow> (\<forall>s. fl (f s) \<longrightarrow> \<not> clr \<and> fl s)"
| "flag_fate (Upd g a) fl clr f \<longleftrightarrow> flag_fate a fl clr (\<lambda>s. g (f s))"
| "flag_fate (Emit x a) fl clr f \<longleftrightarrow> flag_fate a fl clr f"
| "flag_fate (Await q k) fl clr f \<longleftrightarrow> (\<forall>r. flag_fate (k r) fl True (\<lambda>s. s)) \<or>
     (\<forall>s. fl (f s) \<longrightarrow> \<not> clr \<and> fl s) \<and> (\<forall>r. flag_fate (k r) fl False (\<lambda>s. s))"
| "flag_fate (Fork c a) fl clr f \<longleftrightarrow> False"

abbreviation clears :: "('s, 'o, 'q, 'r) act \<Rightarrow> ('s \<Rightarrow> bool) \<Rightarrow> bool" where
  "clears a fl \<equiv> flag_fate a fl True (\<lambda>s. s)"

abbreviation safe :: "('s, 'o, 'q, 'r) act \<Rightarrow> ('s \<Rightarrow> bool) \<Rightarrow> bool" where
  "safe a fl \<equiv> flag_fate a fl False (\<lambda>s. s)"

definition task_clears :: "('s \<Rightarrow> bool) \<Rightarrow> ('s, 'o, 'q, 'r) task \<Rightarrow> bool" where
  "task_clears fl t \<longleftrightarrow> (\<forall>r. clears (snd t r) fl)"

definition task_safe :: "('s \<Rightarrow> bool) \<Rightarrow> ('s, 'o, 'q, 'r) task \<Rightarrow> bool" where
  "task_safe fl t \<longleftrightarrow> (\<forall>r. safe (snd t r) fl)"

lemma flag_advance:
  "flag_fate a fl clr f \<Longrightarrow> advance a (f s) = (s', os, ts) \<Longrightarrow>
   (\<forall>t \<in> set ts. task_clears fl t \<or> task_safe fl t) \<and>
   (fl s' \<longrightarrow> \<not> clr \<and> fl s \<or> (\<exists>t \<in> set ts. task_clears fl t))"
proof (induction a arbitrary: f s s' os ts)
  case (Await q k)
  then show ?case by (auto simp: task_clears_def task_safe_def)
qed (auto split: prod.splits)

section \<open>Contract: a loading flag\<close>

definition guarded :: "('s \<Rightarrow> bool) \<Rightarrow> ('s, 'o, 'q, 'r) sys \<Rightarrow> bool" where
  "guarded fl m \<longleftrightarrow> (\<forall>t \<in> set (tasks m). task_clears fl t \<or> task_safe fl t) \<and>
     (fl (ui m) \<longrightarrow> (\<exists>t \<in> set (tasks m). task_clears fl t))"

text \<open>The page after its first effect.\<close>

definition effect_mount :: "('e \<Rightarrow> 's \<Rightarrow> ('s, 'o, 'q, 'r) act) \<Rightarrow> 'e \<Rightarrow> 's \<Rightarrow> ('s, 'o, 'q, 'r) sys" where
  "effect_mount handler e0 init = resume (handler e0 init) (mount init) [] []"

definition stops_loading :: "('e \<Rightarrow> 's \<Rightarrow> ('s, 'o, 'q, 'r) act) \<Rightarrow> ('e \<Rightarrow> 's \<Rightarrow> bool) \<Rightarrow> ('q \<Rightarrow> 'r \<Rightarrow> bool) \<Rightarrow>
    ('s, 'o, 'q, 'r) sys \<Rightarrow> ('s \<Rightarrow> bool) \<Rightarrow> bool" where
  "stops_loading handler enabled adm m0 fl \<longleftrightarrow> (\<forall>m. sys_reach handler enabled adm m0 m \<longrightarrow>
     (fl (ui m) \<longrightarrow> tasks m \<noteq> []) \<and> (\<exists>m' k. sys_run handler enabled adm m m' 0 k \<and> tasks m' = [] \<and> \<not> fl (ui m')))"

locale loading_flag = request_bound handler enabled c
  for handler :: "'e \<Rightarrow> 's \<Rightarrow> ('s, 'o, 'q, 'r) act" and enabled :: "'e \<Rightarrow> 's \<Rightarrow> bool" and c :: nat +
  fixes e0 :: 'e and init :: 's and fl :: "'s \<Rightarrow> bool"
  assumes first_enabled: "enabled e0 init"
    and first_clears: "fl init \<Longrightarrow> clears (handler e0 init) fl"
    and handler_safe: "enabled e s \<Longrightarrow> safe (handler e s) fl"
begin

lemma guarded_first: "guarded fl (effect_mount handler e0 init)"
proof -
  obtain s' os ts where adv: "advance (handler e0 init) init = (s', os, ts)" by (cases "advance (handler e0 init) init")
  show ?thesis
  proof (cases "fl init")
    case True
    from flag_advance [OF first_clears [OF True], of init s' os ts] adv show ?thesis
      by (auto simp: guarded_def effect_mount_def resume_def mount_def)
  next
    case False
    from flag_advance [OF handler_safe [OF first_enabled], of init s' os ts] adv False show ?thesis
      by (auto simp: guarded_def effect_mount_def resume_def mount_def)
  qed
qed

lemma guarded_step: "sys_step handler enabled adm m m' \<Longrightarrow> guarded fl m \<Longrightarrow> guarded fl m'"
proof (induction rule: sys_step.induct)
  case (fire e m)
  obtain s' os ts where adv: "advance (handler e (ui m)) (ui m) = (s', os, ts)" by (cases "advance (handler e (ui m)) (ui m)")
  from flag_advance [OF handler_safe [OF fire.hyps], of "ui m" s' os ts] adv fire.prems show ?case
    by (auto simp: guarded_def resume_def)
next
  case (reply m bs q k as r)
  obtain s' os ts where adv: "advance (k r) (ui m) = (s', os, ts)" by (cases "advance (k r) (ui m)")
  show ?case
  proof (cases "task_clears fl (q, k)")
    case True
    then have "clears (k r) fl" by (simp add: task_clears_def)
    from flag_advance [OF this, of "ui m" s' os ts] adv reply show ?thesis by (auto simp: guarded_def resume_def)
  next
    case False
    then have "safe (k r) fl" using reply by (auto simp: guarded_def task_safe_def)
    from flag_advance [OF this, of "ui m" s' os ts] adv reply False show ?thesis by (auto simp: guarded_def resume_def)
  qed
qed

lemma reach_guarded: "sys_reach handler enabled adm (effect_mount handler e0 init) m \<Longrightarrow> guarded fl m"
  by (induction rule: sys_reach.induct) (simp_all add: guarded_first guarded_step)

text \<open>A page that loads has an answer pending, and the answers alone bring its loading to an end.\<close>

lemma loading_pending:
  "sys_reach handler enabled adm (effect_mount handler e0 init) m \<Longrightarrow> fl (ui m) \<Longrightarrow> tasks m \<noteq> []"
  using reach_guarded by (fastforce simp: guarded_def)

lemma loading_ends:
  assumes r: "sys_reach handler enabled adm (effect_mount handler e0 init) m" and answer: "\<And>q. \<exists>r. adm q r"
  shows "\<exists>m' k. sys_run handler enabled adm m m' 0 k \<and> tasks m' = [] \<and> \<not> fl (ui m')"
proof -
  have "sys_run handler enabled adm (mount init) (effect_mount handler e0 init) 1 0"
    using sys_run.fired [OF sys_run.idle, of enabled e0 "mount init" handler adm] first_enabled
    by (simp add: effect_mount_def mount_def)
  moreover obtain f n where fn: "sys_run handler enabled adm (effect_mount handler e0 init) m f n" using sys_reach_run [OF r] by blast
  ultimately have "sys_run handler enabled adm (mount init) m (1 + f) (0 + n)" by (rule sys_run_trans)
  then obtain m' k where m': "sys_run handler enabled adm m m' 0 k" "tasks m' = []" using answers_run_out [of adm, OF _ answer] by blast
  have "sys_reach handler enabled adm (effect_mount handler e0 init) m'"
    using sys_run_trans [OF fn m'(1)] by (rule sys_run_reach)
  then show ?thesis using loading_pending m' by blast
qed

lemma loading_stops:
  "(\<And>q. \<exists>r. adm q r) \<Longrightarrow> stops_loading handler enabled adm (effect_mount handler e0 init) fl"
  unfolding stops_loading_def using loading_pending loading_ends [of adm] by blast

end

section \<open>The pages\<close>

interpretation session_loading: loading_flag session_handler session_enabled 1 AppMount "app_init store ok" app_checking
  for store ok
proof unfold_locales
  show "session_enabled AppMount (app_init store ok)" by simp
  show "clears (session_handler AppMount (app_init store ok)) app_checking"
    by (simp add: verify_on_mount_def split: option.split outcome.split)
  show "safe (session_handler e s) app_checking" for e s
    by (cases e) (simp_all add: verify_on_mount_def handle_submit_def handle_logout_def store_token_def on_login_def
        split: option.split outcome.split sum.split)
qed

interpretation keys_loading: loading_flag keys_handler keys_enabled 2 "KMount create" keys_init kp_loading for create
proof unfold_locales
  show "keys_enabled (KMount create) keys_init" by simp
  show "clears (keys_handler (KMount create) keys_init) kp_loading"
    by (simp add: keys_act_defs split: sum.split)
  show "safe (keys_handler e s) kp_loading" for e s
    by (cases e) (auto simp: keys_act_defs split: option.split sum.split)
qed

interpretation budgets_loading: loading_flag budgets_handler budgets_enabled 2 BMount budgets_init bp_loading
proof unfold_locales
  show "budgets_enabled BMount budgets_init" by simp
  show "clears (budgets_handler BMount budgets_init) bp_loading"
    by (simp add: budgets_act_defs split: sum.split)
  show "safe (budgets_handler e s) bp_loading" for e s
    by (cases e) (auto simp: budgets_act_defs split: option.split sum.split)
qed

interpretation routing_loading: loading_flag "routing_handler upper" routing_enabled 2 RMount routing_init rp_loading for upper
proof unfold_locales
  show "routing_enabled RMount routing_init" by simp
  show "clears (routing_handler upper RMount routing_init) rp_loading"
    by (simp add: routing_reload_def routing_loaded_def split: sum.split)
  show "safe (routing_handler upper e s) rp_loading" for e s
    by (cases e) (auto simp: routing_reload_def routing_do_delete_def routing_on_saved_def routing_loaded_def remount_def close_crud_def
        split: option.split sum.split)
qed

interpretation tenant_form_loading: loading_flag "tenant_form_handler lower tslug" "tenant_form_enabled tslug" 1
    TFMount "tenant_form_init tslug" tf_loading for lower tslug
proof unfold_locales
  show "tenant_form_enabled tslug TFMount (tenant_form_init tslug)" by simp
  show "clears (tenant_form_handler lower tslug TFMount (tenant_form_init tslug)) tf_loading"
    if "tf_loading (tenant_form_init tslug)"
    using that by (auto simp: tenant_form_init_def tenant_form_load_def split: sum.split)
  show "safe (tenant_form_handler lower tslug e s) tf_loading" for e s
    by (cases e) (auto simp: tenant_form_load_def handle_tenant_submit_def Let_def split: option.split sum.split)
qed

interpretation detail_loading: loading_flag "detail_handler (Some (x # xs))" detail_enabled 3 TDMount tenant_detail_init td_loading
  for x xs
proof unfold_locales
  show "detail_enabled TDMount tenant_detail_init" by simp
  show "clears (detail_handler (Some (x # xs)) TDMount tenant_detail_init) td_loading"
    by (simp add: when_slug_def load_tenant_def split: sum.split)
  show "safe (detail_handler (Some (x # xs)) e s) td_loading" for e s
    by (cases e) (auto simp: when_slug_def load_tenant_def load_activity_def detail_delete_def apply_pack_def show_report_def
        Let_def split: option.split sum.split)
qed

interpretation settings_loading: loading_flag settings_handler settings_enabled 1 StMount settings_init st_loading
proof unfold_locales
  show "settings_enabled StMount settings_init" by simp
  show "clears (settings_handler StMount settings_init) st_loading"
    by (simp add: settings_handler_def settings_load_def split: sum.split)
  show "safe (settings_handler e s) st_loading" for e s
    by (simp add: settings_handler_def settings_load_def split: sum.split)
qed

text \<open>A page that threw while rendering is gone, with its placeholder.\<close>

definition analytics_waits :: "analytics_page \<Rightarrow> bool" where
  "analytics_waits s \<longleftrightarrow> an_loading s \<and> an_thrown s = None"

lemma analytics_load_clears: "flag_fate (analytics_load b rd t) analytics_waits clr f"
  by (auto simp: analytics_load_def analytics_waits_def split: sum.split option.split)

interpretation analytics_loading: loading_flag "analytics_handler b rd ser" analytics_enabled 1 AnMount "analytics_init rs ws" analytics_waits
  for b rd ser rs ws
proof unfold_locales
  show "analytics_enabled AnMount (analytics_init rs ws)" by (simp add: analytics_enabled_def analytics_init_def)
  show "clears (analytics_handler b rd ser AnMount (analytics_init rs ws)) analytics_waits" by (simp add: analytics_load_clears)
  show "safe (analytics_handler b rd ser e s) analytics_waits" for e s
    by (cases e) (auto simp: Let_def analytics_load_clears analytics_waits_def split: sum.split)
qed



end
