(* ===== verification/Shell.thy ===== *)
theory Shell
  imports Navigation Widgets TenantDetail
begin

text \<open>
  ui/src/App.tsx below the login gate: every route renders its page inside an error boundary keyed by
  the path and a suspense that waits for the page's module, which is loaded on first use. React keeps what
  a lazy module settled to, a rejection too. Which pattern of the route table a path matches is the
  router's (the argument match); a path without one is redirected to '/'. At the end, two small parts of the
  shell: the tag of a chip and the closing of the dictionary dialog.
\<close>

text \<open>The pages whose modules App imports lazily.\<close>

definition lazy_pages :: "jsstring list" where
  "lazy_pages = map js [''TenantList'', ''TenantDetail'', ''TenantForm'', ''Dashboard'', ''Analytics'', ''Sessions'',
     ''Conversations'', ''Routing'', ''Keys'', ''Budgets'', ''AuditLog'', ''Settings'', ''Swagger'']"

record shell =
  sh_path :: jsstring
  sh_boundary :: error_boundary
  sh_modules :: "(jsstring \<times> (jsstring + unit)) list"   \<comment> \<open>a module that settled: its error, or loaded\<close>

definition shell_init :: "jsstring \<Rightarrow> shell" where
  "shell_init p = \<lparr>sh_path = p, sh_boundary = boundary_init, sh_modules = []\<rparr>"

type_synonym router = "jsstring \<Rightarrow> jsstring option"

definition landing :: "router \<Rightarrow> jsstring \<Rightarrow> jsstring" where
  "landing match p = (if match p = None then js ''/'' else p)"

definition page_at :: "router \<Rightarrow> jsstring \<Rightarrow> jsstring option" where
  "page_at match p = (case match p of None \<Rightarrow> None | Some pat \<Rightarrow> map_of route_table pat)"

datatype page_view = PageError jsstring | PageSpinner jsstring | PageShown jsstring | NoPage

text \<open>PageBoundary: the boundary's message, or the page, or the spinner while its module loads.\<close>

definition page_boundary :: "router \<Rightarrow> shell \<Rightarrow> page_view" where
  "page_boundary match s = (case boundary_message (sh_boundary s) of Some e \<Rightarrow> PageError e
     | None \<Rightarrow> (case page_at match (sh_path s) of None \<Rightarrow> NoPage
        | Some p \<Rightarrow> if map_of (sh_modules s) p = Some (Inr ()) then PageShown p else PageSpinner (spinner (Some (js ''Loading...'')))))"

text \<open>A render with a module that failed throws its error again.\<close>

definition rerender :: "router \<Rightarrow> shell \<Rightarrow> shell" where
  "rerender match s = (if has_error (sh_boundary s) then s else
     (case page_at match (sh_path s) of None \<Rightarrow> s
      | Some p \<Rightarrow> (case map_of (sh_modules s) p of
            Some (Inl e) \<Rightarrow> s\<lparr>sh_boundary := boundary_step (ChildThrows e) (sh_boundary s)\<rparr> | _ \<Rightarrow> s)))"

datatype shell_event =
    ShGo jsstring
  | ShModule jsstring "jsstring + unit"
  | ShThrows jsstring
  | ShRetry

fun shell_enabled :: "router \<Rightarrow> shell_event \<Rightarrow> shell \<Rightarrow> bool" where
  "shell_enabled match (ShGo p) s \<longleftrightarrow> True"
| "shell_enabled match (ShModule p r) s \<longleftrightarrow> p \<in> set lazy_pages \<and> map_of (sh_modules s) p = None"
| "shell_enabled match (ShThrows e) s \<longleftrightarrow> (case page_boundary match s of PageShown p \<Rightarrow> True | _ \<Rightarrow> False)"
| "shell_enabled match ShRetry s \<longleftrightarrow> (case page_boundary match s of PageError e \<Rightarrow> True | _ \<Rightarrow> False)"

fun shell_handle :: "router \<Rightarrow> shell_event \<Rightarrow> shell \<Rightarrow> shell" where
  "shell_handle match (ShGo p) s = (let q = landing match p in
     s\<lparr>sh_path := q, sh_boundary := (if q = sh_path s then sh_boundary s else boundary_step ResetKeyChanged (sh_boundary s))\<rparr>)"
| "shell_handle match (ShModule p r) s = s\<lparr>sh_modules := (p, r) # sh_modules s\<rparr>"
| "shell_handle match (ShThrows e) s = s\<lparr>sh_boundary := boundary_step (ChildThrows e) (sh_boundary s)\<rparr>"
| "shell_handle match ShRetry s = s\<lparr>sh_boundary := boundary_step TryAgain (sh_boundary s)\<rparr>"

definition shell_step :: "router \<Rightarrow> shell_event \<Rightarrow> shell \<Rightarrow> shell" where
  "shell_step match e s = rerender match (shell_handle match e s)"

inductive shell_reach :: "router \<Rightarrow> jsstring \<Rightarrow> shell \<Rightarrow> bool" for match p where
  fresh: "shell_reach match p (shell_init (landing match p))"
| next_event: "shell_reach match p s \<Longrightarrow> shell_enabled match e s \<Longrightarrow> shell_reach match p (shell_step match e s)"

section \<open>The router\<close>

text \<open>What the shell relies on: the router answers with patterns of the route table, and '/' has one.\<close>

definition proper_router :: "router \<Rightarrow> bool" where
  "proper_router match \<longleftrightarrow> match (js ''/'') \<noteq> None \<and> (\<forall>p pat. match p = Some pat \<longrightarrow> routed pat)"

text \<open>A router that knows the literal paths only.\<close>

definition literal_router :: router where
  "literal_router p = (if routed p then Some p else None)"

lemma literal_router_proper: "proper_router literal_router"
  by (simp add: proper_router_def literal_router_def) code_simp

lemma routed_page: "routed pat \<Longrightarrow> \<exists>p. map_of route_table pat = Some p \<and> p \<in> set lazy_pages"
proof -
  have "\<forall>x \<in> set route_table. snd x \<in> set lazy_pages" by code_simp
  moreover assume "routed pat"
  then obtain p where "map_of route_table pat = Some p" by (auto simp: routed_def dest: weak_map_of_SomeI)
  ultimately show ?thesis by (force dest: map_of_SomeD)
qed

lemma page_at_landing: "proper_router match \<Longrightarrow> \<exists>p. page_at match (landing match q) = Some p \<and> p \<in> set lazy_pages"
  using routed_page by (force simp: page_at_def landing_def proper_router_def split: option.splits)

section \<open>What the shell shows\<close>

text \<open>An invariant: the path has a page, a failed page in view is an error, and an error has a message.\<close>

definition shell_ok :: "router \<Rightarrow> shell \<Rightarrow> bool" where
  "shell_ok match s \<longleftrightarrow> (\<exists>p. page_at match (sh_path s) = Some p \<and> p \<in> set lazy_pages \<and>
     (\<forall>e. map_of (sh_modules s) p = Some (Inl e) \<longrightarrow> has_error (sh_boundary s)))"

lemma rerender_path [simp]: "sh_path (rerender match s) = sh_path s" "sh_modules (rerender match s) = sh_modules s"
  by (auto simp: rerender_def split: option.split sum.split)

lemma rerender_ok: "page_at match (sh_path s) = Some p \<Longrightarrow> p \<in> set lazy_pages \<Longrightarrow> shell_ok match (rerender match s)"
  by (auto simp: shell_ok_def) (auto simp: rerender_def)

lemma handle_path: "sh_path (shell_handle match e s) = sh_path s \<or> (\<exists>q. sh_path (shell_handle match e s) = landing match q)"
  by (cases e) (auto simp: Let_def)

lemma shell_reach_ok: "shell_reach match p s \<Longrightarrow> proper_router match \<Longrightarrow> shell_ok match s"
proof (induction rule: shell_reach.induct)
  case fresh
  then show ?case using page_at_landing [of match p] by (auto simp: shell_ok_def shell_init_def)
next
  case (next_event s e)
  then obtain q where "page_at match (sh_path s) = Some q" "q \<in> set lazy_pages" by (auto simp: shell_ok_def)
  then have "\<exists>q. page_at match (sh_path (shell_handle match e s)) = Some q \<and> q \<in> set lazy_pages"
    using handle_path [of match e s] page_at_landing [OF next_event.prems] by metis
  then show ?case unfolding shell_step_def using rerender_ok by blast
qed

text \<open>C13. Going to another page always leaves the error of the last one behind: in every reachable state the
  path has a page, and after navigation to a path that is not the current one the screen is that page, or
  the spinner while its module loads, unless that module failed before.\<close>

theorem navigation_leaves_errors:
  assumes "proper_router match" "shell_reach match p s" "landing match q \<noteq> sh_path s"
  shows "\<exists>pg. page_at match (landing match q) = Some pg \<and> pg \<in> set lazy_pages \<and>
    page_boundary match (shell_step match (ShGo q) s) =
      (case map_of (sh_modules s) pg of None \<Rightarrow> PageSpinner (js ''Loading...'') | Some (Inr _) \<Rightarrow> PageShown pg
       | Some (Inl e) \<Rightarrow> PageError (if e = [] then js ''An unexpected error occurred.'' else e))"
proof -
  obtain pg where pg: "page_at match (landing match q) = Some pg" "pg \<in> set lazy_pages"
    using page_at_landing [OF assms(1)] by blast
  let ?t = "shell_handle match (ShGo q) s"
  have t: "sh_path ?t = landing match q" "sh_modules ?t = sh_modules s" "\<not> has_error (sh_boundary ?t)"
    using assms(3) by (simp_all add: Let_def boundary_init_def)
  then show ?thesis using pg
    by (intro exI [of _ pg]) (auto simp: shell_step_def rerender_def page_boundary_def boundary_message_def spinner_def
        str_or_def nullish_def split: option.split sum.split)
qed

theorem navigation_leaves_errors_witness:
  "page_boundary literal_router (shell_step literal_router (ShGo (js ''/keys'')) (shell_init (js ''/''))) = PageSpinner (js ''Loading...'')"
proof -
  have l: "landing literal_router (js ''/'') = js ''/''" "landing literal_router (js ''/keys'') = js ''/keys''" by code_simp+
  have ne: "js ''/keys'' \<noteq> js ''/''" by (simp add: js_def)
  have "shell_reach literal_router (js ''/'') (shell_init (js ''/''))" using shell_reach.fresh [of literal_router "js ''/''"] l by simp
  from navigation_leaves_errors [OF literal_router_proper this, of "js ''/keys''"] show ?thesis
    using ne by (auto simp: shell_init_def l)
qed

lemma module_kept:
  "shell_enabled match e s \<Longrightarrow> map_of (sh_modules s) pg = Some r \<Longrightarrow> map_of (sh_modules (shell_step match e s)) pg = Some r"
  by (cases e) (auto simp: shell_step_def Let_def)

text \<open>A module that failed to load stays failed: whenever its page is in view the screen is an error, and
  "Try again" shows the module's error again.\<close>

theorem failed_module_stays:
  assumes "proper_router match" "shell_reach match p s" "page_at match (sh_path s) = Some pg"
    and "map_of (sh_modules s) pg = Some (Inl e)"
  shows "(\<exists>msg. page_boundary match s = PageError msg) \<and>
    page_boundary match (shell_step match ShRetry s) = PageError (if e = [] then js ''An unexpected error occurred.'' else e) \<and>
    (\<forall>ev. shell_enabled match ev s \<longrightarrow> map_of (sh_modules (shell_step match ev s)) pg = Some (Inl e))"
proof (intro conjI allI impI)
  have "has_error (sh_boundary s)" using shell_reach_ok [OF assms(2,1)] assms(3,4) by (auto simp: shell_ok_def)
  then show "\<exists>msg. page_boundary match s = PageError msg" by (simp add: page_boundary_def boundary_message_def)
  show "page_boundary match (shell_step match ShRetry s) = PageError (if e = [] then js ''An unexpected error occurred.'' else e)"
    using assms(3,4) by (simp add: shell_step_def rerender_def page_boundary_def boundary_message_def boundary_init_def
        str_or_def nullish_def)
  show "map_of (sh_modules (shell_step match ev s)) pg = Some (Inl e)" if "shell_enabled match ev s" for ev
    by (rule module_kept [OF that assms(4)])
qed

theorem failed_module_stays_witness:
  "\<exists>s. shell_reach literal_router (js ''/'') s \<and> map_of (sh_modules s) (js ''Dashboard'') = Some (Inl (js ''x'')) \<and>
     page_boundary literal_router (shell_step literal_router ShRetry s) = PageError (js ''x'')"
proof -
  let ?s = "shell_step literal_router (ShModule (js ''Dashboard'') (Inl (js ''x''))) (shell_init (js ''/''))"
  have l: "landing literal_router (js ''/'') = js ''/''" by code_simp
  have f: "shell_reach literal_router (js ''/'') (shell_init (js ''/''))" using shell_reach.fresh [of literal_router "js ''/''"] l by simp
  have en: "shell_enabled literal_router (ShModule (js ''Dashboard'') (Inl (js ''x''))) (shell_init (js ''/''))"
    by (simp add: lazy_pages_def shell_init_def)
  have r: "shell_reach literal_router (js ''/'') ?s" by (rule shell_reach.next_event [OF f en])
  have m: "map_of (sh_modules ?s) (js ''Dashboard'') = Some (Inl (js ''x''))" by (simp add: shell_step_def)
  have "page_at literal_router (js ''/'') = Some (js ''Dashboard'')" by code_simp
  then have p: "page_at literal_router (sh_path ?s) = Some (js ''Dashboard'')" by (simp add: shell_step_def shell_init_def)
  from failed_module_stays [OF literal_router_proper r p m] have
    "page_boundary literal_router (shell_step literal_router ShRetry ?s) = PageError (js ''x'')" by (simp add: js_def)
  with r m show ?thesis by blast
qed

section \<open>Small parts\<close>

text \<open>ChipTag: its text, and the label of its button where it can be removed.\<close>

definition chip_tag :: "bool \<Rightarrow> jsstring \<Rightarrow> jsstring \<times> jsstring option" where
  "chip_tag removable t = (t, if removable then Some (js ''Remove '' @ t) else None)"

text \<open>DictionaryModal closes on Escape, on a click that hits the backdrop itself, and on its button.\<close>

datatype dict_modal_event = DmKey jsstring | DmClick bool | DmButton

definition dict_modal_closes :: "dict_modal_event \<Rightarrow> bool" where
  "dict_modal_closes e = (case e of DmKey k \<Rightarrow> k = js ''Escape'' | DmClick on_backdrop \<Rightarrow> on_backdrop | DmButton \<Rightarrow> True)"

definition dict_modal_step :: "dict_modal_event \<Rightarrow> tenant_detail \<Rightarrow> tenant_detail" where
  "dict_modal_step e s = (if dict_modal_closes e then s\<lparr>td_dict := None\<rparr> else s)"

end
