(* ===== verification/Spec2Isabelle.thy ===== *)
theory Spec2Isabelle
  imports ApiFacts Session Sorting Hooks Format Base64 Widgets Editors Keys Budgets Routing
    Conversations Sessions TenantForm TenantDetail Navigation Analytics Dashboard
    Chart AuditLog TenantList Settings EditorStates ListScreens Loading Shell
begin

text \<open>
  A verification development for the MaskChain operator console, the TypeScript and React program
  under ui/src. The console is a single-page application: api/ turns calls into HTTP requests of the
  gateway's admin API and classifies the answers, hooks/ holds the stateful hooks, utils/ the
  formatters, components/ the shared controls, and pages/ one component per page, each with its own
  useState cells and async handlers.

  How the program is modelled. A string is a list of 16-bit units (Prelude.jsstring), a number is a
  rational rounded to binary64 or one of NaN and the infinities (JsNumber.jsnum), null and undefined
  are None, a thrown error is the Inl of a sum. A page is a record of its cells. A handler is a value
  of Async.act: updates of the cells, outputs (toasts, navigation, the clipboard) and awaited
  requests with their continuations (and calls of async functions nobody awaits, Async.Fork). A
  mounted page (Async.sys) fires the events its user interface offers in its current state and answers its pending requests one at a time, in any order and
  with any answer the documented behaviour of the gateway and the browser allows; sys_reach is what
  it can reach. What stands between two awaits is one atomic step, as on the JavaScript event loop,
  and a value read before an await is that of the render that created the handler. One awaited query
  stands for the requests of one Promise.all.

  The theories, from the bottom up.
  \<^item> Prelude: strings (trim, split, join, includes), index-wise list edits, the operators ?? and ||.
  \<^item> JsNumber, NumText: binary64 arithmetic with its rounding, Number, parseFloat, parseInt, toString
    and toFixed as ECMAScript defines them. Unicode, Base64: UTF-16 and UTF-8, atob (utils/base64.ts).
    Dates: the calendar, local fields, toISOString. Format: utils/format.ts.
  \<^item> Async: handlers, mounted pages, and two contracts as locales: page_invariant (an invariant of the
    cells holds in every reachable state) and busy_flag (an exclusive request is never in flight
    twice). Hooks: useAsyncData with its cancelled flags, useTheme, useCopy, the toasts.
    Sorting: useSort, sortRows and Array.prototype.sort (locale consistent_comparator).
  \<^item> Client, Urls, Api: apiFetch and its classification, encodeURIComponent and URLSearchParams (locale
    segment_codec), every request and answer of api/*.ts. ApiFacts: what the URLs read back as.
    Session: App, Login, ProtectedRoute and the token with its copy in localStorage.
  \<^item> Widgets: the shared controls, from the badge and the select to the toggle, the pager and the
    segmented control. Editors, EditorStates: the inline list editors (locale indexed_editor) and the
    dictionary and preprocessor editors with the drafts of their rows, under React's positional keys
    (locale keyed_editor).
    Ranges: the time range picker and the persisted range. Windows: the bounds in milliseconds of a
    range and the window before it. Grouping: rows summed by a key, as the pages do with an object.
  \<^item> PageBase, AsyncPage: what pages share (outputs, the confirmation dialog, comma separated inputs,
    data read through useAsyncData). Ratio: percentages on binary64.
  \<^item> Keys, Budgets, Routing, Sessions, Conversations, TenantForm, TenantDetail, TenantList, AuditLog,
    Settings, Analytics, Dashboard: one page each, as its state, its derived rows and texts, its
    validation, its handlers and what they guarantee. Navigation: the layout with its workspace menu,
    the routes, and the command palette. Shell: the pages under App's routes, each in its error boundary
    and with its lazily loaded module. Chart: the geometry and texts of TimeSeriesChart.
  \<^item> Dialogs, PageViews, ListScreens: the create and edit dialogs as their labelled inputs (locale
    controlled_dialog), and the keys, budgets, routing, sessions and conversations pages and the time
    range picker as they stand on the screen, with the buttons they offer.
  \<^item> Quiescence, RequestBounds: how many requests an event can lead to (locale request_bound), and the
    bound of every page's handlers. Loading: the placeholders of the pages (locale loading_flag, which
    extends request_bound).
  \<^item> This theory: the property that spans the pages.

  What the lemmas show. For the API layer: which answers resolve and which reject, and that every
  URL reads back as the data it was made from. For the session: the invariant of the login state and
  that a session survives a reload. For the hooks: useAsyncData never shows an answer of a superseded
  run. For the formatters: what is printed, exactly, for all doubles in the stated ranges. For the
  pages: the rows on display are what the filters select, the dialogs validate what they send, each
  handler's outcome on every branch, at most one exclusive request is in flight, every page comes to
  rest once its requests are answered and none loads forever, the inputs of a dialog show what was typed
  in them, and on the pages over a table a button is on screen exactly when its event is enabled. For the
  layout: every link but one (Compliance) leads to a route, and the palette opens what it highlights. For the chart: every point lies inside the plot. Several theorems
  state behaviour that is not what the code means to do; the manifest lists them as findings.

  What is a parameter. Things outside the program or given by a table of the platform: the
  case mappings toLowerCase and toUpperCase, the locale's formatters, the reader of date strings, the
  time zone, JSON.parse and JSON.stringify of stored text, the router's matching of paths and links, and the
  sorting algorithm of the engine where a comparator is inconsistent. What a theorem needs of them is
  a named hypothesis. The gateway is a parameter everywhere: its answers are arbitrary, except that a successful login
  carries a token (Session.session_adm) and a request whose URL cannot be built rejects with that error.

  Bounds and fuel. No definition needs fuel: recursion is structural or has a measure (the digits of
  an integer, the groups of the slug pattern).

  Not modelled: markup, styles and focus handling; React's scheduling beyond atomic steps and batched
  updates; the registration of global listeners beyond the events they lead to; main.tsx and the
  re-exporting index files; the Swagger page, which mounts a third-party viewer; the Go gateway.
\<close>

section \<open>Exclusive requests across the pages\<close>

text \<open>C4. Wherever the console guards an operation with a busy flag, the operation is exclusive: on
  each of these pages at most one such request is in flight in every reachable state, whatever
  the order of clicks, Escape keys and answers, and (but for the tenant page, which navigates
  away) a busy page always has an answer pending that ends it.\<close>

theorem exclusive_requests:
  "(sys_reach keys_handler keys_enabled (keys_adm b) (mount keys_init) mk \<longrightarrow>
      in_flight is_delete mk \<le> 1 \<and> (kp_busy (ui mk) \<longrightarrow> tasks mk \<noteq> [])) \<and>
   (sys_reach budgets_handler budgets_enabled (budgets_adm b) (mount budgets_init) mb \<longrightarrow>
      in_flight is_budget_delete mb \<le> 1 \<and> (bp_busy (ui mb) \<longrightarrow> tasks mb \<noteq> [])) \<and>
   (sys_reach (routing_handler upper) routing_enabled (routing_adm b) (mount routing_init) mr \<longrightarrow>
      in_flight is_routing_delete mr \<le> 1 \<and> (rp_busy (ui mr) \<longrightarrow> tasks mr \<noteq> [])) \<and>
   (sys_reach (sessions_handler rd) (sessions_enabled rd) sessions_adm (mount (sessions_init now)) ms \<longrightarrow>
      in_flight is_close ms \<le> 1 \<and> (sp_closing (ui ms) \<longrightarrow> tasks ms \<noteq> [])) \<and>
   (sys_reach (tenant_form_handler lower tslug) (tenant_form_enabled tslug) (tenant_form_adm b)
        (mount (tenant_form_init tslug)) mf \<longrightarrow>
      in_flight is_save mf \<le> 1 \<and> (tf_submitting (ui mf) \<longrightarrow> tasks mf \<noteq> [])) \<and>
   (sys_reach (detail_handler tslug) detail_enabled (detail_adm b) (mount tenant_detail_init) md \<longrightarrow>
      in_flight is_tenant_delete md \<le> 1 \<and> (in_flight is_tenant_delete md = 1 \<longrightarrow> td_deleting (ui md)))"
  using keys_single_revoke budgets_single_delete routing_single_delete sessions_single_close
    tenant_form_single_save tenant_single_delete by blast

theorem exclusive_requests_witness:
  "\<forall>b. \<exists>mk mb mr. sys_reach keys_handler keys_enabled (keys_adm b) (mount keys_init) mk \<and> kp_busy (ui mk) \<and>
     sys_reach budgets_handler budgets_enabled (budgets_adm b) (mount budgets_init) mb \<and> bp_busy (ui mb) \<and>
     sys_reach (routing_handler id) routing_enabled (routing_adm b) (mount routing_init) mr \<and> rp_busy (ui mr) \<and>
     tasks mk \<noteq> [] \<and> tasks mb \<noteq> [] \<and> tasks mr \<noteq> [] \<and> in_flight is_delete mk \<le> 1"
proof
  fix b
  obtain mk where k: "sys_reach keys_handler keys_enabled (keys_adm b) (mount keys_init) mk" "kp_busy (ui mk)"
    using keys_busy_reachable by blast
  obtain mb where bd: "sys_reach budgets_handler budgets_enabled (budgets_adm b) (mount budgets_init) mb" "bp_busy (ui mb)"
    using budgets_busy_reachable by blast
  obtain mr where r: "sys_reach (routing_handler id) routing_enabled (routing_adm b) (mount routing_init) mr" "rp_busy (ui mr)"
    using routing_busy_reachable by blast
  note all = exclusive_requests [of b mk mb id mr]
  have "tasks mk \<noteq> []" "tasks mb \<noteq> []" "tasks mr \<noteq> []" "in_flight is_delete mk \<le> 1" using all k bd r by blast+
  with k bd r show "\<exists>mk mb mr. sys_reach keys_handler keys_enabled (keys_adm b) (mount keys_init) mk \<and> kp_busy (ui mk) \<and>
     sys_reach budgets_handler budgets_enabled (budgets_adm b) (mount budgets_init) mb \<and> bp_busy (ui mb) \<and>
     sys_reach (routing_handler id) routing_enabled (routing_adm b) (mount routing_init) mr \<and> rp_busy (ui mr) \<and>
     tasks mk \<noteq> [] \<and> tasks mb \<noteq> [] \<and> tasks mr \<noteq> [] \<and> in_flight is_delete mk \<le> 1" by blast
qed

end
